theory Spec2Isabelle
  imports Main "HOL-Library.Sublist" "HOL-Library.AList" "HOL-Library.Char_ord"
    "HOL-Library.List_Lexorder"
begin

section \<open>The PFS driver (src/server/pfs/server/driver.go)\<close>

text \<open>
  A shallow embedding of the etcd-backed PFS driver. The coordination store is a
  record of collections, the external services (authorization, object store, hashtree
  library) are parameters collected in an environment record, random commit ids and
  timestamps are arguments of the operation that draws them, and every error return
  or run-time fault of the Go code is a value of the type \<open>error\<close>.
\<close>

subsection \<open>Go library functions used by the driver\<close>

text \<open>\<open>int\<close> is 64 bits wide: arithmetic on it wraps into the two's-complement range.\<close>

definition wrap64 :: "int \<Rightarrow> int" where
  "wrap64 x = (x + 2 ^ 63) mod 2 ^ 64 - 2 ^ 63"

text \<open>\<open>strings.IndexAny\<close> for a set of ASCII characters: the first position holding
  one of them (\<open>None\<close> for Go's \<open>-1\<close>).\<close>

fun IndexAny :: "string \<Rightarrow> string \<Rightarrow> nat option" where
  "IndexAny [] chars = None"
| "IndexAny (c # s) chars =
     (if c \<in> set chars then Some 0 else map_option Suc (IndexAny s chars))"

text \<open>\<open>strconv.ParseUint\<close> with an explicit base (10 or 16 here): the digits
  \<open>0-9\<close>, \<open>a-z\<close>, \<open>A-Z\<close> below the base; the empty string and any other character
  are syntax errors.\<close>

definition digitVal :: "char \<Rightarrow> nat option" where
  "digitVal c =
     (let n = of_char c :: nat in
      if 48 \<le> n \<and> n \<le> 57 then Some (n - 48)
      else if 97 \<le> n \<and> n \<le> 122 then Some (n - 97 + 10)
      else if 65 \<le> n \<and> n \<le> 90 then Some (n - 65 + 10)
      else None)"

fun parseDigits :: "nat \<Rightarrow> nat \<Rightarrow> string \<Rightarrow> nat option" where
  "parseDigits b acc [] = Some acc"
| "parseDigits b acc (c # s) =
     (case digitVal c of
        None \<Rightarrow> None
      | Some d \<Rightarrow> if d < b then parseDigits b (acc * b + d) s else None)"

text \<open>\<open>strconv.ParseInt(s, base, 64)\<close>: an optional sign, then \<open>ParseUint\<close>; a value
  outside the int64 range is a range error. \<open>None\<close> stands for a non-nil \<open>err\<close>.\<close>

definition ParseInt :: "string \<Rightarrow> nat \<Rightarrow> int option" where
  "ParseInt s b =
     (case s of
        [] \<Rightarrow> None
      | c # r \<Rightarrow>
          let neg = (c = CHR ''-'');
              ds = (if c = CHR ''+'' \<or> c = CHR ''-'' then r else s)
          in if ds = [] then None
             else (case parseDigits b 0 ds of
                     None \<Rightarrow> None
                   | Some un \<Rightarrow>
                       if \<not> neg \<and> un \<ge> 2 ^ 63 then None
                       else if neg \<and> un > 2 ^ 63 then None
                       else Some (if neg then - int un else int un)))"

definition Atoi :: "string \<Rightarrow> int option" where
  "Atoi s = ParseInt s 10"

text \<open>\<open>fmt.Sprintf("%016x", n)\<close> for an \<open>int\<close>: lower-case hexadecimal, padded with
  zeros to width 16, the sign (if any) counted in the width.\<close>

definition hexDigit :: "nat \<Rightarrow> char" where
  "hexDigit d = ''0123456789abcdef'' ! d"

fun hexDigits :: "nat \<Rightarrow> nat \<Rightarrow> string \<Rightarrow> string" where
  "hexDigits 0 n acc = acc"
| "hexDigits (Suc fuel) n acc =
     (if n < 16 then hexDigit n # acc
      else hexDigits fuel (n div 16) (hexDigit (n mod 16) # acc))"

definition toHex :: "nat \<Rightarrow> string" where
  "toHex n = hexDigits (Suc n) n []"

definition padZero :: "nat \<Rightarrow> string \<Rightarrow> string" where
  "padZero w ds = replicate (w - length ds) (CHR ''0'') @ ds"

definition Sprintf_016x :: "int \<Rightarrow> string" where
  "Sprintf_016x n =
     (if n < 0 then CHR ''-'' # padZero 15 (toHex (nat (- n)))
      else padZero 16 (toHex (nat n)))"

text \<open>\<open>strings.Split(s, "/")\<close>, \<open>strings.Join\<close>, \<open>strings.TrimPrefix\<close>.\<close>

fun Split :: "string \<Rightarrow> char \<Rightarrow> string list" where
  "Split [] sep = [[]]"
| "Split (c # s) sep =
     (if c = sep then [] # Split s sep
      else (case Split s sep of
              [] \<Rightarrow> [[c]]
            | w # ws \<Rightarrow> (c # w) # ws))"

fun Join :: "string list \<Rightarrow> string \<Rightarrow> string" where
  "Join [] sep = []"
| "Join [e] sep = e"
| "Join (e # es) sep = e @ sep @ Join es sep"

definition TrimPrefix :: "string \<Rightarrow> string \<Rightarrow> string" where
  "TrimPrefix s p = (if prefix p s then drop (length p) s else s)"

text \<open>\<open>path.Clean\<close>, \<open>path.Join\<close> and \<open>path.Base\<close> of the Go standard library.
  \<open>cleanElems\<close> is the element loop of \<open>Clean\<close>: empty and \<open>.\<close> elements are
  dropped, \<open>..\<close> removes the element before it when there is one to remove.\<close>

fun cleanElems :: "bool \<Rightarrow> string list \<Rightarrow> string list \<Rightarrow> string list" where
  "cleanElems rooted [] out = rev out"
| "cleanElems rooted (e # es) out =
     (if e = [] \<or> e = ''.'' then cleanElems rooted es out
      else if e = ''..'' then
        (case out of
           [] \<Rightarrow> if rooted then cleanElems rooted es [] else cleanElems rooted es [e]
         | last_el # rest_out \<Rightarrow>
             if last_el = ''..'' then cleanElems rooted es (e # out)
             else cleanElems rooted es rest_out)
      else cleanElems rooted es (e # out))"

definition path_Clean :: "string \<Rightarrow> string" where
  "path_Clean p =
     (if p = [] then ''.''
      else
        let rooted = (hd p = CHR ''/'');
            body = Join (cleanElems rooted (Split p (CHR ''/'')) []) ''/'';
            res = (if rooted then CHR ''/'' # body else body)
        in if res = [] then ''.'' else res)"

definition path_Join :: "string list \<Rightarrow> string" where
  "path_Join elems =
     (case dropWhile (\<lambda>e. e = []) elems of
        [] \<Rightarrow> []
      | es \<Rightarrow> path_Clean (Join es ''/''))"

definition path_Base :: "string \<Rightarrow> string" where
  "path_Base p =
     (if p = [] then ''.''
      else
        let q = rev (dropWhile (\<lambda>c. c = CHR ''/'') (rev p));
            b = rev (takeWhile (\<lambda>c. c \<noteq> CHR ''/'') (rev q))
        in if b = [] then ''/'' else b)"

subsection \<open>Data model (the protobuf messages the driver reads and writes)\<close>

datatype Scope = Scope_NONE | Scope_READER | Scope_WRITER | Scope_OWNER

text \<open>\<open>pfs.Commit\<close>: a repo name and an id. The \<open>Repo\<close> pointer is taken to be
  non-nil; a nil \<open>*pfs.Commit\<close> is \<open>None\<close> of \<open>Commit option\<close>.\<close>

record Commit =
  c_Repo :: string
  c_ID :: string

record RepoInfo =
  ri_Repo :: string
  ri_Created :: nat
  ri_SizeBytes :: nat
  ri_Provenance :: "string list"
  ri_Description :: string
  ri_AuthInfo :: "Scope option"

record CommitInfo =
  ci_Commit :: Commit
  ci_ParentCommit :: "Commit option"
  ci_Started :: nat
  ci_Finished :: "nat option"
  ci_SizeBytes :: nat
  ci_Provenance :: "Commit list"
  ci_Tree :: "string option"

record BranchInfo =
  bi_Name :: string
  bi_Head :: Commit

text \<open>\<open>pfs.PutFileRecord\<close>; \<open>SizeBytes\<close> and the overwrite index are int64.\<close>

record PutFileRecord =
  r_SizeBytes :: int
  r_ObjectHash :: string
  r_OverwriteIndex :: "int option"

record PutFileRecords =
  rs_Split :: bool
  rs_Records :: "PutFileRecord list"

text \<open>A scratch key holds either the tombstone string \<open>"delete"\<close> or a marshalled
  \<open>PutFileRecords\<close>; the driver writes nothing else there.\<close>

datatype scratch_val = Tombstone | Records PutFileRecords

text \<open>The fields of \<open>hashtree.NodeProto\<close> the driver reads.\<close>

record Node =
  n_Name :: string
  n_SubtreeSize :: int
  n_FileNode :: "string list option"
  n_DirNode :: "string list option"

datatype Delimiter = Delimiter_NONE | Delimiter_JSON | Delimiter_LINE

datatype ht_code = PathNotFound | OtherCode

text \<open>Every way an operation can end other than with its result: the error values
  the driver builds, the errors of the services it calls, and the run-time faults
  (a nil dereference, a slice expression out of range) of the Go code.\<close>

datatype error =
    ErrInvalidRepoName string
  | NotAuthorizedError string Scope
  | ErrAuthCheck string
  | ErrAccessLevel string
  | ErrNotFound string
  | ErrExists string
  | ErrRepoExists string
  | ErrCreateRepoAuth string
  | ErrCreateACL string
  | ErrUpdateRepo string
  | ErrDeleteProvenance
  | ErrClearACL string
  | ErrParentNil
  | ErrParentNotFinished string
  | ErrAlreadyFinished Commit
  | ErrNotConfirmedOpen string
  | ErrInspectNil
  | ErrCommitNotFound "Commit"
  | ErrCommitFinished Commit
  | ErrDeleteFinished
  | ErrCommitNotOpen string
  | ErrRepoMismatch string
  | ErrFromWithoutTo
  | ErrNullInPath string
  | ErrReadOpenCommit
  | ErrEmptyRecords
  | ErrSplitParse string
  | ErrHashTree ht_code
  | ErrObjectStore
  | ErrReader
  | PanicNilDereference
  | PanicOutOfRange

subsection \<open>The coordination store\<close>

text \<open>
  Modelled from the spec: the typed collections of the coordination-store adapter
  (package \<open>collection\<close>, not among the source files). A collection is an association
  list with the most recently written key first (the order \<open>List\<close> iterates in);
  \<open>Get\<close>, \<open>Delete\<close> and the counter operations fail with \<open>ErrNotFound\<close> on a missing
  key, \<open>Create\<close> fails on an existing one. Failures of the store itself (network,
  time-outs) are not modelled.
\<close>

type_synonym ('k, 'v) collection = "('k \<times> 'v) list"

definition col_Get :: "('k, 'v) collection \<Rightarrow> 'k \<Rightarrow> 'v option" where
  "col_Get c k = map_of c k"

definition col_Put :: "('k, 'v) collection \<Rightarrow> 'k \<Rightarrow> 'v \<Rightarrow> ('k, 'v) collection" where
  "col_Put c k v = (k, v) # filter (\<lambda>p. fst p \<noteq> k) c"

definition col_Create :: "('k, 'v) collection \<Rightarrow> 'k \<Rightarrow> 'v \<Rightarrow> ('k, 'v) collection option" where
  "col_Create c k v = (case col_Get c k of Some _ \<Rightarrow> None | None \<Rightarrow> Some (col_Put c k v))"

definition col_Delete :: "('k, 'v) collection \<Rightarrow> 'k \<Rightarrow> ('k, 'v) collection option" where
  "col_Delete c k =
     (case col_Get c k of None \<Rightarrow> None | Some _ \<Rightarrow> Some (filter (\<lambda>p. fst p \<noteq> k) c))"

definition col_IncrementBy :: "('k, int) collection \<Rightarrow> 'k \<Rightarrow> int \<Rightarrow> ('k, int) collection option" where
  "col_IncrementBy c k n =
     (case col_Get c k of None \<Rightarrow> None | Some v \<Rightarrow> Some (col_Put c k (v + n)))"

definition col_DecrementBy :: "('k, int) collection \<Rightarrow> 'k \<Rightarrow> int \<Rightarrow> ('k, int) collection option" where
  "col_DecrementBy c k n =
     (case col_Get c k of None \<Rightarrow> None | Some v \<Rightarrow> Some (col_Put c k (v - n)))"

text \<open>The per-repo collections \<open>commits(repo)\<close> and \<open>branches(repo)\<close> are one
  collection keyed by (repo, key); \<open>col_DeleteAll\<close> and \<open>col_List\<close> act on the keys of
  one repo.\<close>

definition col_DeleteAll :: "(string \<times> 'k, 'v) collection \<Rightarrow> string \<Rightarrow> (string \<times> 'k, 'v) collection" where
  "col_DeleteAll c repo = filter (\<lambda>p. fst (fst p) \<noteq> repo) c"

definition col_List :: "(string \<times> 'k, 'v) collection \<Rightarrow> string \<Rightarrow> ('k \<times> 'v) list" where
  "col_List c repo = map (\<lambda>p. (snd (fst p), snd p)) (filter (\<lambda>p. fst (fst p) = repo) c)"

text \<open>The LRU cache of finished trees (package \<open>golang-lru\<close>): most recently used
  first; \<open>Add\<close> evicts from the back once the size is exceeded.\<close>

definition lru_Get :: "(string \<times> 't) list \<Rightarrow> string \<Rightarrow> ('t \<times> (string \<times> 't) list) option" where
  "lru_Get c k =
     (case map_of c k of
        None \<Rightarrow> None
      | Some v \<Rightarrow> Some (v, (k, v) # filter (\<lambda>p. fst p \<noteq> k) c))"

definition lru_Add :: "nat \<Rightarrow> (string \<times> 't) list \<Rightarrow> string \<Rightarrow> 't \<Rightarrow> (string \<times> 't) list" where
  "lru_Add cap c k v = take cap ((k, v) # filter (\<lambda>p. fst p \<noteq> k) c)"

text \<open>The state of a driver: the collections, the scratch space (its keys in
  mod-revision order, oldest first) and the tree cache.\<close>

record 't driver =
  repos :: "(string, RepoInfo) collection"
  repoRefCounts :: "(string, int) collection"
  commits :: "(string \<times> string, CommitInfo) collection"
  branches :: "(string \<times> string, Commit) collection"
  openCommits :: "(string, Commit) collection"
  scratch :: "(string \<times> scratch_val) list"
  treeCache :: "(string \<times> 't) list"

text \<open>\<open>col.NewSTM\<close>: the closure's writes to the store take effect only when it
  returns nil. The tree cache is not part of the store and keeps what the closure did
  to it.\<close>

definition NewSTM ::
  "'t driver \<Rightarrow> ('t driver \<Rightarrow> (error + 'a) \<times> 't driver) \<Rightarrow> (error + 'a) \<times> 't driver" where
  "NewSTM st f =
     (case f st of
        (Inl e, st') \<Rightarrow> (Inl e, st\<lparr>treeCache := treeCache st'\<rparr>)
      | (Inr x, st') \<Rightarrow> (Inr x, st'))"

definition etcd_Put :: "(string \<times> scratch_val) list \<Rightarrow> string \<Rightarrow> scratch_val \<Rightarrow> (string \<times> scratch_val) list" where
  "etcd_Put kvs k v = filter (\<lambda>p. fst p \<noteq> k) kvs @ [(k, v)]"

definition etcd_GetPrefix :: "(string \<times> scratch_val) list \<Rightarrow> string \<Rightarrow> (string \<times> scratch_val) list" where
  "etcd_GetPrefix kvs p = filter (\<lambda>kv. prefix p (fst kv)) kvs"

definition etcd_DeletePrefix :: "(string \<times> scratch_val) list \<Rightarrow> string \<Rightarrow> (string \<times> scratch_val) list" where
  "etcd_DeletePrefix kvs p = filter (\<lambda>kv. \<not> prefix p (fst kv)) kvs"

subsection \<open>External services\<close>

datatype auth_reply = Authorized | Denied | AuthNotActivated | AuthFailed

datatype whoami_reply = WhoAmI_OK string bool | WhoAmINotActivated | WhoAmIFailed

datatype acl_reply = ACL_OK | ACL_NotActivated | ACL_Failed

datatype scope_reply = Scopes "Scope list" | ScopeNotActivated | ScopeFailed

text \<open>The hashtree library, opaque to the driver: \<open>'t\<close> is a finished tree, \<open>'o\<close> an
  open one. A mutating method of an open tree returns the tree it leaves.
  \<open>ht_Diff\<close> gives the calls \<open>Diff\<close> makes to its callback.\<close>

record ('t, 'o) hashtree =
  ht_NewFinished :: "error + 't"
  ht_Open :: "'t \<Rightarrow> 'o"
  ht_Finish :: "'o \<Rightarrow> error + 't"
  ht_Serialize :: "'t \<Rightarrow> error + string"
  ht_Deserialize :: "string \<Rightarrow> error + 't"
  ht_FSSize :: "'t \<Rightarrow> int"
  ht_Diff :: "'t \<Rightarrow> 't \<Rightarrow> (string \<times> Node \<times> bool) list"
  ht_Get :: "'o \<Rightarrow> string \<Rightarrow> error + Node"
  ht_List :: "'o \<Rightarrow> string \<Rightarrow> error + Node list"
  ht_PutFile :: "'o \<Rightarrow> string \<Rightarrow> string list \<Rightarrow> int \<Rightarrow> error + 'o"
  ht_PutFileOverwrite :: "'o \<Rightarrow> string \<Rightarrow> string list \<Rightarrow> int \<Rightarrow> int \<Rightarrow> error + 'o"
  ht_DeleteFile :: "'o \<Rightarrow> string \<Rightarrow> error + 'o"

text \<open>The environment of a driver: its etcd prefix, the constants of the packages
  it imports, and the replies of the services it calls.\<close>

record ('t, 'o) env =
  etcdPrefix :: string
  ChunkSize :: int
  treeCacheSize :: nat
  Authorize :: "string \<Rightarrow> Scope \<Rightarrow> auth_reply"
  WhoAmI :: whoami_reply
  SetACL :: "string \<Rightarrow> acl_reply"
  GetScope :: "string \<Rightarrow> scope_reply"
  PutObject :: "string \<Rightarrow> (string \<times> int) option"
  PutObjectSplit :: "string \<Rightarrow> (string list \<times> int) option"
  GetObject :: "string \<Rightarrow> string option"
  SplitObjects :: "Delimiter \<Rightarrow> int \<Rightarrow> int \<Rightarrow> string \<Rightarrow> error + PutFileRecord list"
  HT :: "('t, 'o) hashtree"

subsection \<open>Authorization and repo names\<close>

definition repoNameChar :: "char \<Rightarrow> bool" where
  "repoNameChar c =
     (let n = of_char c :: nat in
      (48 \<le> n \<and> n \<le> 57) \<or> (65 \<le> n \<and> n \<le> 90) \<or> (97 \<le> n \<and> n \<le> 122)
      \<or> c = CHR ''_'' \<or> c = CHR ''-'')"

definition ValidateRepoName :: "string \<Rightarrow> error option" where
  "ValidateRepoName name =
     (if name \<noteq> [] \<and> list_all repoNameChar name then None
      else Some (ErrInvalidRepoName name))"

definition checkIsAuthorized :: "('t, 'o) env \<Rightarrow> string \<Rightarrow> Scope \<Rightarrow> error option" where
  "checkIsAuthorized env r s =
     (case Authorize env r s of
        Authorized \<Rightarrow> None
      | Denied \<Rightarrow> Some (NotAuthorizedError r s)
      | AuthNotActivated \<Rightarrow> None
      | AuthFailed \<Rightarrow> Some (ErrAuthCheck r))"

text \<open>\<open>getAccessLevel\<close>: \<open>Inl True\<close> is a not-activated error, \<open>Inl False\<close> any
  other error.\<close>

definition getAccessLevel :: "('t, 'o) env \<Rightarrow> string \<Rightarrow> bool + Scope" where
  "getAccessLevel env repo =
     (case WhoAmI env of
        WhoAmINotActivated \<Rightarrow> Inl True
      | WhoAmIFailed \<Rightarrow> Inl False
      | WhoAmI_OK username isAdmin \<Rightarrow>
          if isAdmin then Inr Scope_OWNER
          else (case GetScope env repo of
                  ScopeNotActivated \<Rightarrow> Inl True
                | ScopeFailed \<Rightarrow> Inl False
                | Scopes ss \<Rightarrow> (case ss of [s] \<Rightarrow> Inr s | _ \<Rightarrow> Inl False)))"

subsection \<open>Repos\<close>

text \<open>A Go \<open>map[string]bool\<close> used as a set is the list of its keys. Go leaves the
  iteration order of a map open; the model iterates in insertion order.\<close>

definition keys_add :: "string list \<Rightarrow> string \<Rightarrow> string list" where
  "keys_add ks k = (if k \<in> set ks then ks else ks @ [k])"

definition keys_delete :: "string list \<Rightarrow> string \<Rightarrow> string list" where
  "keys_delete ks k = filter (\<lambda>x. x \<noteq> k) ks"

definition inspectRepo ::
  "('t, 'o) env \<Rightarrow> 't driver \<Rightarrow> string \<Rightarrow> bool \<Rightarrow> error + RepoInfo" where
  "inspectRepo env st repo includeAuth =
     (case col_Get (repos st) repo of
        None \<Rightarrow> Inl (ErrNotFound repo)
      | Some result \<Rightarrow>
          if includeAuth then
            (case getAccessLevel env repo of
               Inl notActivated \<Rightarrow>
                 if notActivated then Inr result else Inl (ErrAccessLevel repo)
             | Inr accessLevel \<Rightarrow> Inr (result\<lparr>ri_AuthInfo := Some accessLevel\<rparr>))
          else Inr result)"

text \<open>The loop of \<open>listRepo\<close> over the iterator: the flag is \<open>authSeemsActive\<close>.\<close>

fun listRepo_loop ::
  "('t, 'o) env \<Rightarrow> string list \<Rightarrow> bool \<Rightarrow> bool \<Rightarrow> (string \<times> RepoInfo) list \<Rightarrow>
   error + RepoInfo list" where
  "listRepo_loop env provenance includeAuth authSeemsActive [] = Inr []"
| "listRepo_loop env provenance includeAuth authSeemsActive ((repoName, repoInfo) # rest) =
     (if \<not> list_all (\<lambda>reqProv. reqProv \<in> set (ri_Provenance repoInfo)) provenance
      then listRepo_loop env provenance includeAuth authSeemsActive rest
      else if includeAuth \<and> authSeemsActive then
        (case getAccessLevel env (ri_Repo repoInfo) of
           Inr accessLevel \<Rightarrow>
             (case listRepo_loop env provenance includeAuth authSeemsActive rest of
                Inl e \<Rightarrow> Inl e
              | Inr res \<Rightarrow> Inr (repoInfo\<lparr>ri_AuthInfo := Some accessLevel\<rparr> # res))
         | Inl notActivated \<Rightarrow>
             if notActivated then
               (case listRepo_loop env provenance includeAuth False rest of
                  Inl e \<Rightarrow> Inl e
                | Inr res \<Rightarrow> Inr (repoInfo # res))
             else Inl (ErrAccessLevel repoName))
      else
        (case listRepo_loop env provenance includeAuth authSeemsActive rest of
           Inl e \<Rightarrow> Inl e
         | Inr res \<Rightarrow> Inr (repoInfo # res)))"

definition listRepo ::
  "('t, 'o) env \<Rightarrow> 't driver \<Rightarrow> string list \<Rightarrow> bool \<Rightarrow> error + RepoInfo list" where
  "listRepo env st provenance includeAuth =
     (case filter (\<lambda>prov. col_Get (repos st) prov = None) provenance of
        missing # _ \<Rightarrow> Inl (ErrNotFound missing)
      | [] \<Rightarrow> listRepo_loop env provenance includeAuth True (repos st))"

text \<open>\<open>createRepo\<close>, the closure of its transaction. \<open>fullProv_loop\<close> is the loop that
  computes the full provenance: each named repo and the provenance stored for it.\<close>

fun fullProv_loop ::
  "(string, RepoInfo) collection \<Rightarrow> string list \<Rightarrow> string list \<Rightarrow> error + string list" where
  "fullProv_loop rs [] fullProv = Inr fullProv"
| "fullProv_loop rs (prov # rest) fullProv =
     (case col_Get rs prov of
        None \<Rightarrow> Inl (ErrNotFound prov)
      | Some provRepo \<Rightarrow>
          fullProv_loop rs rest (foldl keys_add (keys_add fullProv prov) (ri_Provenance provRepo)))"

fun incrementAll ::
  "(string, int) collection \<Rightarrow> string list \<Rightarrow> int \<Rightarrow> error + (string, int) collection" where
  "incrementAll rc [] n = Inr rc"
| "incrementAll rc (prov # rest) n =
     (case col_IncrementBy rc prov n of
        None \<Rightarrow> Inl (ErrNotFound prov)
      | Some rc' \<Rightarrow> incrementAll rc' rest n)"

fun decrementAll ::
  "(string, int) collection \<Rightarrow> string list \<Rightarrow> int \<Rightarrow> error + (string, int) collection" where
  "decrementAll rc [] n = Inr rc"
| "decrementAll rc (prov # rest) n =
     (case col_DecrementBy rc prov n of
        None \<Rightarrow> Inl (ErrNotFound prov)
      | Some rc' \<Rightarrow> decrementAll rc' rest n)"

definition createRepo_acl :: "('t, 'o) env \<Rightarrow> string \<Rightarrow> error option" where
  "createRepo_acl env repo =
     (case WhoAmI env of
        WhoAmIFailed \<Rightarrow> Some (ErrCreateRepoAuth repo)
      | WhoAmINotActivated \<Rightarrow> None
      | WhoAmI_OK username isAdmin \<Rightarrow>
          if SetACL env repo = ACL_OK then None else Some (ErrCreateACL repo))"

definition createRepo_txn ::
  "('t, 'o) env \<Rightarrow> string \<Rightarrow> string list \<Rightarrow> string \<Rightarrow> nat \<Rightarrow> 't driver \<Rightarrow>
   (error + unit) \<times> 't driver" where
  "createRepo_txn env repo provenance description now st =
     (case col_Get (repos st) repo of
        Some _ \<Rightarrow> (Inl (ErrRepoExists repo), st)
      | None \<Rightarrow>
          (case createRepo_acl env repo of
             Some e \<Rightarrow> (Inl e, st)
           | None \<Rightarrow>
            (case fullProv_loop (repos st) provenance [] of
               Inl e \<Rightarrow> (Inl e, st)
             | Inr fullProv \<Rightarrow>
                 (case incrementAll (repoRefCounts st) fullProv 1 of
                    Inl e \<Rightarrow> (Inl e, st)
                  | Inr rc \<Rightarrow>
                      (case col_Create rc repo 0 of
                         None \<Rightarrow> (Inl (ErrExists repo), st)
                       | Some rc' \<Rightarrow>
                           (case col_Create (repos st) repo
                                   \<lparr>ri_Repo = repo, ri_Created = now, ri_SizeBytes = 0,
                                    ri_Provenance = fullProv, ri_Description = description,
                                    ri_AuthInfo = None\<rparr> of
                              None \<Rightarrow> (Inl (ErrExists repo), st)
                            | Some rs' \<Rightarrow>
                                (Inr (), st\<lparr>repos := rs', repoRefCounts := rc'\<rparr>)))))))"

text \<open>\<open>updateRepo\<close>. \<open>patchDownstream\<close> is the body of the loop over the downstream
  repos: new provenance is appended where absent, old provenance is removed (its
  first occurrence).\<close>

definition addProv :: "string list \<Rightarrow> string \<Rightarrow> string list" where
  "addProv ps newProv = (if newProv \<in> set ps then ps else ps @ [newProv])"

definition patchDownstream :: "string list \<Rightarrow> string list \<Rightarrow> RepoInfo \<Rightarrow> RepoInfo" where
  "patchDownstream provToAdd provToRemove repoInfo =
     repoInfo\<lparr>ri_Provenance :=
       foldl (\<lambda>ps oldProv. remove1 oldProv ps)
         (foldl addProv (ri_Provenance repoInfo) provToAdd) provToRemove\<rparr>"

definition updateRepo_txn ::
  "('t, 'o) env \<Rightarrow> string \<Rightarrow> string list \<Rightarrow> string \<Rightarrow> 't driver \<Rightarrow>
   (error + unit) \<times> 't driver" where
  "updateRepo_txn env repo provenance description st =
     (case col_Get (repos st) repo of
        None \<Rightarrow> (Inl (ErrUpdateRepo repo), st)
      | Some repoInfo \<Rightarrow>
          (case checkIsAuthorized env repo Scope_WRITER of
             Some e \<Rightarrow> (Inl e, st)
           | None \<Rightarrow>
               let provToAdd = foldl keys_delete (foldl keys_add [] provenance)
                                 (ri_Provenance repoInfo);
                   provToRemove = foldl keys_delete
                                    (foldl keys_add [] (ri_Provenance repoInfo)) provenance
               in (case col_Get (repoRefCounts st) repo of
                     None \<Rightarrow> (Inl (ErrNotFound repo), st)
                   | Some myRefCount \<Rightarrow>
                       (case incrementAll (repoRefCounts st) provToAdd (myRefCount + 1) of
                          Inl e \<Rightarrow> (Inl e, st)
                        | Inr rc \<Rightarrow>
                            (case decrementAll rc provToRemove (myRefCount + 1) of
                               Inl e \<Rightarrow> (Inl e, st)
                             | Inr rc' \<Rightarrow>
                                 (case listRepo env st [repo] False of
                                    Inl e \<Rightarrow> (Inl e, st)
                                  | Inr downstreamRepos \<Rightarrow>
                                      let rs = foldl (\<lambda>c ri. col_Put c (ri_Repo ri)
                                                  (patchDownstream provToAdd provToRemove ri))
                                                (repos st) downstreamRepos;
                                          rs' = col_Put rs repo
                                                  (repoInfo\<lparr>ri_Description := description,
                                                             ri_Provenance := provenance\<rparr>)
                                      in (Inr (), st\<lparr>repos := rs', repoRefCounts := rc'\<rparr>)))))))"

definition updateRepo ::
  "('t, 'o) env \<Rightarrow> 't driver \<Rightarrow> string \<Rightarrow> string list \<Rightarrow> string \<Rightarrow> (error + unit) \<times> 't driver" where
  "updateRepo env st repo provenance description =
     NewSTM st (updateRepo_txn env repo provenance description)"

definition createRepo ::
  "('t, 'o) env \<Rightarrow> 't driver \<Rightarrow> string \<Rightarrow> string list \<Rightarrow> string \<Rightarrow> bool \<Rightarrow> nat \<Rightarrow>
   (error + unit) \<times> 't driver" where
  "createRepo env st repo provenance description update now =
     (case ValidateRepoName repo of
        Some e \<Rightarrow> (Inl e, st)
      | None \<Rightarrow>
          if update then updateRepo env st repo provenance description
          else NewSTM st (createRepo_txn env repo provenance description now))"

text \<open>\<open>deleteRepo\<close>. The loop over the provenance skips a refcount that is not
  found.\<close>

fun decrementProvenance :: "(string, int) collection \<Rightarrow> string list \<Rightarrow> (string, int) collection" where
  "decrementProvenance rc [] = rc"
| "decrementProvenance rc (prov # rest) =
     (case col_DecrementBy rc prov 1 of
        None \<Rightarrow> decrementProvenance rc rest
      | Some rc' \<Rightarrow> decrementProvenance rc' rest)"

definition deleteRepo_txn :: "string \<Rightarrow> bool \<Rightarrow> 't driver \<Rightarrow> (error + unit) \<times> 't driver" where
  "deleteRepo_txn repo force st =
     (if \<not> force \<and> col_Get (repoRefCounts st) repo = None then (Inl (ErrNotFound repo), st)
      else if \<not> force \<and> col_Get (repoRefCounts st) repo \<noteq> Some 0
        then (Inl ErrDeleteProvenance, st)
      else
        (case col_Get (repos st) repo of
           None \<Rightarrow> (Inl (ErrNotFound repo), st)
         | Some repoInfo \<Rightarrow>
             let rc = decrementProvenance (repoRefCounts st) (ri_Provenance repoInfo) in
             (case col_Delete (repos st) repo of
                None \<Rightarrow> (Inl (ErrNotFound repo), st)
              | Some rs' \<Rightarrow>
                  (case col_Delete rc repo of
                     None \<Rightarrow> (Inl (ErrNotFound repo), st)
                   | Some rc' \<Rightarrow>
                       (Inr (), st\<lparr>repos := rs', repoRefCounts := rc',
                                   commits := col_DeleteAll (commits st) repo,
                                   branches := col_DeleteAll (branches st) repo\<rparr>)))))"

definition deleteRepo ::
  "('t, 'o) env \<Rightarrow> 't driver \<Rightarrow> string \<Rightarrow> bool \<Rightarrow> (error + unit) \<times> 't driver" where
  "deleteRepo env st repo force =
     (case checkIsAuthorized env repo Scope_OWNER of
        Some e \<Rightarrow> (Inl e, st)
      | None \<Rightarrow>
          (case NewSTM st (deleteRepo_txn repo force) of
             (Inl e, st') \<Rightarrow> (Inl e, st')
           | (Inr u, st') \<Rightarrow>
               if SetACL env repo = ACL_Failed then (Inl (ErrClearACL repo), st')
               else (Inr (), st')))"

subsection \<open>Commit references\<close>

text \<open>\<open>parseCommitID\<close>: the id component and the depth of the ancestor.\<close>

definition parseCommitID :: "string \<Rightarrow> string \<times> int" where
  "parseCommitID commitID =
     (case IndexAny commitID ''^~'' of
        None \<Rightarrow> (commitID, 0)
      | Some sepIndex \<Rightarrow>
          let sep = commitID ! sepIndex;
              strAfterSep = drop (sepIndex + 1) commitID
          in (case Atoi strAfterSep of
                Some intAfterSep \<Rightarrow> (take sepIndex commitID, intAfterSep)
              | None \<Rightarrow>
                  if list_all (\<lambda>c. c = sep) strAfterSep
                  then (take sepIndex commitID, int (length commitID) - int sepIndex)
                  else (commitID, 0)))"

text \<open>The loop of \<open>inspectCommit\<close>, by the number of iterations left: \<open>nextCommit\<close>
  is the commit to read, \<open>commitInfo\<close> the record read last. The Go loop runs for
  \<open>i = 0 .. ancestryLength\<close>, that is \<open>ancestryLength + 1\<close> times (not at all for a
  negative length); for \<open>ancestryLength = 2^63 - 1\<close> the counter wraps, and the loop
  is left by one of its returns on every store whose parent chains are finite.\<close>

fun inspectCommit_loop ::
  "(string \<times> string, CommitInfo) collection \<Rightarrow> Commit \<Rightarrow> nat \<Rightarrow> Commit option \<Rightarrow>
   CommitInfo option \<Rightarrow> error + CommitInfo option" where
  "inspectCommit_loop cs commit 0 nextCommit commitInfo = Inr commitInfo"
| "inspectCommit_loop cs commit (Suc k) nextCommit commitInfo =
     (case nextCommit of
        None \<Rightarrow> Inl (ErrCommitNotFound commit)
      | Some next \<Rightarrow>
          (case col_Get cs (c_Repo commit, c_ID next) of
             None \<Rightarrow> Inl (ErrCommitNotFound next)
           | Some ci \<Rightarrow> inspectCommit_loop cs commit k (ci_ParentCommit ci) (Some ci)))"

text \<open>\<open>inspectCommit\<close> returns the \<open>CommitInfo\<close>; its side effect, replacing the id
  of the commit it was given by \<open>commitInfo.Commit.ID\<close>, is applied by the callers
  (\<open>resolved\<close>). A negative ancestry length leaves \<open>commitInfo\<close> nil, and the final
  \<open>commitInfo.Commit.ID\<close> dereferences it.\<close>

definition inspectCommit ::
  "('t, 'o) env \<Rightarrow> 't driver \<Rightarrow> Commit option \<Rightarrow> error + CommitInfo" where
  "inspectCommit env st commit =
     (case commit of
        None \<Rightarrow> Inl ErrInspectNil
      | Some c \<Rightarrow>
          (case checkIsAuthorized env (c_Repo c) Scope_READER of
             Some e \<Rightarrow> Inl e
           | None \<Rightarrow>
               let commitID = fst (parseCommitID (c_ID c));
                   ancestryLength = snd (parseCommitID (c_ID c));
                   commitID' = (case col_Get (branches st) (c_Repo c, commitID) of
                                  None \<Rightarrow> commitID
                                | Some head \<Rightarrow> c_ID head)
               in (case inspectCommit_loop (commits st) c (nat (ancestryLength + 1))
                          (Some \<lparr>c_Repo = c_Repo c, c_ID = commitID'\<rparr>) None of
                     Inl e \<Rightarrow> Inl e
                   | Inr None \<Rightarrow> Inl PanicNilDereference
                   | Inr (Some commitInfo) \<Rightarrow> Inr commitInfo)))"

definition resolved :: "Commit \<Rightarrow> CommitInfo \<Rightarrow> Commit" where
  "resolved commit commitInfo = commit\<lparr>c_ID := c_ID (ci_Commit commitInfo)\<rparr>"

subsection \<open>Trees of commits\<close>

definition to_uint64 :: "int \<Rightarrow> nat" where
  "to_uint64 x = nat (x mod 2 ^ 64)"

definition sizeChange :: "('t, 'o) hashtree \<Rightarrow> 't \<Rightarrow> 't option \<Rightarrow> nat" where
  "sizeChange ht tree parentTree =
     (case parentTree of
        None \<Rightarrow> to_uint64 (ht_FSSize ht tree)
      | Some pt \<Rightarrow>
          foldl (\<lambda>result (path, node, new).
                   if n_FileNode node \<noteq> None \<and> new
                   then (result + to_uint64 (n_SubtreeSize node)) mod 2 ^ 64
                   else result)
                0 (ht_Diff ht tree pt))"

text \<open>\<open>getTreeForCommit\<close> returns the tree together with the commit it was given,
  whose id \<open>inspectCommit\<close> may have replaced; the cache is written to the state.\<close>

definition emptyTree ::
  "('t, 'o) env \<Rightarrow> 't driver \<Rightarrow> Commit option \<Rightarrow> (error + 't \<times> Commit option) \<times> 't driver" where
  "emptyTree env st commit =
     (case ht_NewFinished (HT env) of
        Inl e \<Rightarrow> (Inl e, st)
      | Inr t \<Rightarrow> (Inr (t, commit), st))"

definition getTreeForCommit ::
  "('t, 'o) env \<Rightarrow> 't driver \<Rightarrow> Commit option \<Rightarrow> (error + 't \<times> Commit option) \<times> 't driver" where
  "getTreeForCommit env st commit =
     (case commit of
        None \<Rightarrow> emptyTree env st commit
      | Some c \<Rightarrow>
          if c_ID c = [] then emptyTree env st commit
          else
            (case lru_Get (treeCache st) (c_ID c) of
               Some (h, cache') \<Rightarrow> (Inr (h, commit), st\<lparr>treeCache := cache'\<rparr>)
             | None \<Rightarrow>
                 (case inspectCommit env st commit of
                    Inl e \<Rightarrow> (Inl e, st)
                  | Inr ci0 \<Rightarrow>
                      let c' = resolved c ci0 in
                      (case col_Get (commits st) (c_Repo c', c_ID c') of
                         None \<Rightarrow> (Inl (ErrNotFound (c_ID c')), st)
                       | Some commitInfo \<Rightarrow>
                           if ci_Finished commitInfo = None then (Inl ErrReadOpenCommit, st)
                           else
                             (case ci_Tree commitInfo of
                                None \<Rightarrow> emptyTree env st (Some c')
                              | Some treeRef \<Rightarrow>
                                  (case GetObject env treeRef of
                                     None \<Rightarrow> (Inl ErrObjectStore, st)
                                   | Some buf \<Rightarrow>
                                       (case ht_Deserialize (HT env) buf of
                                          Inl e \<Rightarrow> (Inl e, st)
                                        | Inr h \<Rightarrow>
                                            (Inr (h, Some c'),
                                             st\<lparr>treeCache :=
                                                  lru_Add (treeCacheSize env) (treeCache st)
                                                    (c_ID c') h\<rparr>))))))))"

subsection \<open>Creating commits\<close>

fun provenance_loop ::
  "(string \<times> string, CommitInfo) collection \<Rightarrow> Commit list \<Rightarrow> (string \<times> Commit) list \<Rightarrow>
   error + (string \<times> Commit) list" where
  "provenance_loop cs [] provenanceMap = Inr provenanceMap"
| "provenance_loop cs (prov # rest) provenanceMap =
     (case col_Get cs (c_Repo prov, c_ID prov) of
        None \<Rightarrow> Inl (ErrNotFound (c_ID prov))
      | Some provCommitInfo \<Rightarrow>
          provenance_loop cs rest
            (foldl (\<lambda>m c. AList.update (c_ID c) c m) provenanceMap
               (ci_Provenance provCommitInfo)))"

text \<open>The closure of \<open>makeCommit\<close>'s transaction; \<open>tree\<close> is \<open>treeRef\<close> with the
  tree deserialized from it. \<open>inspectCommit\<close> and \<open>getTreeForCommit\<close> read the store
  as it was before the transaction.\<close>

definition makeCommit_txn ::
  "('t, 'o) env \<Rightarrow> Commit \<Rightarrow> string \<Rightarrow> Commit list \<Rightarrow> (string \<times> 't) option \<Rightarrow>
   Commit \<Rightarrow> nat \<Rightarrow> nat \<Rightarrow> 't driver \<Rightarrow> (error + unit) \<times> 't driver" where
  "makeCommit_txn env parent branch provenance tree commit started finishedAt st =
     (case col_Get (repos st) (c_Repo parent) of
        None \<Rightarrow> (Inl (ErrNotFound (c_Repo parent)), st)
      | Some repoInfo \<Rightarrow>
     (case provenance_loop (commits st) provenance [] of
        Inl e \<Rightarrow> (Inl e, st)
      | Inr provenanceMap0 \<Rightarrow>
          let provenanceMap = foldl (\<lambda>m c. AList.update (c_ID c) c m) provenanceMap0 provenance;
              commitInfo0 = \<lparr>ci_Commit = commit, ci_ParentCommit = None, ci_Started = started,
                             ci_Finished = None, ci_SizeBytes = 0,
                             ci_Provenance = map snd provenanceMap, ci_Tree = None\<rparr>;
              parent1 = (if branch \<noteq> [] \<and> c_ID parent = []
                         then (case col_Get (branches st) (c_Repo parent, branch) of
                                 None \<Rightarrow> parent
                               | Some head \<Rightarrow> parent\<lparr>c_ID := c_ID head\<rparr>)
                         else parent);
              branches' = (if branch \<noteq> [] then col_Put (branches st) (c_Repo parent, branch) commit
                           else branches st)
          in
          (case (if c_ID parent1 \<noteq> []
                 then (case inspectCommit env st (Some parent1) of
                         Inl e \<Rightarrow> Inl e
                       | Inr parentCommitInfo \<Rightarrow>
                           if ci_Finished parentCommitInfo = None
                           then Inl (ErrParentNotFinished (c_ID (resolved parent1 parentCommitInfo)))
                           else Inr (resolved parent1 parentCommitInfo,
                                     commitInfo0\<lparr>ci_ParentCommit :=
                                       Some (resolved parent1 parentCommitInfo)\<rparr>))
                 else Inr (parent1, commitInfo0)) of
             Inl e \<Rightarrow> (Inl e, st)
           | Inr (parent2, commitInfo1) \<Rightarrow>
               (case getTreeForCommit env st (Some parent2) of
                  (Inl e, st1) \<Rightarrow> (Inl e, st1)
                | (Inr (parentTree, parent3), st1) \<Rightarrow>
                    let commitInfo2 =
                          (if ci_ParentCommit commitInfo1 = None then commitInfo1
                           else commitInfo1\<lparr>ci_ParentCommit := parent3\<rparr>);
                        st2 = st1\<lparr>branches := branches'\<rparr>
                    in
                    (case tree of
                       Some (treeRef, t) \<Rightarrow>
                         let commitInfo3 = commitInfo2\<lparr>ci_Tree := Some treeRef,
                               ci_SizeBytes := to_uint64 (ht_FSSize (HT env) t),
                               ci_Finished := Some finishedAt\<rparr>;
                             repoInfo' = repoInfo\<lparr>ri_SizeBytes :=
                               (ri_SizeBytes repoInfo + sizeChange (HT env) t (Some parentTree))
                                 mod 2 ^ 64\<rparr>;
                             st3 = st2\<lparr>repos := col_Put (repos st2) (c_Repo parent) repoInfo'\<rparr>
                         in (case col_Create (commits st3) (c_Repo parent, c_ID commit) commitInfo3 of
                               None \<Rightarrow> (Inl (ErrExists (c_ID commit)), st3)
                             | Some cs' \<Rightarrow> (Inr (), st3\<lparr>commits := cs'\<rparr>))
                     | None \<Rightarrow>
                         let st3 = st2\<lparr>openCommits := col_Put (openCommits st2) (c_ID commit) commit\<rparr>
                         in (case col_Create (commits st3) (c_Repo parent, c_ID commit) commitInfo2 of
                               None \<Rightarrow> (Inl (ErrExists (c_ID commit)), st3)
                             | Some cs' \<Rightarrow> (Inr (), st3\<lparr>commits := cs'\<rparr>)))))))"

text \<open>\<open>makeCommit\<close>: \<open>newID\<close> is the id \<open>uuid.NewWithoutDashes()\<close> returns, \<open>started\<close>
  and \<open>finishedAt\<close> the two readings of the clock. The authorization check reads
  \<open>parent.Repo\<close> before \<open>parent\<close> is compared with nil.\<close>

definition makeCommit ::
  "('t, 'o) env \<Rightarrow> 't driver \<Rightarrow> Commit option \<Rightarrow> string \<Rightarrow> Commit list \<Rightarrow> string option \<Rightarrow>
   string \<Rightarrow> nat \<Rightarrow> nat \<Rightarrow> (error + Commit) \<times> 't driver" where
  "makeCommit env st parent branch provenance treeRef newID started finishedAt =
     (case parent of
        None \<Rightarrow> (Inl PanicNilDereference, st)
      | Some p \<Rightarrow>
          (case checkIsAuthorized env (c_Repo p) Scope_WRITER of
             Some e \<Rightarrow> (Inl e, st)
           | None \<Rightarrow>
               if parent = None then (Inl ErrParentNil, st)
               else
                 let commit = \<lparr>c_Repo = c_Repo p, c_ID = newID\<rparr> in
                 (case (case treeRef of
                          None \<Rightarrow> Inr None
                        | Some ref \<Rightarrow>
                            (case GetObject env ref of
                               None \<Rightarrow> Inl ErrObjectStore
                             | Some buf \<Rightarrow>
                                 (case ht_Deserialize (HT env) buf of
                                    Inl e \<Rightarrow> Inl e
                                  | Inr t \<Rightarrow> Inr (Some (ref, t))))) of
                    Inl e \<Rightarrow> (Inl e, st)
                  | Inr tree \<Rightarrow>
                      (case NewSTM st (makeCommit_txn env p branch provenance tree
                                         commit started finishedAt) of
                         (Inl e, st') \<Rightarrow> (Inl e, st')
                       | (Inr u, st') \<Rightarrow> (Inr commit, st')))))"

definition startCommit ::
  "('t, 'o) env \<Rightarrow> 't driver \<Rightarrow> Commit option \<Rightarrow> string \<Rightarrow> Commit list \<Rightarrow>
   string \<Rightarrow> nat \<Rightarrow> nat \<Rightarrow> (error + Commit) \<times> 't driver" where
  "startCommit env st parent branch provenance newID started finishedAt =
     makeCommit env st parent branch provenance None newID started finishedAt"

definition buildCommit ::
  "('t, 'o) env \<Rightarrow> 't driver \<Rightarrow> Commit option \<Rightarrow> string \<Rightarrow> Commit list \<Rightarrow> string option \<Rightarrow>
   string \<Rightarrow> nat \<Rightarrow> nat \<Rightarrow> (error + Commit) \<times> 't driver" where
  "buildCommit env st parent branch provenance tree newID started finishedAt =
     makeCommit env st parent branch provenance tree newID started finishedAt"

subsection \<open>Applying the writes of the scratch space\<close>

definition scratchPrefix :: "('t, 'o) env \<Rightarrow> string" where
  "scratchPrefix env = path_Join [etcdPrefix env, ''scratch'']"

text \<open>\<open>filePathFromEtcdPath\<close>; the slice expression \<open>split[3:]\<close> is out of range
  for fewer than three elements.\<close>

definition filePathFromEtcdPath :: "('t, 'o) env \<Rightarrow> string \<Rightarrow> error + string" where
  "filePathFromEtcdPath env etcdPath =
     (let trimmed = TrimPrefix etcdPath (scratchPrefix env);
          split = Split trimmed (CHR ''/'')
      in if length split < 3 then Inl PanicOutOfRange else Inr (path_Join (drop 3 split)))"

text \<open>The size delta of an overwriting record: the loop
  \<open>for i := Index; int(i) < len(Objects); i++\<close> over the objects of the file.\<close>

definition overwriteDelta ::
  "('t, 'o) hashtree \<Rightarrow> 'o \<Rightarrow> string \<Rightarrow> int \<Rightarrow> int \<Rightarrow> (string \<Rightarrow> int) \<Rightarrow> error + int" where
  "overwriteDelta ht tree filePath sizeBytes index sizeMap =
     (case ht_Get ht tree filePath of
        Inl e \<Rightarrow> Inr sizeBytes
      | Inr fileNode \<Rightarrow>
          (case n_FileNode fileNode of
             None \<Rightarrow> Inl PanicNilDereference
           | Some objects \<Rightarrow>
               if index < 0 then Inl PanicOutOfRange
               else Inr (foldl (\<lambda>delta h. wrap64 (delta - sizeMap h)) sizeBytes
                           (drop (nat index) objects))))"

text \<open>The loop over the records of a batch that is not split.\<close>

fun applyRecords ::
  "('t, 'o) hashtree \<Rightarrow> string \<Rightarrow> PutFileRecord list \<Rightarrow> (string \<Rightarrow> int) \<Rightarrow> 'o \<Rightarrow>
   error + (string \<Rightarrow> int) \<times> 'o" where
  "applyRecords ht filePath [] sizeMap tree = Inr (sizeMap, tree)"
| "applyRecords ht filePath (rec # rest) sizeMap tree =
     (let sizeMap' = sizeMap(r_ObjectHash rec := r_SizeBytes rec) in
      case r_OverwriteIndex rec of
        Some index \<Rightarrow>
          (case overwriteDelta ht tree filePath (r_SizeBytes rec) index sizeMap' of
             Inl e \<Rightarrow> Inl e
           | Inr delta \<Rightarrow>
               (case ht_PutFileOverwrite ht tree filePath [r_ObjectHash rec] index delta of
                  Inl e \<Rightarrow> Inl e
                | Inr tree' \<Rightarrow> applyRecords ht filePath rest sizeMap' tree'))
      | None \<Rightarrow>
          (case ht_PutFile ht tree filePath [r_ObjectHash rec] (r_SizeBytes rec) of
             Inl e \<Rightarrow> Inl e
           | Inr tree' \<Rightarrow> applyRecords ht filePath rest sizeMap' tree'))"

text \<open>The split case. \<open>splitOffset\<close> is \<open>indexOffset\<close>: one past the number parsed
  from the name of the last node \<open>List\<close> returns, 0 without nodes.
  \<open>putSplitRecords\<close> is the loop writing record \<open>i\<close> to the file named by
  \<open>i + indexOffset\<close>.\<close>

definition splitOffset :: "Node list \<Rightarrow> error + int" where
  "splitOffset nodes =
     (if length nodes > 0
      then (case ParseInt (path_Base (n_Name (last nodes))) 16 of
              None \<Rightarrow> Inl (ErrSplitParse (path_Base (n_Name (last nodes))))
            | Some parsed \<Rightarrow> Inr (wrap64 (parsed + 1)))
      else Inr 0)"

fun putSplitRecords ::
  "('t, 'o) hashtree \<Rightarrow> string \<Rightarrow> int \<Rightarrow> nat \<Rightarrow> PutFileRecord list \<Rightarrow> 'o \<Rightarrow> error + 'o" where
  "putSplitRecords ht filePath indexOffset i [] tree = Inr tree"
| "putSplitRecords ht filePath indexOffset i (rec # rest) tree =
     (case ht_PutFile ht tree
             (path_Join [filePath, Sprintf_016x (wrap64 (int i + indexOffset))])
             [r_ObjectHash rec] (r_SizeBytes rec) of
        Inl e \<Rightarrow> Inl e
      | Inr tree' \<Rightarrow> putSplitRecords ht filePath indexOffset (Suc i) rest tree')"

definition applySplit ::
  "('t, 'o) hashtree \<Rightarrow> string \<Rightarrow> PutFileRecord list \<Rightarrow> 'o \<Rightarrow> error + 'o" where
  "applySplit ht filePath records tree =
     (case (case ht_List ht tree filePath of
              Inl e \<Rightarrow> if e = ErrHashTree PathNotFound then Inr [] else Inl e
            | Inr nodes \<Rightarrow> Inr nodes) of
        Inl e \<Rightarrow> Inl e
      | Inr nodes \<Rightarrow>
          (case splitOffset nodes of
             Inl e \<Rightarrow> Inl e
           | Inr indexOffset \<Rightarrow> putSplitRecords ht filePath indexOffset 0 records tree))"

text \<open>The body of the loop of \<open>applyWrites\<close> for one key of the scratch space, and
  the loop. A \<open>DeleteFile\<close> that does not find the path leaves the tree as it is.\<close>

definition applyWrite ::
  "('t, 'o) env \<Rightarrow> (string \<Rightarrow> int) \<Rightarrow> 'o \<Rightarrow> string \<times> scratch_val \<Rightarrow>
   error + (string \<Rightarrow> int) \<times> 'o" where
  "applyWrite env sizeMap tree kv =
     (case filePathFromEtcdPath env (fst kv) of
        Inl e \<Rightarrow> Inl e
      | Inr fileStr \<Rightarrow>
          let parts = Split fileStr (CHR ''/'');
              filePath = Join (butlast parts) ''/''
          in (case snd kv of
                Tombstone \<Rightarrow>
                  (case ht_DeleteFile (HT env) tree filePath of
                     Inl e \<Rightarrow> if e = ErrHashTree PathNotFound then Inr (sizeMap, tree) else Inl e
                   | Inr tree' \<Rightarrow> Inr (sizeMap, tree'))
              | Records records \<Rightarrow>
                  if \<not> rs_Split records then
                    (if length (rs_Records records) = 0 then Inl ErrEmptyRecords
                     else applyRecords (HT env) filePath (rs_Records records) sizeMap tree)
                  else
                    (case applySplit (HT env) filePath (rs_Records records) tree of
                       Inl e \<Rightarrow> Inl e
                     | Inr tree' \<Rightarrow> Inr (sizeMap, tree'))))"

fun applyWrites_loop ::
  "('t, 'o) env \<Rightarrow> (string \<times> scratch_val) list \<Rightarrow> (string \<Rightarrow> int) \<Rightarrow> 'o \<Rightarrow> error + 'o" where
  "applyWrites_loop env [] sizeMap tree = Inr tree"
| "applyWrites_loop env (kv # rest) sizeMap tree =
     (case applyWrite env sizeMap tree kv of
        Inl e \<Rightarrow> Inl e
      | Inr (sizeMap', tree') \<Rightarrow> applyWrites_loop env rest sizeMap' tree')"

definition applyWrites ::
  "('t, 'o) env \<Rightarrow> (string \<times> scratch_val) list \<Rightarrow> 'o \<Rightarrow> error + 'o" where
  "applyWrites env resp tree = applyWrites_loop env resp (\<lambda>h. 0) tree"

subsection \<open>Finishing commits\<close>

definition scratchCommitPrefix ::
  "('t, 'o) env \<Rightarrow> 't driver \<Rightarrow> Commit \<Rightarrow> error + string \<times> Commit" where
  "scratchCommitPrefix env st commit =
     (case inspectCommit env st (Some commit) of
        Inl e \<Rightarrow> Inl e
      | Inr ci \<Rightarrow>
          Inr (path_Join [scratchPrefix env, c_Repo commit, c_ID (resolved commit ci)],
               resolved commit ci))"

definition finishCommit_txn ::
  "Commit \<Rightarrow> CommitInfo \<Rightarrow> nat \<Rightarrow> 't driver \<Rightarrow> (error + unit) \<times> 't driver" where
  "finishCommit_txn commit commitInfo sizeDelta st =
     (let st1 = st\<lparr>commits := col_Put (commits st) (c_Repo commit, c_ID commit) commitInfo\<rparr> in
      case col_Delete (openCommits st1) (c_ID commit) of
        None \<Rightarrow> (Inl (ErrNotConfirmedOpen (c_ID commit)), st1)
      | Some oc' \<Rightarrow>
          (case col_Get (repos st1) (c_Repo commit) of
             None \<Rightarrow> (Inl (ErrNotFound (c_Repo commit)), st1)
           | Some repoInfo \<Rightarrow>
               (Inr (), st1\<lparr>openCommits := oc',
                   repos := col_Put (repos st1) (c_Repo commit)
                     (repoInfo\<lparr>ri_SizeBytes :=
                        (ri_SizeBytes repoInfo + sizeDelta) mod 2 ^ 64\<rparr>)\<rparr>)))"

text \<open>The part of \<open>finishCommit\<close> between reading the scratch space and the
  transaction: the new tree, serialized and stored, and the \<open>CommitInfo\<close> to write.\<close>

definition finishCommit_tree ::
  "('t, 'o) env \<Rightarrow> (string \<times> scratch_val) list \<Rightarrow> 't \<Rightarrow> CommitInfo \<Rightarrow> nat \<Rightarrow>
   error + CommitInfo \<times> nat" where
  "finishCommit_tree env resp parentTree commitInfo now =
     (case applyWrites env resp (ht_Open (HT env) parentTree) of
        Inl e \<Rightarrow> Inl e
      | Inr tree \<Rightarrow>
          (case ht_Finish (HT env) tree of
             Inl e \<Rightarrow> Inl e
           | Inr finishedTree \<Rightarrow>
               (case ht_Serialize (HT env) finishedTree of
                  Inl e \<Rightarrow> Inl e
                | Inr data \<Rightarrow>
                    (case (if length data > 0
                           then (case PutObject env data of
                                   None \<Rightarrow> Inl ErrObjectStore
                                 | Some obj \<Rightarrow> Inr (commitInfo\<lparr>ci_Tree := Some (fst obj)\<rparr>))
                           else Inr commitInfo) of
                       Inl e \<Rightarrow> Inl e
                     | Inr commitInfo' \<Rightarrow>
                         Inr (commitInfo'\<lparr>ci_SizeBytes := to_uint64 (ht_FSSize (HT env) finishedTree),
                                          ci_Finished := Some now\<rparr>,
                              sizeChange (HT env) finishedTree (Some parentTree))))))"

definition finishCommit ::
  "('t, 'o) env \<Rightarrow> 't driver \<Rightarrow> Commit \<Rightarrow> nat \<Rightarrow> (error + unit) \<times> 't driver" where
  "finishCommit env st commit now =
     (case checkIsAuthorized env (c_Repo commit) Scope_WRITER of
        Some e \<Rightarrow> (Inl e, st)
      | None \<Rightarrow>
     (case inspectCommit env st (Some commit) of
        Inl e \<Rightarrow> (Inl e, st)
      | Inr commitInfo \<Rightarrow>
          if ci_Finished commitInfo \<noteq> None
          then (Inl (ErrAlreadyFinished (resolved commit commitInfo)), st)
          else
            (case scratchCommitPrefix env st (resolved commit commitInfo) of
               Inl e \<Rightarrow> (Inl e, st)
             | Inr (pfx, commit') \<Rightarrow>
                 let resp = etcd_GetPrefix (scratch st) pfx in
                 (case getTreeForCommit env st (ci_ParentCommit commitInfo) of
                    (Inl e, st1) \<Rightarrow> (Inl e, st1)
                  | (Inr (parentTree, parent'), st1) \<Rightarrow>
                      (case finishCommit_tree env resp parentTree
                              (commitInfo\<lparr>ci_ParentCommit := parent'\<rparr>) now of
                         Inl e \<Rightarrow> (Inl e, st1)
                       | Inr (commitInfo', sizeDelta) \<Rightarrow>
                           (case NewSTM st1 (finishCommit_txn commit' commitInfo' sizeDelta) of
                              (Inl e, st2) \<Rightarrow> (Inl e, st2)
                            | (Inr u, st2) \<Rightarrow>
                                (Inr (), st2\<lparr>scratch := etcd_DeletePrefix (scratch st2) pfx\<rparr>)))))))"

subsection \<open>Listing commits\<close>

text \<open>The loop of \<open>listCommit\<close> that walks from \<open>to\<close>, by the value of
  \<open>number\<close>: it stops when \<open>number\<close> is 0, when the cursor is nil, or when the
  cursor is \<open>from\<close>.\<close>

fun listCommit_loop ::
  "(string \<times> string, CommitInfo) collection \<Rightarrow> string \<Rightarrow> Commit option \<Rightarrow> nat \<Rightarrow>
   Commit option \<Rightarrow> error + CommitInfo list" where
  "listCommit_loop cs repo from 0 cursor = Inr []"
| "listCommit_loop cs repo from (Suc number) cursor =
     (case cursor of
        None \<Rightarrow> Inr []
      | Some c \<Rightarrow>
          if (case from of None \<Rightarrow> False | Some f \<Rightarrow> c_ID c = c_ID f) then Inr []
          else
            (case col_Get cs (repo, c_ID c) of
               None \<Rightarrow> Inl (ErrNotFound (c_ID c))
             | Some commitInfo \<Rightarrow>
                 (case listCommit_loop cs repo from number (ci_ParentCommit commitInfo) of
                    Inl e \<Rightarrow> Inl e
                  | Inr commitInfos \<Rightarrow> Inr (commitInfo # commitInfos))))"

text \<open>\<open>inspectCommit\<close> on an optional commit, as \<open>listCommit\<close> calls it for \<open>from\<close>
  and \<open>to\<close>: the commit with its id replaced.\<close>

definition inspectOptional ::
  "('t, 'o) env \<Rightarrow> 't driver \<Rightarrow> Commit option \<Rightarrow> error + Commit option" where
  "inspectOptional env st commit =
     (case commit of
        None \<Rightarrow> Inr None
      | Some c \<Rightarrow>
          (case inspectCommit env st (Some c) of
             Inl e \<Rightarrow> Inl e
           | Inr ci \<Rightarrow> Inr (Some (resolved c ci))))"

definition listCommit ::
  "('t, 'o) env \<Rightarrow> 't driver \<Rightarrow> string \<Rightarrow> Commit option \<Rightarrow> Commit option \<Rightarrow> nat \<Rightarrow>
   error + CommitInfo list" where
  "listCommit env st repo to from number =
     (case checkIsAuthorized env repo Scope_READER of
        Some e \<Rightarrow> Inl e
      | None \<Rightarrow>
          if (case from of None \<Rightarrow> False | Some f \<Rightarrow> c_Repo f \<noteq> repo)
             \<or> (case to of None \<Rightarrow> False | Some t \<Rightarrow> c_Repo t \<noteq> repo)
          then Inl (ErrRepoMismatch repo)
          else
            (case inspectRepo env st repo False of
               Inl e \<Rightarrow> Inl e
             | Inr repoInfo \<Rightarrow>
                 (case inspectOptional env st from of
                    Inl e \<Rightarrow> Inl e
                  | Inr from' \<Rightarrow>
                      (case inspectOptional env st to of
                         Inl e \<Rightarrow> Inl e
                       | Inr to' \<Rightarrow>
                           let number' = (if number = 0 then 2 ^ 64 - 1 else number) in
                           if from' \<noteq> None \<and> to' = None then Inl ErrFromWithoutTo
                           else if from' = None \<and> to' = None
                             then Inr (map snd (take number' (col_List (commits st) repo)))
                           else listCommit_loop (commits st) repo from' number' to'))))"

subsection \<open>Branches and deleting commits\<close>

definition listBranch :: "('t, 'o) env \<Rightarrow> 't driver \<Rightarrow> string \<Rightarrow> error + BranchInfo list" where
  "listBranch env st repo =
     (case checkIsAuthorized env repo Scope_READER of
        Some e \<Rightarrow> Inl e
      | None \<Rightarrow>
          Inr (map (\<lambda>(branchName, head). \<lparr>bi_Name = path_Base branchName, bi_Head = head\<rparr>)
                 (col_List (branches st) repo)))"

text \<open>\<open>setBranch\<close> returns the commit it was given, with the id \<open>inspectCommit\<close> put
  there.\<close>

definition setBranch ::
  "('t, 'o) env \<Rightarrow> 't driver \<Rightarrow> Commit \<Rightarrow> string \<Rightarrow> (error + Commit) \<times> 't driver" where
  "setBranch env st commit name =
     (case checkIsAuthorized env (c_Repo commit) Scope_WRITER of
        Some e \<Rightarrow> (Inl e, st)
      | None \<Rightarrow>
          (case inspectCommit env st (Some commit) of
             Inl e \<Rightarrow> (Inl e, st)
           | Inr ci \<Rightarrow>
               NewSTM st (\<lambda>s.
                 case col_Get (commits s) (c_Repo commit, c_ID (resolved commit ci)) of
                   None \<Rightarrow> (Inl (ErrNotFound (c_ID (resolved commit ci))), s)
                 | Some commitInfo \<Rightarrow>
                     (Inr (resolved commit ci),
                      s\<lparr>branches := col_Put (branches s) (c_Repo commit, name)
                                       (resolved commit ci)\<rparr>))))"

definition deleteBranch ::
  "('t, 'o) env \<Rightarrow> 't driver \<Rightarrow> string \<Rightarrow> string \<Rightarrow> (error + unit) \<times> 't driver" where
  "deleteBranch env st repo name =
     (case checkIsAuthorized env repo Scope_WRITER of
        Some e \<Rightarrow> (Inl e, st)
      | None \<Rightarrow>
          NewSTM st (\<lambda>s.
            case col_Delete (branches s) (repo, name) of
              None \<Rightarrow> (Inl (ErrNotFound name), s)
            | Some bs' \<Rightarrow> (Inr (), s\<lparr>branches := bs'\<rparr>)))"

text \<open>The loop of \<open>deleteCommit\<close> over the branches: a branch whose head is the
  commit moves to the parent of the commit, or is deleted when there is no parent.\<close>

fun deleteCommit_branches ::
  "('t, 'o) env \<Rightarrow> Commit \<Rightarrow> string \<Rightarrow> Commit option \<Rightarrow> BranchInfo list \<Rightarrow> 't driver \<Rightarrow>
   (error + unit) \<times> 't driver" where
  "deleteCommit_branches env commit commitID parentCommit [] st = (Inr (), st)"
| "deleteCommit_branches env commit commitID parentCommit (branch # rest) st =
     (if c_ID (bi_Head branch) = commitID then
        (case parentCommit of
           Some parent \<Rightarrow>
             (case setBranch env st parent (bi_Name branch) of
                (Inl e, st') \<Rightarrow> (Inl e, st')
              | (Inr parent', st') \<Rightarrow>
                  deleteCommit_branches env commit commitID (Some parent') rest st')
         | None \<Rightarrow>
             (case deleteBranch env st (c_Repo commit) (bi_Name branch) of
                (Inl e, st') \<Rightarrow> (Inl e, st')
              | (Inr u, st') \<Rightarrow>
                  deleteCommit_branches env commit commitID parentCommit rest st'))
      else deleteCommit_branches env commit commitID parentCommit rest st)"

definition deleteCommit_txn ::
  "Commit \<Rightarrow> CommitInfo \<Rightarrow> 't driver \<Rightarrow> (error + unit) \<times> 't driver" where
  "deleteCommit_txn commit commitInfo st =
     (case col_Get (repos st) (c_Repo commit) of
        None \<Rightarrow> (Inl (ErrNotFound (c_Repo commit)), st)
      | Some repoInfo \<Rightarrow>
          let st1 = st\<lparr>repos := col_Put (repos st) (c_Repo commit)
                      (repoInfo\<lparr>ri_SizeBytes :=
                         (ri_SizeBytes repoInfo + 2 ^ 64 - ci_SizeBytes commitInfo mod 2 ^ 64)
                           mod 2 ^ 64\<rparr>)\<rparr>
          in (case col_Delete (commits st1) (c_Repo commit, c_ID commit) of
                None \<Rightarrow> (Inl (ErrNotFound (c_ID commit)), st1)
              | Some cs' \<Rightarrow> (Inr (), st1\<lparr>commits := cs'\<rparr>)))"

definition deleteCommit ::
  "('t, 'o) env \<Rightarrow> 't driver \<Rightarrow> Commit \<Rightarrow> (error + unit) \<times> 't driver" where
  "deleteCommit env st commit =
     (case checkIsAuthorized env (c_Repo commit) Scope_WRITER of
        Some e \<Rightarrow> (Inl e, st)
      | None \<Rightarrow>
     (case inspectCommit env st (Some commit) of
        Inl e \<Rightarrow> (Inl e, st)
      | Inr commitInfo \<Rightarrow>
          if ci_Finished commitInfo \<noteq> None then (Inl ErrDeleteFinished, st)
          else
            (case scratchCommitPrefix env st (resolved commit commitInfo) of
               Inl e \<Rightarrow> (Inl e, st)
             | Inr (pfx, commit') \<Rightarrow>
                 let st1 = st\<lparr>scratch := etcd_DeletePrefix (scratch st) pfx\<rparr> in
                 (case listBranch env st1 (c_Repo commit') of
                    Inl e \<Rightarrow> (Inl e, st1)
                  | Inr bs \<Rightarrow>
                      (case deleteCommit_branches env commit' (c_ID (ci_Commit commitInfo))
                              (ci_ParentCommit commitInfo) bs st1 of
                         (Inl e, st2) \<Rightarrow> (Inl e, st2)
                       | (Inr u, st2) \<Rightarrow> NewSTM st2 (deleteCommit_txn commit' commitInfo))))))"

subsection \<open>Writing files\<close>

record File =
  f_Commit :: Commit
  f_Path :: string

definition scratchFilePrefix :: "('t, 'o) env \<Rightarrow> File \<Rightarrow> string" where
  "scratchFilePrefix env file =
     path_Join [scratchPrefix env, c_Repo (f_Commit file), c_ID (f_Commit file), f_Path file]"

definition checkPath :: "string \<Rightarrow> error option" where
  "checkPath path = (if CHR 0x00 \<in> set path then Some (ErrNullInPath path) else None)"

text \<open>\<open>deleteFile\<close> writes a tombstone under a fresh key (\<open>newID\<close>); it returns the
  file it was given, with the commit id \<open>inspectCommit\<close> put there.\<close>

definition deleteFile ::
  "('t, 'o) env \<Rightarrow> 't driver \<Rightarrow> File \<Rightarrow> string \<Rightarrow> (error + File) \<times> 't driver" where
  "deleteFile env st file newID =
     (case checkIsAuthorized env (c_Repo (f_Commit file)) Scope_WRITER of
        Some e \<Rightarrow> (Inl e, st)
      | None \<Rightarrow>
          (case inspectCommit env st (Some (f_Commit file)) of
             Inl e \<Rightarrow> (Inl e, st)
           | Inr commitInfo \<Rightarrow>
               let file' = file\<lparr>f_Commit := resolved (f_Commit file) commitInfo\<rparr> in
               if ci_Finished commitInfo \<noteq> None then (Inl (ErrCommitFinished (f_Commit file')), st)
               else
                 (Inr file',
                  st\<lparr>scratch := etcd_Put (scratch st)
                        (path_Join [scratchFilePrefix env file', newID]) Tombstone\<rparr>)))"

text \<open>The loop of \<open>putFile\<close> over the objects \<open>PutObjectSplit\<close> returned: \<open>sizeLeft\<close> is
  the variable \<open>size\<close>, what is left of the total size.\<close>

fun putFile_records ::
  "int \<Rightarrow> int option \<Rightarrow> nat \<Rightarrow> int \<Rightarrow> string list \<Rightarrow> PutFileRecord list" where
  "putFile_records chunkSize overwriteIndex i sizeLeft [] = []"
| "putFile_records chunkSize overwriteIndex i sizeLeft (object # rest) =
     \<lparr>r_SizeBytes = (if sizeLeft > chunkSize then chunkSize else sizeLeft),
      r_ObjectHash = object,
      r_OverwriteIndex = (if i = 0 \<and> overwriteIndex \<noteq> None \<and> overwriteIndex \<noteq> Some 0
                          then overwriteIndex else None)\<rparr>
     # putFile_records chunkSize overwriteIndex (Suc i) (wrap64 (sizeLeft - chunkSize)) rest"

text \<open>\<open>putRecords\<close>: the etcd transaction that writes the records under a fresh key
  if the key of the commit in \<open>openCommits\<close> exists.\<close>

definition putRecords ::
  "('t, 'o) env \<Rightarrow> 't driver \<Rightarrow> File \<Rightarrow> PutFileRecords \<Rightarrow> string \<Rightarrow> (error + unit) \<times> 't driver" where
  "putRecords env st file records newID =
     (if col_Get (openCommits st) (c_ID (f_Commit file)) \<noteq> None
      then (Inr (), st\<lparr>scratch := etcd_Put (scratch st)
                          (path_Join [scratchFilePrefix env file, newID]) (Records records)\<rparr>)
      else (Inl (ErrCommitNotOpen (c_ID (f_Commit file))), st))"

definition UUIDWithoutDashesLength :: nat where
  "UUIDWithoutDashesLength = 32"

text \<open>\<open>putFile\<close>. \<open>tombID\<close> and \<open>newID\<close> are the fresh keys drawn by \<open>deleteFile\<close> and
  by \<open>putRecords\<close>. For a delimiter other than NONE, the loop that cuts the input
  and stores the pieces is the parameter \<open>SplitObjects\<close> of the environment.\<close>

definition putFile ::
  "('t, 'o) env \<Rightarrow> 't driver \<Rightarrow> File \<Rightarrow> Delimiter \<Rightarrow> int \<Rightarrow> int \<Rightarrow> int option \<Rightarrow> string \<Rightarrow>
   string \<Rightarrow> string \<Rightarrow> (error + unit) \<times> 't driver" where
  "putFile env st file delimiter targetFileDatums targetFileBytes overwriteIndex reader
           tombID newID =
     (case checkIsAuthorized env (c_Repo (f_Commit file)) Scope_WRITER of
        Some e \<Rightarrow> (Inl e, st)
      | None \<Rightarrow>
     (case (if length (c_ID (f_Commit file)) \<noteq> UUIDWithoutDashesLength
               \<or> c_ID (f_Commit file) ! 12 \<noteq> CHR ''4''
            then (case inspectCommit env st (Some (f_Commit file)) of
                    Inl e \<Rightarrow> Inl e
                  | Inr commitInfo \<Rightarrow> Inr (file\<lparr>f_Commit := ci_Commit commitInfo\<rparr>))
            else Inr file) of
        Inl e \<Rightarrow> (Inl e, st)
      | Inr file1 \<Rightarrow>
     (case (if overwriteIndex = Some 0 then deleteFile env st file1 tombID
            else (Inr file1, st)) of
        (Inl e, st1) \<Rightarrow> (Inl e, st1)
      | (Inr file2, st1) \<Rightarrow>
     (case checkPath (f_Path file2) of
        Some e \<Rightarrow> (Inl e, st1)
      | None \<Rightarrow>
          if delimiter = Delimiter_NONE then
            (case PutObjectSplit env reader of
               None \<Rightarrow> (Inl ErrObjectStore, st1)
             | Some (objects, totalSize) \<Rightarrow>
                 putRecords env st1 file2
                   \<lparr>rs_Split = False,
                    rs_Records = putFile_records (ChunkSize env) overwriteIndex 0 totalSize objects\<rparr>
                   newID)
          else
            (case SplitObjects env delimiter targetFileDatums targetFileBytes reader of
               Inl e \<Rightarrow> (Inl e, st1)
             | Inr recs \<Rightarrow>
                 putRecords env st1 file2 \<lparr>rs_Split = True, rs_Records = recs\<rparr> newID)))))"

subsection \<open>A small instance of the environment\<close>

text \<open>A hashtree of files only (path, objects, size) and services that always
  answer, for running the driver on concrete inputs. Authorization is not activated;
  the object store cuts every input into the three objects \<open>o1\<close>, \<open>o2\<close>, \<open>o3\<close> of
  10 bytes in all, with a chunk size of 4.\<close>

type_synonym demo_tree = "(string \<times> string list \<times> int) list"

definition demoNode :: "string \<times> string list \<times> int \<Rightarrow> Node" where
  "demoNode e = \<lparr>n_Name = path_Base (fst e), n_SubtreeSize = snd (snd e),
                 n_FileNode = Some (fst (snd e)), n_DirNode = None\<rparr>"

definition demoHT :: "(demo_tree, demo_tree) hashtree" where
  "demoHT =
     \<lparr>ht_NewFinished = Inr [],
      ht_Open = (\<lambda>t. t),
      ht_Finish = (\<lambda>t. Inr t),
      ht_Serialize = (\<lambda>t. Inr (concat (map fst t))),
      ht_Deserialize = (\<lambda>buf. Inr []),
      ht_FSSize = (\<lambda>t. sum_list (map (\<lambda>e. snd (snd e)) t)),
      ht_Diff = (\<lambda>t p. map (\<lambda>e. (fst e, demoNode e, True)) (filter (\<lambda>e. e \<notin> set p) t)),
      ht_Get = (\<lambda>t p. case map_of t p of
                         None \<Rightarrow> Inl (ErrHashTree PathNotFound)
                       | Some f \<Rightarrow> Inr (demoNode (p, f))),
      ht_List = (\<lambda>t p. case filter (\<lambda>e. prefix (p @ ''/'') (fst e)) t of
                          [] \<Rightarrow> Inl (ErrHashTree PathNotFound)
                        | es \<Rightarrow> Inr (map demoNode es)),
      ht_PutFile = (\<lambda>t p objs sz. Inr (case map_of t p of
                         None \<Rightarrow> t @ [(p, objs, sz)]
                       | Some f \<Rightarrow> AList.update p (fst f @ objs, snd f + sz) t)),
      ht_PutFileOverwrite = (\<lambda>t p objs idx delta. Inr (case map_of t p of
                         None \<Rightarrow> t @ [(p, objs, delta)]
                       | Some f \<Rightarrow> AList.update p (take (nat idx) (fst f) @ objs, snd f + delta) t)),
      ht_DeleteFile = (\<lambda>t p. case map_of t p of
                         None \<Rightarrow> Inl (ErrHashTree PathNotFound)
                       | Some f \<Rightarrow> Inr (filter (\<lambda>e. fst e \<noteq> p) t))\<rparr>"

definition demoEnv :: "(demo_tree, demo_tree) env" where
  "demoEnv =
     \<lparr>etcdPrefix = ''pfs'',
      ChunkSize = 4,
      treeCacheSize = 128,
      Authorize = (\<lambda>r s. AuthNotActivated),
      WhoAmI = WhoAmINotActivated,
      SetACL = (\<lambda>r. ACL_NotActivated),
      GetScope = (\<lambda>r. ScopeNotActivated),
      PutObject = (\<lambda>data. Some (''tree-object'', int (length data))),
      PutObjectSplit = (\<lambda>reader. Some ([''o1'', ''o2'', ''o3''], 10)),
      GetObject = (\<lambda>h. Some []),
      SplitObjects = (\<lambda>delimiter datums bytes reader. Inr []),
      HT = demoHT\<rparr>"

definition emptyDriver :: "demo_tree driver" where
  "emptyDriver = \<lparr>repos = [], repoRefCounts = [], commits = [], branches = [],
                   openCommits = [], scratch = [], treeCache = []\<rparr>"

definition uuidA :: string where
  "uuidA = ''0123456789ab4def0123456789abcdef''"

definition uuidB :: string where
  "uuidB = ''fedcba987654432100112233445566ff''"

text \<open>States of the instance: a repo \<open>r\<close>, and the same with the open commit
  \<open>uuidA\<close> at the head of \<open>master\<close>.\<close>

definition demoRepo :: "demo_tree driver" where
  "demoRepo =
     \<lparr>repos = [(''r'', \<lparr>ri_Repo = ''r'', ri_Created = 0, ri_SizeBytes = 0,
                         ri_Provenance = [], ri_Description = ''d'', ri_AuthInfo = None\<rparr>)],
      repoRefCounts = [(''r'', 0)], commits = [], branches = [],
      openCommits = [], scratch = [], treeCache = []\<rparr>"

definition demoOpen :: "demo_tree driver" where
  "demoOpen = demoRepo\<lparr>
     commits := [((''r'', uuidA),
                  \<lparr>ci_Commit = \<lparr>c_Repo = ''r'', c_ID = uuidA\<rparr>,
                   ci_ParentCommit = None, ci_Started = 1, ci_Finished = None,
                   ci_SizeBytes = 0, ci_Provenance = [], ci_Tree = None\<rparr>)],
     branches := [((''r'', ''master''), \<lparr>c_Repo = ''r'', c_ID = uuidA\<rparr>)],
     openCommits := [(uuidA, \<lparr>c_Repo = ''r'', c_ID = uuidA\<rparr>)]\<rparr>"

definition demoFile :: "string \<Rightarrow> File" where
  "demoFile path = \<lparr>f_Commit = \<lparr>c_Repo = ''r'', c_ID = uuidA\<rparr>, f_Path = path\<rparr>"

definition demoRecords :: PutFileRecords where
  "demoRecords =
     \<lparr>rs_Split = False,
      rs_Records = [\<lparr>r_SizeBytes = 4, r_ObjectHash = ''o1'', r_OverwriteIndex = None\<rparr>,
                    \<lparr>r_SizeBytes = 4, r_ObjectHash = ''o2'', r_OverwriteIndex = None\<rparr>,
                    \<lparr>r_SizeBytes = 2, r_ObjectHash = ''o3'', r_OverwriteIndex = None\<rparr>]\<rparr>"

text \<open>States of the instance with the repos \<open>t\<close>, \<open>s\<close> (provenance \<open>t\<close>) and
  \<open>r\<close>, before and after the provenance of \<open>r\<close> is updated to \<open>s\<close>.\<close>

definition demoRepoInfo :: "string \<Rightarrow> string list \<Rightarrow> string \<times> RepoInfo" where
  "demoRepoInfo name prov =
     (name, \<lparr>ri_Repo = name, ri_Created = 0, ri_SizeBytes = 0,
             ri_Provenance = prov, ri_Description = [], ri_AuthInfo = None\<rparr>)"

definition provT :: "demo_tree driver" where
  "provT = emptyDriver\<lparr>repos := [demoRepoInfo ''t'' []], repoRefCounts := [(''t'', 0)]\<rparr>"

definition provS :: "demo_tree driver" where
  "provS = emptyDriver\<lparr>repos := [demoRepoInfo ''s'' [''t''], demoRepoInfo ''t'' []],
                        repoRefCounts := [(''s'', 0), (''t'', 1)]\<rparr>"

definition provR :: "demo_tree driver" where
  "provR = emptyDriver\<lparr>repos := [demoRepoInfo ''r'' [], demoRepoInfo ''s'' [''t''],
                                   demoRepoInfo ''t'' []],
                        repoRefCounts := [(''r'', 0), (''s'', 0), (''t'', 1)]\<rparr>"

definition provU :: "demo_tree driver" where
  "provU = emptyDriver\<lparr>repos := [demoRepoInfo ''r'' [''s''], demoRepoInfo ''s'' [''t''],
                                   demoRepoInfo ''t'' []],
                        repoRefCounts := [(''s'', 1), (''r'', 0), (''t'', 1)]\<rparr>"

text \<open>The state \<open>demoOpen\<close> after its open commit was deleted.\<close>

definition demoDeleted :: "demo_tree driver" where
  "demoDeleted = demoRepo\<lparr>openCommits := [(uuidA, \<lparr>c_Repo = ''r'', c_ID = uuidA\<rparr>)]\<rparr>"

subsection \<open>The ancestry of a commit, as the specification words it\<close>

text \<open>The commit record reached from the id \<open>i\<close> by following \<open>ParentCommit\<close>
  links \<open>n\<close> times; \<open>None\<close> when a record is absent or a link to follow is nil.\<close>

fun nthParent ::
  "(string \<times> string, CommitInfo) collection \<Rightarrow> string \<Rightarrow> nat \<Rightarrow> string \<Rightarrow> CommitInfo option" where
  "nthParent cs repo 0 i = col_Get cs (repo, i)"
| "nthParent cs repo (Suc n) i =
     (case col_Get cs (repo, i) of
        None \<Rightarrow> None
      | Some ci \<Rightarrow>
          (case ci_ParentCommit ci of
             None \<Rightarrow> None
           | Some p \<Rightarrow> nthParent cs repo n (c_ID p)))"

text \<open>A token that names a branch stands for the id of the head of the branch.\<close>

definition branchHeadOr :: "'t driver \<Rightarrow> string \<Rightarrow> string \<Rightarrow> string" where
  "branchHeadOr st repo token =
     (case col_Get (branches st) (repo, token) of
        None \<Rightarrow> token
      | Some head \<Rightarrow> c_ID head)"

text \<open>A state of the instance with two finished commits, \<open>uuidB\<close> on top of \<open>uuidA\<close>,
  and \<open>master\<close> at \<open>uuidB\<close>.\<close>

definition demoInfoA :: CommitInfo where
  "demoInfoA = \<lparr>ci_Commit = \<lparr>c_Repo = ''r'', c_ID = uuidA\<rparr>, ci_ParentCommit = None,
                 ci_Started = 1, ci_Finished = Some 2, ci_SizeBytes = 0,
                 ci_Provenance = [], ci_Tree = None\<rparr>"

definition demoInfoB :: CommitInfo where
  "demoInfoB = \<lparr>ci_Commit = \<lparr>c_Repo = ''r'', c_ID = uuidB\<rparr>,
                 ci_ParentCommit = Some \<lparr>c_Repo = ''r'', c_ID = uuidA\<rparr>,
                 ci_Started = 3, ci_Finished = Some 4, ci_SizeBytes = 0,
                 ci_Provenance = [], ci_Tree = None\<rparr>"

definition demoChain :: "demo_tree driver" where
  "demoChain = demoRepo\<lparr>
     commits := [((''r'', uuidB), demoInfoB), ((''r'', uuidA), demoInfoA)],
     branches := [((''r'', ''master''), \<lparr>c_Repo = ''r'', c_ID = uuidB\<rparr>)]\<rparr>"

subsection \<open>Split files, as the specification words them\<close>

text \<open>Writing, in order, each record to the file at the path paired with it.\<close>

fun putFiles ::
  "('t, 'o) hashtree \<Rightarrow> (string \<times> PutFileRecord) list \<Rightarrow> 'o \<Rightarrow> error + 'o" where
  "putFiles ht [] tree = Inr tree"
| "putFiles ht (named # rest) tree =
     (case ht_PutFile ht tree (fst named) [r_ObjectHash (snd named)] (r_SizeBytes (snd named)) of
        Inl e \<Rightarrow> Inl e
      | Inr tree' \<Rightarrow> putFiles ht rest tree')"

text \<open>Record \<open>i\<close> of a batch paired with the child of \<open>filePath\<close> named by the
  \<open>%016x\<close> rendering of \<open>i + indexOffset\<close> (an \<open>int\<close> sum).\<close>

definition splitNames :: "string \<Rightarrow> int \<Rightarrow> PutFileRecord list \<Rightarrow> (string \<times> PutFileRecord) list" where
  "splitNames filePath indexOffset records =
     map (\<lambda>(i, rec). (path_Join [filePath, Sprintf_016x (wrap64 (int i + indexOffset))], rec))
       (enumerate 0 records)"

text \<open>A tree of the instance with two split children of \<open>x\<close>, and a batch of two
  records.\<close>

definition demoSplitTree :: demo_tree where
  "demoSplitTree = [(''x/0000000000000000'', [''a''], 1), (''x/0000000000000001'', [''b''], 1)]"

definition demoBatch :: "PutFileRecord list" where
  "demoBatch = [\<lparr>r_SizeBytes = 2, r_ObjectHash = ''c'', r_OverwriteIndex = None\<rparr>,
                \<lparr>r_SizeBytes = 3, r_ObjectHash = ''d'', r_OverwriteIndex = None\<rparr>]"

text \<open>The state \<open>demoOpen\<close> after a \<open>putFile\<close> on \<open>/x\<close>, and after the commit was
  finished at time 5.\<close>

definition demoPut :: "demo_tree driver" where
  "demoPut = demoOpen\<lparr>scratch :=
     [(''pfs/scratch/r/0123456789ab4def0123456789abcdef/x/u1'', Records demoRecords)]\<rparr>"

definition demoFinishedInfo :: CommitInfo where
  "demoFinishedInfo =
     \<lparr>ci_Commit = \<lparr>c_Repo = ''r'', c_ID = uuidA\<rparr>, ci_ParentCommit = None, ci_Started = 1,
      ci_Finished = Some 5, ci_SizeBytes = 10, ci_Provenance = [],
      ci_Tree = Some ''tree-object''\<rparr>"

definition demoFinished :: "demo_tree driver" where
  "demoFinished =
     \<lparr>repos = [(''r'', \<lparr>ri_Repo = ''r'', ri_Created = 0, ri_SizeBytes = 10,
                         ri_Provenance = [], ri_Description = ''d'', ri_AuthInfo = None\<rparr>)],
      repoRefCounts = [(''r'', 0)],
      commits = [((''r'', uuidA), demoFinishedInfo)],
      branches = [((''r'', ''master''), \<lparr>c_Repo = ''r'', c_ID = uuidA\<rparr>)],
      openCommits = [], scratch = [], treeCache = []\<rparr>"

subsection \<open>The parent of a new commit\<close>

text \<open>The value of \<open>parent\<close> after the block \<open>if branch != ""\<close> of \<open>makeCommit\<close>: an empty
  \<open>parent.ID\<close> is replaced by the id of the head of \<open>branch\<close>, when there is one.\<close>

definition parentOrHead :: "'t driver \<Rightarrow> Commit \<Rightarrow> string \<Rightarrow> Commit" where
  "parentOrHead st parent branch =
     (if branch \<noteq> [] \<and> c_ID parent = []
      then (case col_Get (branches st) (c_Repo parent, branch) of
              None \<Rightarrow> parent
            | Some head \<Rightarrow> parent\<lparr>c_ID := c_ID head\<rparr>)
      else parent)"

section \<open>Properties\<close>

subsection \<open>Evaluation of the instance\<close>

lemmas col_defs = col_Get_def col_Put_def col_Create_def col_Delete_def col_IncrementBy_def
  col_DecrementBy_def col_DeleteAll_def col_List_def

lemmas path_defs = path_Join_def path_Clean_def path_Base_def scratchPrefix_def
  scratchFilePrefix_def

lemma demo_createRepo:
  "createRepo demoEnv emptyDriver ''r'' [] ''d'' False 0 = (Inr (), demoRepo)"
  by (simp add: createRepo_def ValidateRepoName_def repoNameChar_def NewSTM_def
      createRepo_txn_def createRepo_acl_def demoEnv_def emptyDriver_def col_defs demoRepo_def)

lemma demo_startCommit:
  "startCommit demoEnv demoRepo (Some \<lparr>c_Repo = ''r'', c_ID = []\<rparr>) ''master'' [] uuidA 1 2
     = (Inr \<lparr>c_Repo = ''r'', c_ID = uuidA\<rparr>, demoOpen)"
  by (simp add: startCommit_def makeCommit_def makeCommit_txn_def checkIsAuthorized_def
      NewSTM_def demoEnv_def demoRepo_def demoOpen_def col_defs getTreeForCommit_def
      emptyTree_def demoHT_def Let_def)

lemma demo_putFile:
  "putFile demoEnv demoOpen (demoFile ''/x'') Delimiter_NONE 0 0 None ''data'' ''t1'' ''u1'' =
     (Inr (), demoOpen\<lparr>scratch :=
        [(''pfs/scratch/r/0123456789ab4def0123456789abcdef/x/u1'', Records demoRecords)]\<rparr>)"
  by (simp add: putFile_def checkIsAuthorized_def demoEnv_def demoOpen_def demoRepo_def
      uuidA_def demoFile_def demoRecords_def UUIDWithoutDashesLength_def checkPath_def
      putRecords_def col_defs etcd_Put_def path_defs wrap64_def)

subsection \<open>Sizes of the records of an unsplit upload\<close>

lemma wrap64_id: "- (2 ^ 63) \<le> x \<Longrightarrow> x < 2 ^ 63 \<Longrightarrow> wrap64 x = x"
  by (simp add: wrap64_def)

lemma putFile_records_length: "length (putFile_records cs ow i s objects) = length objects"
  by (induction objects arbitrary: i s) simp_all

lemma putFile_records_sizes:
  fixes sizes :: "int list"
  assumes "length sizes = length objects"
    and "\<forall>j. Suc j < length sizes \<longrightarrow> sizes ! j = cs"
    and "\<forall>x \<in> set sizes. 0 \<le> x \<and> x \<le> cs"
    and "0 < cs" and "cs < 2 ^ 63"
    and "s = sum_list sizes" and "s < 2 ^ 63"
  shows "map r_SizeBytes (putFile_records cs ow i s objects) = sizes"
  using assms
proof (induction objects arbitrary: sizes i s)
  case Nil
  then show ?case by simp
next
  case (Cons object rest)
  then obtain x xs where sz: "sizes = x # xs" by (cases sizes) auto
  have nonneg: "0 \<le> sum_list xs"
    using Cons.prems(3) sz by (simp add: sum_list_nonneg)
  have x_le: "x \<le> cs" and x_ge: "0 \<le> x" using Cons.prems(3) sz by auto
  have s_eq: "s = x + sum_list xs" using Cons.prems(6) sz by simp
  have head: "(if s > cs then cs else s) = x"
  proof (cases "xs = []")
    case True
    then show ?thesis using s_eq x_le by simp
  next
    case False
    then have "x = cs" using Cons.prems(2) sz by (cases xs) force+
    then show ?thesis using s_eq nonneg by simp
  qed
  have tail_xs: "xs \<noteq> [] \<Longrightarrow> s - cs = sum_list xs"
  proof -
    assume "xs \<noteq> []"
    then have "x = cs" using Cons.prems(2) sz by (cases xs) force+
    then show ?thesis using s_eq by simp
  qed
  have rest_eq: "map r_SizeBytes (putFile_records cs ow (Suc i) (wrap64 (s - cs)) rest) = xs"
  proof (cases "xs = []")
    case True
    then show ?thesis using Cons.prems(1) sz by simp
  next
    case False
    have w: "wrap64 (s - cs) = sum_list xs"
      using tail_xs[OF False] nonneg Cons.prems(7) Cons.prems(4)
      by (simp add: wrap64_id)
    show ?thesis
      unfolding w
    proof (rule Cons.IH)
      show "length xs = length rest" using Cons.prems(1) sz by simp
      show "\<forall>j. Suc j < length xs \<longrightarrow> xs ! j = cs"
        using Cons.prems(2) sz by auto
      show "\<forall>x\<in>set xs. 0 \<le> x \<and> x \<le> cs" using Cons.prems(3) sz by simp
      show "0 < cs" by fact
      show "cs < 2 ^ 63" by fact
      show "sum_list xs = sum_list xs" by simp
      show "sum_list xs < 2 ^ 63" using s_eq x_ge Cons.prems(7) by simp
    qed
  qed
  show ?case using head rest_eq sz by simp
qed

lemma all_but_last_sum:
  fixes sizes :: "int list"
  assumes "sizes \<noteq> []" and "\<forall>j. Suc j < length sizes \<longrightarrow> sizes ! j = cs"
  shows "sum_list sizes = (int (length sizes) - 1) * cs + last sizes"
  using assms
proof (induction sizes)
  case Nil
  then show ?case by simp
next
  case (Cons x xs)
  show ?case
  proof (cases "xs = []")
    case True
    then show ?thesis by simp
  next
    case False
    have hd_eq: "x = cs" using Cons.prems(2) False by (cases xs) force+
    have "\<forall>j. Suc j < length xs \<longrightarrow> xs ! j = cs"
    proof (intro allI impI)
      fix j assume "Suc j < length xs"
      then have "Suc (Suc j) < length (x # xs)" by simp
      then have "(x # xs) ! Suc j = cs" using Cons.prems(2) by blast
      then show "xs ! j = cs" by simp
    qed
    then have "sum_list xs = (int (length xs) - 1) * cs + last xs"
      using Cons.IH False by blast
    then show ?thesis using hd_eq False by (simp add: algebra_simps)
  qed
qed

lemma putFile_NONE_scratch:
  assumes "putFile env st file Delimiter_NONE d b ow reader tombID newID = (Inr (), st')"
    and "PutObjectSplit env reader = Some (objects, S)"
  shows "\<exists>key. scratch st' \<noteq> [] \<and> last (scratch st') =
           (key, Records \<lparr>rs_Split = False,
                          rs_Records = putFile_records (ChunkSize env) ow 0 S objects\<rparr>)"
  using assms
  by (auto simp: putFile_def putRecords_def etcd_Put_def
           split: option.splits sum.splits if_splits prod.splits)

text \<open>
  C8. When \<open>putFile\<close> runs with delimiter NONE and succeeds, and \<open>PutObjectSplit\<close>
  returned the objects \<open>objects\<close> (at least one) with total size \<open>S\<close>, where the
  chunks have the sizes \<open>sizes\<close>: every one but the last exactly \<open>ChunkSize\<close>, the
  last at most \<open>ChunkSize\<close>, \<open>S\<close> their sum (an int64, and \<open>ChunkSize\<close> a positive
  int64), then the newest scratch key holds one record per object; every record but
  the last has \<open>SizeBytes = ChunkSize\<close> and the last has
  \<open>SizeBytes = S - (k - 1) * ChunkSize\<close>.
\<close>

theorem putFile_NONE_chunk_sizes:
  fixes sizes :: "int list"
  assumes "putFile env st file Delimiter_NONE d b ow reader tombID newID = (Inr (), st')"
    and "PutObjectSplit env reader = Some (objects, S)"
    and "objects \<noteq> []"
    and "length sizes = length objects"
    and "\<forall>j. Suc j < length sizes \<longrightarrow> sizes ! j = ChunkSize env"
    and "\<forall>x \<in> set sizes. 0 \<le> x \<and> x \<le> ChunkSize env"
    and "S = sum_list sizes"
    and "0 < ChunkSize env" and "ChunkSize env < 2 ^ 63" and "S < 2 ^ 63"
  shows "\<exists>key recs. scratch st' \<noteq> [] \<and>
           last (scratch st') = (key, Records \<lparr>rs_Split = False, rs_Records = recs\<rparr>) \<and>
           length recs = length objects \<and>
           (\<forall>i. Suc i < length recs \<longrightarrow> r_SizeBytes (recs ! i) = ChunkSize env) \<and>
           r_SizeBytes (last recs) = S - (int (length objects) - 1) * ChunkSize env"
proof -
  let ?recs = "putFile_records (ChunkSize env) ow 0 S objects"
  obtain key where k: "scratch st' \<noteq> []"
      "last (scratch st') = (key, Records \<lparr>rs_Split = False, rs_Records = ?recs\<rparr>)"
    using putFile_NONE_scratch[OF assms(1,2)] by blast
  have m: "map r_SizeBytes ?recs = sizes"
    using putFile_records_sizes[OF assms(4,5,6,8,9,7,10)] .
  have len: "length ?recs = length objects" by (rule putFile_records_length)
  have ne: "sizes \<noteq> []" "?recs \<noteq> []" using assms(3,4) len by auto
  have nth: "\<forall>i. Suc i < length ?recs \<longrightarrow> r_SizeBytes (?recs ! i) = ChunkSize env"
  proof (intro allI impI)
    fix i assume a: "Suc i < length ?recs"
    then have "r_SizeBytes (?recs ! i) = map r_SizeBytes ?recs ! i" by simp
    also have "\<dots> = sizes ! i" using m by simp
    also have "\<dots> = ChunkSize env" using assms(5) a len assms(4) by simp
    finally show "r_SizeBytes (?recs ! i) = ChunkSize env" .
  qed
  have "r_SizeBytes (last ?recs) = last (map r_SizeBytes ?recs)"
    using ne(2) by (simp add: last_map)
  also have "\<dots> = last sizes" using m by simp
  also have "\<dots> = S - (int (length objects) - 1) * ChunkSize env"
    using all_but_last_sum[OF ne(1) assms(5)] assms(7,4) by simp
  finally have lastr: "r_SizeBytes (last ?recs) = S - (int (length objects) - 1) * ChunkSize env" .
  show ?thesis using k len nth lastr by blast
qed

theorem putFile_NONE_chunk_sizes_witness:
  "\<exists>key recs.
     scratch (snd (putFile demoEnv demoOpen (demoFile ''/x'') Delimiter_NONE 0 0 None
                     ''data'' ''t1'' ''u1'')) \<noteq> [] \<and>
     last (scratch (snd (putFile demoEnv demoOpen (demoFile ''/x'') Delimiter_NONE 0 0 None
                     ''data'' ''t1'' ''u1''))) =
       (key, Records \<lparr>rs_Split = False, rs_Records = recs\<rparr>) \<and>
     length recs = 3 \<and>
     r_SizeBytes (recs ! 0) = 4 \<and> r_SizeBytes (recs ! 1) = 4 \<and> r_SizeBytes (last recs) = 2"
proof -
  let ?st' = "demoOpen\<lparr>scratch :=
        [(''pfs/scratch/r/0123456789ab4def0123456789abcdef/x/u1'', Records demoRecords)]\<rparr>"
  have h1: "putFile demoEnv demoOpen (demoFile ''/x'') Delimiter_NONE 0 0 None
              ''data'' ''t1'' ''u1'' = (Inr (), ?st')"
    by (rule demo_putFile)
  have h2: "PutObjectSplit demoEnv ''data'' = Some ([''o1'', ''o2'', ''o3''], 10)"
    by (simp add: demoEnv_def)
  have h3: "[''o1'', ''o2'', ''o3''] \<noteq> ([] :: string list)" by simp
  have h4: "length [4, 4, 2 :: int] = length [''o1'', ''o2'', ''o3'']" by simp
  have h5: "\<forall>j. Suc j < length [4, 4, 2 :: int] \<longrightarrow> [4, 4, 2 :: int] ! j = ChunkSize demoEnv"
    by (simp add: demoEnv_def less_Suc_eq numeral_3_eq_3)
  have h6: "\<forall>x \<in> set [4, 4, 2 :: int]. 0 \<le> x \<and> x \<le> ChunkSize demoEnv"
    by (simp add: demoEnv_def)
  have h7: "(10 :: int) = sum_list [4, 4, 2]" by simp
  have h8: "0 < ChunkSize demoEnv" "ChunkSize demoEnv < 2 ^ 63" "(10 :: int) < 2 ^ 63"
    by (simp_all add: demoEnv_def)
  obtain key recs where r: "scratch ?st' \<noteq> []"
      "last (scratch ?st') = (key, Records \<lparr>rs_Split = False, rs_Records = recs\<rparr>)"
      "length recs = length [''o1'', ''o2'', ''o3'']"
      "\<forall>i. Suc i < length recs \<longrightarrow> r_SizeBytes (recs ! i) = ChunkSize demoEnv"
      "r_SizeBytes (last recs) = 10 - (int (length [''o1'', ''o2'', ''o3'']) - 1) * ChunkSize demoEnv"
    using putFile_NONE_chunk_sizes[OF h1 h2 h3 h4 h5 h6 h7 h8] by blast
  have l3: "length recs = 3" using r(3) by simp
  have "r_SizeBytes (recs ! 0) = 4" "r_SizeBytes (recs ! 1) = 4"
    using r(4) l3 by (simp_all add: demoEnv_def)
  moreover have "r_SizeBytes (last recs) = 2" using r(5) by (simp add: demoEnv_def)
  ultimately show ?thesis using r(1,2) l3 unfolding h1 by auto
qed

subsection \<open>Starting a commit without a parent\<close>

text \<open>
  C10. \<open>makeCommit\<close> called with a nil parent: the authorization check in its first
  line reads \<open>parent.Repo\<close>, so the call ends in a nil dereference and never reaches
  the comparison that would return "parent cannot be nil".
\<close>

theorem makeCommit_nil_parent:
  "fst (makeCommit env st None branch provenance treeRef newID started finishedAt)
     = Inl PanicNilDereference \<and>
   fst (makeCommit env st None branch provenance treeRef newID started finishedAt)
     \<noteq> Inl ErrParentNil \<and>
   fst (startCommit env st None branch provenance newID started finishedAt)
     = Inl PanicNilDereference \<and>
   fst (buildCommit env st None branch provenance treeRef newID started finishedAt)
     = Inl PanicNilDereference"
  by (simp add: makeCommit_def startCommit_def buildCommit_def)

subsection \<open>Provenance of repos\<close>

lemmas repo_defs = createRepo_def updateRepo_def ValidateRepoName_def repoNameChar_def
  NewSTM_def createRepo_txn_def createRepo_acl_def updateRepo_txn_def listRepo_def
  patchDownstream_def addProv_def keys_add_def keys_delete_def checkIsAuthorized_def

lemmas prov_defs = provT_def provS_def provR_def provU_def demoRepoInfo_def

lemma demo_create_t: "createRepo demoEnv emptyDriver ''t'' [] [] False 0 = (Inr (), provT)"
  by (simp add: repo_defs demoEnv_def emptyDriver_def col_defs prov_defs)

lemma demo_create_s: "createRepo demoEnv provT ''s'' [''t''] [] False 0 = (Inr (), provS)"
  by (simp add: repo_defs demoEnv_def emptyDriver_def col_defs prov_defs)

lemma demo_create_r: "createRepo demoEnv provS ''r'' [] [] False 0 = (Inr (), provR)"
  by (simp add: repo_defs demoEnv_def emptyDriver_def col_defs prov_defs)

lemma demo_update_r: "createRepo demoEnv provR ''r'' [''s''] [] True 0 = (Inr (), provU)"
  by (simp add: repo_defs demoEnv_def emptyDriver_def col_defs prov_defs)

text \<open>
  C1. The provenance stored for a repo is not closed after \<open>updateRepo\<close>: create
  \<open>t\<close>, create \<open>s\<close> with provenance \<open>t\<close>, create \<open>r\<close>, then update \<open>r\<close> to provenance
  \<open>s\<close>. Every call succeeds; afterwards \<open>r\<close> depends on \<open>s\<close> and \<open>s\<close> on \<open>t\<close>, but
  the provenance of \<open>r\<close> is \<open>[s]\<close>: \<open>updateRepo\<close> stores the list it was given.
  (\<open>createRepo\<close> of \<open>s\<close> did store the provenance of its provenance.)
\<close>

theorem updateRepo_provenance_not_closed:
  "createRepo demoEnv emptyDriver ''t'' [] [] False 0 = (Inr (), provT) \<and>
   createRepo demoEnv provT ''s'' [''t''] [] False 0 = (Inr (), provS) \<and>
   createRepo demoEnv provS ''r'' [] [] False 0 = (Inr (), provR) \<and>
   createRepo demoEnv provR ''r'' [''s''] [] True 0 = (Inr (), provU) \<and>
   map_option ri_Provenance (col_Get (repos provU) ''r'') = Some [''s''] \<and>
   map_option ri_Provenance (col_Get (repos provU) ''s'') = Some [''t''] \<and>
   ''t'' \<notin> set (ri_Provenance (the (col_Get (repos provU) ''r'')))"
  using demo_create_t demo_create_s demo_create_r demo_update_r
  by (simp add: prov_defs emptyDriver_def col_Get_def)

subsection \<open>Writing to a deleted commit\<close>

lemma demo_deleteCommit:
  "deleteCommit demoEnv demoOpen \<lparr>c_Repo = ''r'', c_ID = uuidA\<rparr> = (Inr (), demoDeleted)"
  by (simp add: deleteCommit_def deleteCommit_txn_def inspectCommit_def parseCommitID_def
      scratchCommitPrefix_def resolved_def listBranch_def deleteBranch_def setBranch_def
      etcd_DeletePrefix_def NewSTM_def checkIsAuthorized_def demoDeleted_def
      demoEnv_def demoOpen_def demoRepo_def uuidA_def col_defs path_defs Let_def)

lemma demo_putFile_deleted:
  "putFile demoEnv demoDeleted (demoFile ''/x'') Delimiter_NONE 0 0 None ''data'' ''t1'' ''u1'' =
     (Inr (), demoDeleted\<lparr>scratch :=
        [(''pfs/scratch/r/0123456789ab4def0123456789abcdef/x/u1'', Records demoRecords)]\<rparr>)"
  by (simp add: putFile_def checkIsAuthorized_def demoEnv_def demoDeleted_def demoRepo_def
      uuidA_def demoFile_def demoRecords_def UUIDWithoutDashesLength_def checkPath_def
      putRecords_def col_defs etcd_Put_def path_defs wrap64_def)

text \<open>
  C2. A write to a deleted commit is accepted: in the state with the open commit
  \<open>uuidA\<close> (reached by \<open>createRepo\<close> and \<open>startCommit\<close>), \<open>deleteCommit\<close> succeeds and
  removes the commit record, but leaves the key of the commit in \<open>openCommits\<close>; a
  \<open>putFile\<close> on the commit, by its full id, then succeeds and adds a scratch record.
\<close>

theorem putFile_after_deleteCommit_succeeds:
  "startCommit demoEnv demoRepo (Some \<lparr>c_Repo = ''r'', c_ID = []\<rparr>) ''master'' [] uuidA 1 2
     = (Inr \<lparr>c_Repo = ''r'', c_ID = uuidA\<rparr>, demoOpen) \<and>
   deleteCommit demoEnv demoOpen \<lparr>c_Repo = ''r'', c_ID = uuidA\<rparr> = (Inr (), demoDeleted) \<and>
   col_Get (commits demoDeleted) (''r'', uuidA) = None \<and>
   col_Get (openCommits demoDeleted) uuidA = Some \<lparr>c_Repo = ''r'', c_ID = uuidA\<rparr> \<and>
   scratch demoDeleted = [] \<and>
   length uuidA = 32 \<and>
   putFile demoEnv demoDeleted (demoFile ''/x'') Delimiter_NONE 0 0 None ''data'' ''t1'' ''u1'' =
     (Inr (), demoDeleted\<lparr>scratch :=
        [(''pfs/scratch/r/0123456789ab4def0123456789abcdef/x/u1'', Records demoRecords)]\<rparr>)"
  using demo_startCommit demo_deleteCommit demo_putFile_deleted
  by (simp add: demoDeleted_def demoRepo_def col_Get_def uuidA_def)

theorem putFile_after_deleteCommit_succeeds_witness:
  "fst (putFile demoEnv demoDeleted (demoFile ''/x'') Delimiter_NONE 0 0 None
          ''data'' ''t1'' ''u1'') = Inr () \<and>
   scratch (snd (putFile demoEnv demoDeleted (demoFile ''/x'') Delimiter_NONE 0 0 None
                   ''data'' ''t1'' ''u1'')) \<noteq> []"
  using putFile_after_deleteCommit_succeeds by simp

subsection \<open>Lookups in collections\<close>

lemma map_of_filter_fst:
  "map_of (filter (\<lambda>p. fst p \<noteq> k) c) q = (if q = k then None else map_of c q)"
  by (induction c) auto

lemma col_Get_Put: "col_Get (col_Put c k v) q = (if q = k then Some v else col_Get c q)"
  by (simp add: col_Get_def col_Put_def map_of_filter_fst)

lemma col_Get_Delete:
  "col_Delete c k = Some c' \<Longrightarrow> col_Get c' q = (if q = k then None else col_Get c q)"
  by (auto simp: col_Get_def col_Delete_def map_of_filter_fst split: option.splits)

lemma col_Delete_Some: "col_Delete c k = Some c' \<Longrightarrow> col_Get c k \<noteq> None"
  by (auto simp: col_Delete_def split: option.splits)

lemma col_Get_DeleteAll:
  "col_Get (col_DeleteAll c repo) (r, k) = (if r = repo then None else col_Get c (r, k))"
  unfolding col_Get_def col_DeleteAll_def
  by (induction c) auto

lemma col_Get_decrementProvenance:
  "col_Get (decrementProvenance rc ps) q =
     map_option (\<lambda>n. n - int (count_list ps q)) (col_Get rc q)"
proof (induction ps arbitrary: rc)
  case Nil
  then show ?case by (simp add: option.map_ident)
next
  case (Cons p ps)
  show ?case
  proof (cases "col_Get rc p")
    case None
    then show ?thesis using Cons.IH[of rc]
      by (auto simp: col_DecrementBy_def)
  next
    case (Some v)
    then show ?thesis using Cons.IH[of "col_Put rc p (v - 1)"]
      by (auto simp: col_DecrementBy_def col_Get_Put)
  qed
qed

subsection \<open>Deleting a repo\<close>

lemma deleteRepo_txn_refused:
  assumes "\<not> force" and "col_Get (repoRefCounts st) repo = Some n" and "n \<noteq> 0"
  shows "deleteRepo_txn repo force st = (Inl ErrDeleteProvenance, st)"
  using assms by (simp add: deleteRepo_txn_def)

lemma deleteRepo_refused:
  assumes "\<not> force" and "col_Get (repoRefCounts st) repo = Some n" and "n \<noteq> 0"
  shows "\<exists>e. deleteRepo env st repo force = (Inl e, st)"
  using deleteRepo_txn_refused[OF assms]
  by (auto simp: deleteRepo_def NewSTM_def split: option.splits)

lemma deleteRepo_txn_success:
  assumes "deleteRepo_txn repo force st = (Inr (), st')"
  shows "(force \<or> col_Get (repoRefCounts st) repo = Some 0) \<and>
         (\<exists>repoInfo rs' rc'. col_Get (repos st) repo = Some repoInfo \<and>
            col_Delete (repos st) repo = Some rs' \<and>
            col_Delete (decrementProvenance (repoRefCounts st) (ri_Provenance repoInfo)) repo = Some rc' \<and>
            st' = st\<lparr>repos := rs', repoRefCounts := rc',
                      commits := col_DeleteAll (commits st) repo,
                      branches := col_DeleteAll (branches st) repo\<rparr>)"
  using assms
  by (auto simp: deleteRepo_txn_def Let_def split: if_splits option.splits)

lemma deleteRepo_success_txn:
  assumes "deleteRepo env st repo force = (Inr (), st')"
  shows "deleteRepo_txn repo force st = (Inr (), st')"
  using assms
  by (auto simp: deleteRepo_def NewSTM_def split: option.splits sum.splits prod.splits if_splits)

text \<open>
  C6. \<open>deleteRepo\<close> without \<open>force\<close> on a repo whose refcount is greater than zero
  fails and leaves the state as it was. When \<open>deleteRepo\<close> succeeds, the refcount was
  zero or \<open>force\<close> was set; the refcount of every other repo is lowered by the number
  of times the repo occurs in the provenance of the deleted one, a missing refcount
  staying missing; the repo record, its refcount and all commits and branches of the
  repo are gone; the records, commits and branches of other repos are as before.
\<close>

theorem deleteRepo_spec:
  "(\<not> force \<and> (\<exists>n. col_Get (repoRefCounts st) repo = Some n \<and> 0 < n) \<longrightarrow>
      (\<exists>e. deleteRepo env st repo force = (Inl e, st))) \<and>
   (deleteRepo env st repo force = (Inr (), st') \<longrightarrow>
      (force \<or> col_Get (repoRefCounts st) repo = Some 0) \<and>
      (\<exists>repoInfo. col_Get (repos st) repo = Some repoInfo \<and>
         (\<forall>q. q \<noteq> repo \<longrightarrow>
            col_Get (repoRefCounts st') q =
              map_option (\<lambda>n. n - int (count_list (ri_Provenance repoInfo) q))
                (col_Get (repoRefCounts st) q))) \<and>
      col_Get (repos st') repo = None \<and>
      col_Get (repoRefCounts st') repo = None \<and>
      (\<forall>k. col_Get (commits st') (repo, k) = None) \<and>
      (\<forall>k. col_Get (branches st') (repo, k) = None) \<and>
      (\<forall>q. q \<noteq> repo \<longrightarrow> col_Get (repos st') q = col_Get (repos st) q) \<and>
      (\<forall>q k. q \<noteq> repo \<longrightarrow> col_Get (commits st') (q, k) = col_Get (commits st) (q, k)) \<and>
      (\<forall>q k. q \<noteq> repo \<longrightarrow> col_Get (branches st') (q, k) = col_Get (branches st) (q, k)) \<and>
      openCommits st' = openCommits st \<and> scratch st' = scratch st)"
proof (intro conjI impI)
  assume "\<not> force \<and> (\<exists>n. col_Get (repoRefCounts st) repo = Some n \<and> 0 < n)"
  then show "\<exists>e. deleteRepo env st repo force = (Inl e, st)"
    using deleteRepo_refused[of force st repo _ env] by auto
next
  assume a: "deleteRepo env st repo force = (Inr (), st')"
  from deleteRepo_txn_success[OF deleteRepo_success_txn[OF a]]
  obtain repoInfo rs' rc' where
      f: "force \<or> col_Get (repoRefCounts st) repo = Some 0"
    and g: "col_Get (repos st) repo = Some repoInfo"
    and d1: "col_Delete (repos st) repo = Some rs'"
    and d2: "col_Delete (decrementProvenance (repoRefCounts st) (ri_Provenance repoInfo)) repo = Some rc'"
    and s: "st' = st\<lparr>repos := rs', repoRefCounts := rc',
                      commits := col_DeleteAll (commits st) repo,
                      branches := col_DeleteAll (branches st) repo\<rparr>"
    by blast
  show "force \<or> col_Get (repoRefCounts st) repo = Some 0" by (rule f)
  show "\<exists>repoInfo. col_Get (repos st) repo = Some repoInfo \<and>
         (\<forall>q. q \<noteq> repo \<longrightarrow>
            col_Get (repoRefCounts st') q =
              map_option (\<lambda>n. n - int (count_list (ri_Provenance repoInfo) q))
                (col_Get (repoRefCounts st) q))"
    using g s col_Get_Delete[OF d2] by (auto simp: col_Get_decrementProvenance)
  show "col_Get (repos st') repo = None" using s col_Get_Delete[OF d1] by simp
  show "col_Get (repoRefCounts st') repo = None" using s col_Get_Delete[OF d2] by simp
  show "\<forall>k. col_Get (commits st') (repo, k) = None" using s by (simp add: col_Get_DeleteAll)
  show "\<forall>k. col_Get (branches st') (repo, k) = None" using s by (simp add: col_Get_DeleteAll)
  show "\<forall>q. q \<noteq> repo \<longrightarrow> col_Get (repos st') q = col_Get (repos st) q"
    using s col_Get_Delete[OF d1] by simp
  show "\<forall>q k. q \<noteq> repo \<longrightarrow> col_Get (commits st') (q, k) = col_Get (commits st) (q, k)"
    using s by (simp add: col_Get_DeleteAll)
  show "\<forall>q k. q \<noteq> repo \<longrightarrow> col_Get (branches st') (q, k) = col_Get (branches st) (q, k)"
    using s by (simp add: col_Get_DeleteAll)
  show "openCommits st' = openCommits st" using s by simp
  show "scratch st' = scratch st" using s by simp
qed

lemma demo_delete_s: "deleteRepo demoEnv provS ''s'' False = (Inr (), provT)"
  by (simp add: deleteRepo_def deleteRepo_txn_def checkIsAuthorized_def NewSTM_def demoEnv_def
      provS_def provT_def demoRepoInfo_def emptyDriver_def col_defs Let_def)

theorem deleteRepo_spec_witness:
  "(\<exists>e. deleteRepo demoEnv provS ''t'' False = (Inl e, provS)) \<and>
   deleteRepo demoEnv provS ''s'' False = (Inr (), provT) \<and>
   col_Get (repoRefCounts provS) ''s'' = Some 0 \<and>
   col_Get (repoRefCounts provS) ''t'' = Some 1 \<and>
   col_Get (repoRefCounts provT) ''t'' = Some 0 \<and>
   col_Get (repos provT) ''s'' = None \<and>
   col_Get (repoRefCounts provT) ''s'' = None"
proof -
  have rc: "col_Get (repoRefCounts provS) ''t'' = Some 1"
    by (simp add: provS_def emptyDriver_def col_Get_def)
  have a: "\<not> False \<and> (\<exists>n. col_Get (repoRefCounts provS) ''t'' = Some n \<and> 0 < n)"
    using rc by simp
  have 1: "\<exists>e. deleteRepo demoEnv provS ''t'' False = (Inl e, provS)"
    using deleteRepo_spec[of False provS "''t''" demoEnv provS] a by blast
  have 2: "deleteRepo demoEnv provS ''s'' False = (Inr (), provT)" by (rule demo_delete_s)
  have 3: "col_Get (repos provT) ''s'' = None \<and> col_Get (repoRefCounts provT) ''s'' = None"
    using deleteRepo_spec[of False provS "''s''" demoEnv provT] 2 by blast
  show ?thesis using 1 2 3 rc
    by (simp add: provS_def provT_def emptyDriver_def col_Get_def)
qed

subsection \<open>Commit references with an ancestry suffix\<close>

lemma IndexAny_None: "(\<forall>ch \<in> set s. ch \<notin> set chars) \<Longrightarrow> IndexAny s chars = None"
  by (induction s) auto

lemma IndexAny_first:
  "(\<forall>ch \<in> set base. ch \<notin> set chars) \<Longrightarrow> sep \<in> set chars \<Longrightarrow>
   IndexAny (base @ sep # tail_str) chars = Some (length base)"
  by (induction base) auto

lemma parseCommitID_plain:
  assumes "\<forall>ch \<in> set ident. ch \<noteq> CHR ''^'' \<and> ch \<noteq> CHR ''~''"
  shows "parseCommitID ident = (ident, 0)"
proof -
  have "IndexAny ident ''^~'' = None" using assms by (intro IndexAny_None) auto
  then show ?thesis by (simp add: parseCommitID_def)
qed

lemma parseCommitID_suffix:
  assumes "\<forall>ch \<in> set base. ch \<noteq> CHR ''^'' \<and> ch \<noteq> CHR ''~''"
    and "sep = CHR ''^'' \<or> sep = CHR ''~''"
  shows "parseCommitID (base @ sep # tail_str) =
           (case Atoi tail_str of
              Some n \<Rightarrow> (base, n)
            | None \<Rightarrow>
                if (\<forall>ch \<in> set tail_str. ch = sep) then (base, 1 + int (length tail_str))
                else (base @ sep # tail_str, 0))"
proof -
  have "IndexAny (base @ sep # tail_str) ''^~'' = Some (length base)"
    using assms by (intro IndexAny_first) auto
  then show ?thesis
    by (simp add: parseCommitID_def Let_def list_all_iff split: option.splits)
qed

lemma inspectCommit_loop_nthParent:
  "case nthParent cs (c_Repo c) n (c_ID nx) of
     Some ci \<Rightarrow> inspectCommit_loop cs c (Suc n) (Some nx) cur = Inr (Some ci)
   | None \<Rightarrow> \<exists>x. inspectCommit_loop cs c (Suc n) (Some nx) cur = Inl (ErrCommitNotFound x)"
proof (induction n arbitrary: nx cur)
  case 0
  show ?case by (simp split: option.splits)
next
  case (Suc n)
  show ?case
  proof (cases "col_Get cs (c_Repo c, c_ID nx)")
    case None
    then show ?thesis by simp
  next
    case (Some ci)
    note got = this
    show ?thesis
    proof (cases "ci_ParentCommit ci")
      case None
      then show ?thesis using got by simp
    next
      case (Some p)
      show ?thesis
        using Suc.IH[of p "Some ci"] Some got
        by (simp split: option.splits)
    qed
  qed
qed

lemma inspectCommit_resolves:
  assumes "checkIsAuthorized env (c_Repo c) Scope_READER = None"
    and "0 \<le> snd (parseCommitID (c_ID c))"
  shows "case nthParent (commits st) (c_Repo c) (nat (snd (parseCommitID (c_ID c))))
                (branchHeadOr st (c_Repo c) (fst (parseCommitID (c_ID c)))) of
           Some ci \<Rightarrow> inspectCommit env st (Some c) = Inr ci
         | None \<Rightarrow> \<exists>x. inspectCommit env st (Some c) = Inl (ErrCommitNotFound x)"
proof -
  let ?n = "nat (snd (parseCommitID (c_ID c)))"
  let ?start = "\<lparr>c_Repo = c_Repo c, c_ID = branchHeadOr st (c_Repo c) (fst (parseCommitID (c_ID c)))\<rparr>"
  have n: "nat (snd (parseCommitID (c_ID c)) + 1) = Suc ?n" using assms(2) by simp
  have unf: "inspectCommit env st (Some c) =
        (case inspectCommit_loop (commits st) c (Suc ?n) (Some ?start) None of
           Inl e \<Rightarrow> Inl e
         | Inr None \<Rightarrow> Inl PanicNilDereference
         | Inr (Some commitInfo) \<Rightarrow> Inr commitInfo)"
    using assms(1) n
    by (simp add: inspectCommit_def Let_def branchHeadOr_def split: option.splits)
  show ?thesis
    using inspectCommit_loop_nthParent[of "commits st" c ?n ?start None]
    unfolding unf
    by (auto split: option.splits)
qed

lemma inspectCommit_negative:
  assumes "checkIsAuthorized env (c_Repo c) Scope_READER = None"
    and "snd (parseCommitID (c_ID c)) < 0"
  shows "inspectCommit env st (Some c) = Inl PanicNilDereference"
proof -
  have "nat (snd (parseCommitID (c_ID c)) + 1) = 0" using assms(2) by simp
  then show ?thesis using assms(1)
    by (simp add: inspectCommit_def Let_def split: option.splits)
qed

text \<open>
  C3. \<open>parseCommitID\<close>: an id without \<open>^\<close> and \<open>~\<close> is its own base token with
  \<open>N = 0\<close>; for a base token followed by a separator and a rest, \<open>N\<close> is the integer
  the rest parses to (\<open>strconv.Atoi\<close>), else one plus the length of the rest when the
  rest repeats the separator (the number of separators), else the whole id is the
  token and \<open>N = 0\<close>. \<open>inspectCommit\<close>, for a caller who may read the repo: with
  \<open>N \<ge> 0\<close> the token is replaced by the head of the branch it names, if any, and the
  result is the record reached by following \<open>ParentCommit\<close> \<open>N\<close> times, or
  \<open>ErrCommitNotFound\<close> when a link to follow is nil or a record is absent. A negative
  integer follows no link and reads no record; the Go code then dereferences the nil
  \<open>commitInfo\<close>.
\<close>

theorem inspectCommit_ancestry:
  "((\<forall>ch \<in> set ident. ch \<noteq> CHR ''^'' \<and> ch \<noteq> CHR ''~'') \<longrightarrow>
      parseCommitID ident = (ident, 0)) \<and>
   ((\<forall>ch \<in> set base. ch \<noteq> CHR ''^'' \<and> ch \<noteq> CHR ''~'') \<and>
    (sep = CHR ''^'' \<or> sep = CHR ''~'') \<longrightarrow>
      parseCommitID (base @ sep # tail_str) =
        (case Atoi tail_str of
           Some n \<Rightarrow> (base, n)
         | None \<Rightarrow>
             if (\<forall>ch \<in> set tail_str. ch = sep) then (base, 1 + int (length tail_str))
             else (base @ sep # tail_str, 0))) \<and>
   (checkIsAuthorized env (c_Repo c) Scope_READER = None \<and>
    0 \<le> snd (parseCommitID (c_ID c)) \<longrightarrow>
      (case nthParent (commits st) (c_Repo c) (nat (snd (parseCommitID (c_ID c))))
              (branchHeadOr st (c_Repo c) (fst (parseCommitID (c_ID c)))) of
         Some ci \<Rightarrow> inspectCommit env st (Some c) = Inr ci
       | None \<Rightarrow> \<exists>x. inspectCommit env st (Some c) = Inl (ErrCommitNotFound x))) \<and>
   (checkIsAuthorized env (c_Repo c) Scope_READER = None \<and>
    snd (parseCommitID (c_ID c)) < 0 \<longrightarrow>
      inspectCommit env st (Some c) = Inl PanicNilDereference)"
  using parseCommitID_plain[of ident] parseCommitID_suffix[of base sep tail_str]
    inspectCommit_resolves[of env c st] inspectCommit_negative[of env c st]
  by blast


lemma demo_parse:
  "parseCommitID ''master^'' = (''master'', 1)"
  "parseCommitID ''master^-1'' = (''master'', -1)"
  "parseCommitID ''master~2'' = (''master'', 2)"
  by (simp_all add: parseCommitID_def Atoi_def ParseInt_def digitVal_def Let_def)

theorem inspectCommit_ancestry_witness:
  "parseCommitID ''master'' = (''master'', 0) \<and>
   parseCommitID ''master~2'' = (''master'', 2) \<and>
   parseCommitID ''master^^^'' = (''master'', 3) \<and>
   inspectCommit demoEnv demoChain (Some \<lparr>c_Repo = ''r'', c_ID = ''master^''\<rparr>) = Inr demoInfoA \<and>
   (\<exists>x. inspectCommit demoEnv demoChain (Some \<lparr>c_Repo = ''r'', c_ID = ''master~2''\<rparr>)
          = Inl (ErrCommitNotFound x)) \<and>
   inspectCommit demoEnv demoChain (Some \<lparr>c_Repo = ''r'', c_ID = ''master^-1''\<rparr>)
     = Inl PanicNilDereference"
proof -
  have auth: "checkIsAuthorized demoEnv ''r'' Scope_READER = None"
    by (simp add: checkIsAuthorized_def demoEnv_def)
  have nosep: "\<forall>ch \<in> set ''master''. ch \<noteq> CHR ''^'' \<and> ch \<noteq> CHR ''~''" by simp
  have start: "branchHeadOr demoChain ''r'' ''master'' = uuidB"
    by (simp add: branchHeadOr_def demoChain_def col_Get_def)
  have np1: "nthParent (commits demoChain) ''r'' (Suc 0) uuidB = Some demoInfoA"
    by (simp add: demoChain_def demoInfoA_def demoInfoB_def col_Get_def uuidA_def uuidB_def)
  have np2: "nthParent (commits demoChain) ''r'' (Suc (Suc 0)) uuidB = None"
    by (simp add: demoChain_def demoInfoA_def demoInfoB_def col_Get_def uuidA_def uuidB_def)
  have a2: "Atoi ''2'' = Some 2" by (simp add: Atoi_def ParseInt_def digitVal_def)
  have a3: "Atoi ''^^'' = None" by (simp add: Atoi_def ParseInt_def digitVal_def)
  note t1 = inspectCommit_ancestry[of "''master''" "''master''" "CHR ''~''" "''2''" demoEnv
      "\<lparr>c_Repo = ''r'', c_ID = ''master^''\<rparr>" demoChain]
  note t2 = inspectCommit_ancestry[of "''master''" "''master''" "CHR ''^''" "''^^''" demoEnv
      "\<lparr>c_Repo = ''r'', c_ID = ''master~2''\<rparr>" demoChain]
  note t3 = inspectCommit_ancestry[of "''master''" "''master''" "CHR ''^''" "''^^''" demoEnv
      "\<lparr>c_Repo = ''r'', c_ID = ''master^-1''\<rparr>" demoChain]
  have p0: "parseCommitID ''master'' = (''master'', 0)" using t1 nosep by blast
  have p1: "parseCommitID ''master~2'' = (''master'', 2)" using t1 nosep a2 by simp
  have p2: "parseCommitID ''master^^^'' = (''master'', 3)" using t2 nosep a3 by simp
  have i1: "inspectCommit demoEnv demoChain (Some \<lparr>c_Repo = ''r'', c_ID = ''master^''\<rparr>) = Inr demoInfoA"
    using t1 auth start np1 by (simp add: demo_parse)
  have i2: "\<exists>x. inspectCommit demoEnv demoChain (Some \<lparr>c_Repo = ''r'', c_ID = ''master~2''\<rparr>)
          = Inl (ErrCommitNotFound x)"
    using t2 auth start np2 by (simp add: demo_parse numeral_2_eq_2)
  have i3: "inspectCommit demoEnv demoChain (Some \<lparr>c_Repo = ''r'', c_ID = ''master^-1''\<rparr>)
     = Inl PanicNilDereference"
    using t3 auth by (simp add: demo_parse)
  show ?thesis using p0 p1 p2 i1 i2 i3 by blast
qed

subsection \<open>Listing the ancestors of a commit\<close>

lemma listCommit_loop_unfold:
  "0 < number \<Longrightarrow>
   listCommit_loop cs repo from number cursor =
     (case cursor of
        None \<Rightarrow> Inr []
      | Some c \<Rightarrow>
          if (case from of None \<Rightarrow> False | Some f \<Rightarrow> c_ID c = c_ID f) then Inr []
          else
            (case col_Get cs (repo, c_ID c) of
               None \<Rightarrow> Inl (ErrNotFound (c_ID c))
             | Some commitInfo \<Rightarrow>
                 (case listCommit_loop cs repo from (number - 1) (ci_ParentCommit commitInfo) of
                    Inl e \<Rightarrow> Inl e
                  | Inr commitInfos \<Rightarrow> Inr (commitInfo # commitInfos))))"
  by (cases number)
    (simp_all cong del: option.case_cong_weak sum.case_cong_weak if_weak_cong)

lemma listCommit_loop_spec:
  assumes "listCommit_loop cs repo from L cursor = Inr infos"
  shows "length infos \<le> L \<and>
         (\<forall>i < length infos. \<exists>c. (cursor # map ci_ParentCommit infos) ! i = Some c \<and>
              col_Get cs (repo, c_ID c) = Some (infos ! i) \<and>
              (\<forall>f. from = Some f \<longrightarrow> c_ID c \<noteq> c_ID f)) \<and>
         (length infos = L \<or>
          (cursor # map ci_ParentCommit infos) ! length infos = None \<or>
          (\<exists>c f. (cursor # map ci_ParentCommit infos) ! length infos = Some c \<and>
                  from = Some f \<and> c_ID c = c_ID f))"
  using assms
proof (induction L arbitrary: cursor infos)
  case 0
  then show ?case by simp
next
  case (Suc L)
  show ?case
  proof (cases cursor)
    case None
    then show ?thesis using Suc.prems by simp
  next
    case (Some c)
    note cur = this
    show ?thesis
    proof (cases "case from of None \<Rightarrow> False | Some f \<Rightarrow> c_ID c = c_ID f")
      case True
      then have "infos = []" using Suc.prems cur by simp
      then show ?thesis using True cur by (auto split: option.splits)
    next
      case False
      note nf = this
      show ?thesis
      proof (cases "col_Get cs (repo, c_ID c)")
        case None
        then show ?thesis using Suc.prems cur nf by simp
      next
        case (Some ci)
        note got = this
        then obtain more where r: "listCommit_loop cs repo from L (ci_ParentCommit ci) = Inr more"
          and i: "infos = ci # more"
          using Suc.prems cur nf by (auto split: sum.splits)
        note ih = Suc.IH[OF r]
        have a: "length infos \<le> Suc L" using ih i by simp
        have b: "\<forall>j < length infos. \<exists>c'. (cursor # map ci_ParentCommit infos) ! j = Some c' \<and>
              col_Get cs (repo, c_ID c') = Some (infos ! j) \<and>
              (\<forall>f. from = Some f \<longrightarrow> c_ID c' \<noteq> c_ID f)"
        proof (intro allI impI)
          fix j assume j: "j < length infos"
          show "\<exists>c'. (cursor # map ci_ParentCommit infos) ! j = Some c' \<and>
              col_Get cs (repo, c_ID c') = Some (infos ! j) \<and>
              (\<forall>f. from = Some f \<longrightarrow> c_ID c' \<noteq> c_ID f)"
          proof (cases j)
            case 0
            then show ?thesis using cur got nf i by (auto split: option.splits)
          next
            case (Suc k)
            then have "k < length more" using j i by simp
            then show ?thesis using ih Suc i by simp
          qed
        qed
        have c: "length infos = Suc L \<or>
          (cursor # map ci_ParentCommit infos) ! length infos = None \<or>
          (\<exists>c f. (cursor # map ci_ParentCommit infos) ! length infos = Some c \<and>
                  from = Some f \<and> c_ID c = c_ID f)"
          using ih i by simp
        show ?thesis using a b c by blast
      qed
    qed
  qed
qed

lemma listCommit_from_only:
  "\<exists>e. listCommit env st repo None (Some f) number = Inl e"
  by (auto simp: listCommit_def inspectOptional_def Let_def split: option.splits sum.splits)

lemma listCommit_to:
  assumes "listCommit env st repo (Some t) from number = Inr infos"
  shows "\<exists>ci from'. inspectCommit env st (Some t) = Inr ci \<and>
           inspectOptional env st from = Inr from' \<and>
           listCommit_loop (commits st) repo from'
              (if number = 0 then 2 ^ 64 - 1 else number) (Some (resolved t ci)) = Inr infos"
  using assms
  by (auto simp: listCommit_def inspectOptional_def Let_def split: option.splits sum.splits if_splits)

text \<open>
  C9. \<open>listCommit\<close> with \<open>from\<close> and without \<open>to\<close> returns an error. With \<open>to\<close>, a
  returned list is the chain that starts at \<open>to\<close> (as \<open>inspectCommit\<close> resolves it):
  the cursors are \<open>to\<close> and then the \<open>ParentCommit\<close> of each entry; entry \<open>i\<close> is the
  record of cursor \<open>i\<close>, no cursor of an entry has the id of \<open>from\<close> (as resolved),
  and the list has at most \<open>number\<close> entries. It ends because \<open>number\<close> entries were
  collected, because the next cursor is nil, or because the next cursor is \<open>from\<close>.
  For \<open>number = 0\<close> the limit is \<open>math.MaxUint64\<close>.
\<close>

theorem listCommit_spec:
  "(\<exists>e. listCommit env st repo None (Some f) number = Inl e) \<and>
   (listCommit env st repo (Some t) from number = Inr infos \<longrightarrow>
      (\<exists>ci from'. inspectCommit env st (Some t) = Inr ci \<and>
         inspectOptional env st from = Inr from' \<and>
         length infos \<le> (if number = 0 then 2 ^ 64 - 1 else number) \<and>
         (\<forall>i < length infos.
            \<exists>c. (Some (resolved t ci) # map ci_ParentCommit infos) ! i = Some c \<and>
                col_Get (commits st) (repo, c_ID c) = Some (infos ! i) \<and>
                (\<forall>f. from' = Some f \<longrightarrow> c_ID c \<noteq> c_ID f)) \<and>
         (length infos = (if number = 0 then 2 ^ 64 - 1 else number) \<or>
          (Some (resolved t ci) # map ci_ParentCommit infos) ! length infos = None \<or>
          (\<exists>c f. (Some (resolved t ci) # map ci_ParentCommit infos) ! length infos = Some c \<and>
                  from' = Some f \<and> c_ID c = c_ID f))))"
proof (intro conjI impI)
  show "\<exists>e. listCommit env st repo None (Some f) number = Inl e"
    by (rule listCommit_from_only)
next
  assume a: "listCommit env st repo (Some t) from number = Inr infos"
  from listCommit_to[OF a] obtain ci from' where
    1: "inspectCommit env st (Some t) = Inr ci" and
    2: "inspectOptional env st from = Inr from'" and
    3: "listCommit_loop (commits st) repo from'
              (if number = 0 then 2 ^ 64 - 1 else number) (Some (resolved t ci)) = Inr infos"
    by blast
  show "\<exists>ci from'. inspectCommit env st (Some t) = Inr ci \<and>
         inspectOptional env st from = Inr from' \<and>
         length infos \<le> (if number = 0 then 2 ^ 64 - 1 else number) \<and>
         (\<forall>i < length infos.
            \<exists>c. (Some (resolved t ci) # map ci_ParentCommit infos) ! i = Some c \<and>
                col_Get (commits st) (repo, c_ID c) = Some (infos ! i) \<and>
                (\<forall>f. from' = Some f \<longrightarrow> c_ID c \<noteq> c_ID f)) \<and>
         (length infos = (if number = 0 then 2 ^ 64 - 1 else number) \<or>
          (Some (resolved t ci) # map ci_ParentCommit infos) ! length infos = None \<or>
          (\<exists>c f. (Some (resolved t ci) # map ci_ParentCommit infos) ! length infos = Some c \<and>
                  from' = Some f \<and> c_ID c = c_ID f))"
    using 1 2 listCommit_loop_spec[OF 3] by blast
qed

lemmas inspect_defs = inspectCommit_def parseCommitID_def resolved_def checkIsAuthorized_def
  inspectOptional_def inspectRepo_def

lemma demo_listCommit_all:
  "listCommit demoEnv demoChain ''r'' (Some \<lparr>c_Repo = ''r'', c_ID = ''master''\<rparr>) None 0
     = Inr [demoInfoB, demoInfoA]"
  by (simp add: listCommit_def inspect_defs listCommit_loop_unfold Let_def
      demoEnv_def demoChain_def demoRepo_def demoInfoA_def demoInfoB_def col_defs uuidA_def uuidB_def)

lemma demo_listCommit_from:
  "listCommit demoEnv demoChain ''r'' (Some \<lparr>c_Repo = ''r'', c_ID = ''master''\<rparr>)
      (Some \<lparr>c_Repo = ''r'', c_ID = uuidA\<rparr>) 0 = Inr [demoInfoB]"
  by (simp add: listCommit_def inspect_defs listCommit_loop_unfold Let_def
      demoEnv_def demoChain_def demoRepo_def demoInfoA_def demoInfoB_def col_defs uuidA_def uuidB_def)

lemma demo_listCommit_number:
  "listCommit demoEnv demoChain ''r'' (Some \<lparr>c_Repo = ''r'', c_ID = ''master''\<rparr>) None 1
     = Inr [demoInfoB]"
  by (simp add: listCommit_def inspect_defs Let_def
      demoEnv_def demoChain_def demoRepo_def demoInfoA_def demoInfoB_def col_defs uuidA_def uuidB_def)


theorem listCommit_spec_witness:
  "(\<exists>e. listCommit demoEnv demoChain ''r'' None (Some \<lparr>c_Repo = ''r'', c_ID = uuidA\<rparr>) 0 = Inl e) \<and>
   listCommit demoEnv demoChain ''r'' (Some \<lparr>c_Repo = ''r'', c_ID = ''master''\<rparr>)
      (Some \<lparr>c_Repo = ''r'', c_ID = uuidA\<rparr>) 0 = Inr [demoInfoB] \<and>
   (\<exists>ci from'.
      inspectCommit demoEnv demoChain (Some \<lparr>c_Repo = ''r'', c_ID = ''master''\<rparr>) = Inr ci \<and>
      inspectOptional demoEnv demoChain (Some \<lparr>c_Repo = ''r'', c_ID = uuidA\<rparr>) = Inr from' \<and>
      (\<exists>c. (Some (resolved \<lparr>c_Repo = ''r'', c_ID = ''master''\<rparr> ci)
               # map ci_ParentCommit [demoInfoB]) ! 0 = Some c \<and>
           col_Get (commits demoChain) (''r'', c_ID c) = Some demoInfoB) \<and>
      (\<exists>c f. (Some (resolved \<lparr>c_Repo = ''r'', c_ID = ''master''\<rparr> ci)
                 # map ci_ParentCommit [demoInfoB]) ! 1 = Some c \<and>
             from' = Some f \<and> c_ID c = c_ID f))"
proof -
  note t = listCommit_spec[of demoEnv demoChain "''r''" "\<lparr>c_Repo = ''r'', c_ID = uuidA\<rparr>" 0
      "\<lparr>c_Repo = ''r'', c_ID = ''master''\<rparr>" "Some \<lparr>c_Repo = ''r'', c_ID = uuidA\<rparr>" "[demoInfoB]"]
  have 1: "\<exists>e. listCommit demoEnv demoChain ''r'' None (Some \<lparr>c_Repo = ''r'', c_ID = uuidA\<rparr>) 0 = Inl e"
    using t by blast
  have 2: "listCommit demoEnv demoChain ''r'' (Some \<lparr>c_Repo = ''r'', c_ID = ''master''\<rparr>)
      (Some \<lparr>c_Repo = ''r'', c_ID = uuidA\<rparr>) 0 = Inr [demoInfoB]"
    by (rule demo_listCommit_from)
  from t 2 obtain ci from' where
    a: "inspectCommit demoEnv demoChain (Some \<lparr>c_Repo = ''r'', c_ID = ''master''\<rparr>) = Inr ci" and
    b: "inspectOptional demoEnv demoChain (Some \<lparr>c_Repo = ''r'', c_ID = uuidA\<rparr>) = Inr from'" and
    c: "\<forall>i < length [demoInfoB].
          \<exists>c. (Some (resolved \<lparr>c_Repo = ''r'', c_ID = ''master''\<rparr> ci)
                 # map ci_ParentCommit [demoInfoB]) ! i = Some c \<and>
              col_Get (commits demoChain) (''r'', c_ID c) = Some ([demoInfoB] ! i) \<and>
              (\<forall>f. from' = Some f \<longrightarrow> c_ID c \<noteq> c_ID f)" and
    d: "length [demoInfoB] = (if (0::nat) = 0 then 2 ^ 64 - 1 else 0) \<or>
        (Some (resolved \<lparr>c_Repo = ''r'', c_ID = ''master''\<rparr> ci)
           # map ci_ParentCommit [demoInfoB]) ! length [demoInfoB] = None \<or>
        (\<exists>c f. (Some (resolved \<lparr>c_Repo = ''r'', c_ID = ''master''\<rparr> ci)
                   # map ci_ParentCommit [demoInfoB]) ! length [demoInfoB] = Some c \<and>
               from' = Some f \<and> c_ID c = c_ID f)"
    by blast
  have c': "\<exists>c. (Some (resolved \<lparr>c_Repo = ''r'', c_ID = ''master''\<rparr> ci)
               # map ci_ParentCommit [demoInfoB]) ! 0 = Some c \<and>
           col_Get (commits demoChain) (''r'', c_ID c) = Some demoInfoB"
    using c by simp
  have d': "\<exists>c f. (Some (resolved \<lparr>c_Repo = ''r'', c_ID = ''master''\<rparr> ci)
                 # map ci_ParentCommit [demoInfoB]) ! 1 = Some c \<and>
             from' = Some f \<and> c_ID c = c_ID f"
    using d by (simp add: demoInfoB_def)
  show ?thesis using 1 2 a b c' d' by blast
qed

subsection \<open>Names of split files\<close>

lemma putSplitRecords_putFiles:
  "putSplitRecords ht filePath indexOffset i records tree =
     putFiles ht
       (map (\<lambda>(j, rec). (path_Join [filePath, Sprintf_016x (wrap64 (int j + indexOffset))], rec))
          (enumerate i records)) tree"
  by (induction records arbitrary: i tree) (simp_all split: sum.splits)

lemma applySplit_unfold:
  assumes "ht_List ht tree filePath = Inr nodes \<or>
           (ht_List ht tree filePath = Inl (ErrHashTree PathNotFound) \<and> nodes = [])"
  shows "applySplit ht filePath records tree =
          (if nodes = [] then putFiles ht (splitNames filePath 0 records) tree
           else (case ParseInt (path_Base (n_Name (last nodes))) 16 of
                   None \<Rightarrow> Inl (ErrSplitParse (path_Base (n_Name (last nodes))))
                 | Some parsed \<Rightarrow>
                     putFiles ht (splitNames filePath (wrap64 (parsed + 1)) records) tree))"
  using assms
  by (auto simp: applySplit_def splitOffset_def putSplitRecords_putFiles splitNames_def
           split: option.splits)

lemma applyWrite_split:
  assumes "rs_Split records" and "filePathFromEtcdPath env key = Inr fileStr"
  shows "applyWrite env sizeMap tree (key, Records records) =
           (case applySplit (HT env) (Join (butlast (Split fileStr (CHR ''/''))) ''/'')
                   (rs_Records records) tree of
              Inl e \<Rightarrow> Inl e
            | Inr tree' \<Rightarrow> Inr (sizeMap, tree'))"
  using assms by (simp add: applyWrite_def Let_def)


lemma sorted_last_Max:
  fixes xs :: "'a :: linorder list"
  assumes "sorted xs" and "xs \<noteq> []"
  shows "last xs = Max (set xs)"
  using assms
proof (induction xs)
  case Nil
  then show ?case by simp
next
  case (Cons x xs)
  show ?case
  proof (cases "xs = []")
    case True
    then show ?thesis by simp
  next
    case False
    have ih: "last xs = Max (set xs)" using Cons.IH Cons.prems(1) False by simp
    have "last xs \<in> set xs" using False by simp
    then have "x \<le> last xs" using Cons.prems(1) by auto
    then have "max x (Max (set xs)) = Max (set xs)" using ih by (simp add: max_def)
    then show ?thesis using False ih by simp
  qed
qed

lemma last_name_Max:
  assumes "sorted (map n_Name nodes)" and "nodes \<noteq> []"
  shows "n_Name (last nodes) = Max (set (map n_Name nodes))"
  using sorted_last_Max[OF assms(1)] assms(2) by (simp add: last_map)


text \<open>
  C7. For a scratch value with \<open>Split\<close> set, \<open>applyWrites\<close> runs \<open>applySplit\<close> on the
  file path of the key. Let \<open>nodes\<close> be the children \<open>List\<close> returns for the path, in
  ascending order of their names (none when the path is not found). With children,
  \<open>indexOffset\<close> is one plus the base-16 value of the base name of the highest child,
  and a name that does not parse is an error; without children it is 0. Record \<open>i\<close>
  of the batch is then written, in the order of the batch, to the child named by the
  \<open>%016x\<close> rendering of \<open>i + indexOffset\<close> (\<open>splitNames\<close>, \<open>putFiles\<close>).
\<close>

theorem applyWrites_split_names:
  "(rs_Split records \<and> filePathFromEtcdPath env key = Inr fileStr \<longrightarrow>
      applyWrite env sizeMap tree (key, Records records) =
        (case applySplit (HT env) (Join (butlast (Split fileStr (CHR ''/''))) ''/'')
                (rs_Records records) tree of
           Inl e \<Rightarrow> Inl e
         | Inr tree' \<Rightarrow> Inr (sizeMap, tree'))) \<and>
   ((ht_List ht tree filePath = Inr nodes \<or>
     (ht_List ht tree filePath = Inl (ErrHashTree PathNotFound) \<and> nodes = [])) \<and>
    sorted (map n_Name nodes) \<longrightarrow>
      applySplit ht filePath recs tree =
        (if nodes = [] then putFiles ht (splitNames filePath 0 recs) tree
         else (case ParseInt (path_Base (Max (set (map n_Name nodes)))) 16 of
                 None \<Rightarrow> Inl (ErrSplitParse (path_Base (Max (set (map n_Name nodes)))))
               | Some parsed \<Rightarrow>
                   putFiles ht (splitNames filePath (wrap64 (parsed + 1)) recs) tree)))"
proof (intro conjI impI)
  assume "rs_Split records \<and> filePathFromEtcdPath env key = Inr fileStr"
  then show "applyWrite env sizeMap tree (key, Records records) =
        (case applySplit (HT env) (Join (butlast (Split fileStr (CHR ''/''))) ''/'')
                (rs_Records records) tree of
           Inl e \<Rightarrow> Inl e
         | Inr tree' \<Rightarrow> Inr (sizeMap, tree'))"
    by (simp add: applyWrite_split)
next
  assume a: "(ht_List ht tree filePath = Inr nodes \<or>
     (ht_List ht tree filePath = Inl (ErrHashTree PathNotFound) \<and> nodes = [])) \<and>
    sorted (map n_Name nodes)"
  show "applySplit ht filePath recs tree =
        (if nodes = [] then putFiles ht (splitNames filePath 0 recs) tree
         else (case ParseInt (path_Base (Max (set (map n_Name nodes)))) 16 of
                 None \<Rightarrow> Inl (ErrSplitParse (path_Base (Max (set (map n_Name nodes)))))
               | Some parsed \<Rightarrow>
                   putFiles ht (splitNames filePath (wrap64 (parsed + 1)) recs) tree))"
  proof (cases "nodes = []")
    case True
    then show ?thesis using applySplit_unfold[of ht tree filePath nodes recs] a by simp
  next
    case False
    then have "n_Name (last nodes) = Max (set (map n_Name nodes))"
      using last_name_Max a by blast
    then show ?thesis using applySplit_unfold[of ht tree filePath nodes recs] a False
      by (simp split: option.splits)
  qed
qed

lemma demo_list: "ht_List demoHT demoSplitTree ''x'' = Inr [demoNode (''x/0000000000000000'', [''a''], 1), demoNode (''x/0000000000000001'', [''b''], 1)]"
  by (simp add: demoHT_def demoSplitTree_def)

lemma demo_sorted: "sorted (map n_Name [demoNode (''x/0000000000000000'', [''a''], 1), demoNode (''x/0000000000000001'', [''b''], 1)])"
  by (simp add: demoNode_def path_Base_def)

lemma demo_max: "Max (set (map n_Name [demoNode (''x/0000000000000000'', [''a''], 1), demoNode (''x/0000000000000001'', [''b''], 1)])) = ''0000000000000001''"
  by (simp add: demoNode_def path_Base_def)

lemma demo_parse16: "ParseInt (path_Base ''0000000000000001'') 16 = Some 1"
  by (simp add: ParseInt_def digitVal_def path_Base_def)

lemma demo_hex:
  "Sprintf_016x 2 = ''0000000000000002''"
  "Sprintf_016x 3 = ''0000000000000003''"
  by (simp_all add: Sprintf_016x_def padZero_def toHex_def hexDigit_def eval_nat_numeral)

lemma demo_wrap: "wrap64 2 = 2" "wrap64 3 = 3"
  by (simp_all add: wrap64_def)

lemma demo_names: "splitNames ''x'' 2 demoBatch =
   [(''x/0000000000000002'', \<lparr>r_SizeBytes = 2, r_ObjectHash = ''c'', r_OverwriteIndex = None\<rparr>),
    (''x/0000000000000003'', \<lparr>r_SizeBytes = 3, r_ObjectHash = ''d'', r_OverwriteIndex = None\<rparr>)]"
  by (simp add: splitNames_def demoBatch_def demo_wrap demo_hex path_defs)

lemma demo_putFiles:
  "putFiles demoHT (splitNames ''x'' 2 demoBatch) demoSplitTree =
     Inr (demoSplitTree @ [(''x/0000000000000002'', [''c''], 2), (''x/0000000000000003'', [''d''], 3)])"
  by (simp add: demo_names demoHT_def demoSplitTree_def)

lemma demo_filePath:
  "filePathFromEtcdPath demoEnv ''pfs/scratch/r/0123456789ab4def0123456789abcdef/x/u1'' = Inr ''x/u1''"
  by (simp add: filePathFromEtcdPath_def TrimPrefix_def demoEnv_def path_defs Let_def)

theorem applyWrites_split_names_witness:
  "applySplit demoHT ''x'' demoBatch demoSplitTree =
     Inr (demoSplitTree @ [(''x/0000000000000002'', [''c''], 2), (''x/0000000000000003'', [''d''], 3)]) \<and>
   applyWrite demoEnv (\<lambda>h. 0) demoSplitTree
     (''pfs/scratch/r/0123456789ab4def0123456789abcdef/x/u1'',
      Records \<lparr>rs_Split = True, rs_Records = demoBatch\<rparr>) =
     Inr (\<lambda>h. 0, demoSplitTree @ [(''x/0000000000000002'', [''c''], 2),
                                    (''x/0000000000000003'', [''d''], 3)])"
proof -
  note t = applyWrites_split_names[of "\<lparr>rs_Split = True, rs_Records = demoBatch\<rparr>" demoEnv
      "''pfs/scratch/r/0123456789ab4def0123456789abcdef/x/u1''" "''x/u1''" "\<lambda>h. 0" demoSplitTree
      demoHT "''x''" "[demoNode (''x/0000000000000000'', [''a''], 1), demoNode (''x/0000000000000001'', [''b''], 1)]" demoBatch]
  have ne: "[demoNode (''x/0000000000000000'', [''a''], 1), demoNode (''x/0000000000000001'', [''b''], 1)] \<noteq> []" by simp
  have e: "applySplit demoHT ''x'' demoBatch demoSplitTree =
        (if [demoNode (''x/0000000000000000'', [''a''], 1), demoNode (''x/0000000000000001'', [''b''], 1)] = [] then putFiles demoHT (splitNames ''x'' 0 demoBatch) demoSplitTree
         else (case ParseInt (path_Base (Max (set (map n_Name [demoNode (''x/0000000000000000'', [''a''], 1), demoNode (''x/0000000000000001'', [''b''], 1)])))) 16 of
                 None \<Rightarrow> Inl (ErrSplitParse (path_Base (Max (set (map n_Name [demoNode (''x/0000000000000000'', [''a''], 1), demoNode (''x/0000000000000001'', [''b''], 1)])))))
               | Some parsed \<Rightarrow>
                   putFiles demoHT (splitNames ''x'' (wrap64 (parsed + 1)) demoBatch)
                     demoSplitTree))"
    by (rule mp[OF conjunct2[OF t]]) (intro conjI disjI1 demo_list demo_sorted)
  have 1: "applySplit demoHT ''x'' demoBatch demoSplitTree =
     Inr (demoSplitTree @ [(''x/0000000000000002'', [''c''], 2), (''x/0000000000000003'', [''d''], 3)])"
    unfolding e demo_max by (simp add: demo_parse16 demo_wrap demo_putFiles)
  have hd: "HT demoEnv = demoHT" by (simp add: demoEnv_def)
  have j: "Join (butlast (Split ''x/u1'' (CHR ''/''))) ''/'' = ''x''" by simp
  have pre: "rs_Split \<lparr>rs_Split = True, rs_Records = demoBatch\<rparr> \<and>
             filePathFromEtcdPath demoEnv
               ''pfs/scratch/r/0123456789ab4def0123456789abcdef/x/u1'' = Inr ''x/u1''"
    by (simp add: demo_filePath)
  have a2: "applyWrite demoEnv (\<lambda>h. 0) demoSplitTree
     (''pfs/scratch/r/0123456789ab4def0123456789abcdef/x/u1'',
      Records \<lparr>rs_Split = True, rs_Records = demoBatch\<rparr>) =
     (case applySplit (HT demoEnv) (Join (butlast (Split ''x/u1'' (CHR ''/''))) ''/'')
             (rs_Records \<lparr>rs_Split = True, rs_Records = demoBatch\<rparr>) demoSplitTree of
        Inl e \<Rightarrow> Inl e
      | Inr tree' \<Rightarrow> Inr (\<lambda>h. 0, tree'))"
    by (rule mp[OF conjunct1[OF t] pre])
  have 2: "applyWrite demoEnv (\<lambda>h. 0) demoSplitTree
     (''pfs/scratch/r/0123456789ab4def0123456789abcdef/x/u1'',
      Records \<lparr>rs_Split = True, rs_Records = demoBatch\<rparr>) =
     Inr (\<lambda>h. 0, demoSplitTree @ [(''x/0000000000000002'', [''c''], 2),
                                    (''x/0000000000000003'', [''d''], 3)])"
    unfolding a2 hd j by (simp add: 1)
  show ?thesis by (rule conjI[OF 1 2])
qed

subsection \<open>Finishing a commit\<close>

lemma finishCommit_success_cases:
  assumes a: "finishCommit env st commit now = (Inr (), st')"
  shows "\<exists>commitInfo pfx commit' parentTree parent' st1 commitInfo' sizeDelta st2.
     inspectCommit env st (Some commit) = Inr commitInfo \<and>
     ci_Finished commitInfo = None \<and>
     scratchCommitPrefix env st (resolved commit commitInfo) = Inr (pfx, commit') \<and>
     getTreeForCommit env st (ci_ParentCommit commitInfo) = (Inr (parentTree, parent'), st1) \<and>
     finishCommit_tree env (etcd_GetPrefix (scratch st) pfx) parentTree
        (commitInfo\<lparr>ci_ParentCommit := parent'\<rparr>) now = Inr (commitInfo', sizeDelta) \<and>
     NewSTM st1 (finishCommit_txn commit' commitInfo' sizeDelta) = (Inr (), st2) \<and>
     st' = st2\<lparr>scratch := etcd_DeletePrefix (scratch st2) pfx\<rparr>"
proof -
  note d = finishCommit_def
  have auth: "checkIsAuthorized env (c_Repo commit) Scope_WRITER = None"
    using a by (cases "checkIsAuthorized env (c_Repo commit) Scope_WRITER") (simp_all add: d)
  obtain commitInfo where ic: "inspectCommit env st (Some commit) = Inr commitInfo"
    using a auth by (cases "inspectCommit env st (Some commit)") (simp_all add: d)
  have fin: "ci_Finished commitInfo = None"
    using a auth ic by (cases "ci_Finished commitInfo") (simp_all add: d)
  obtain pfx commit' where
    sp: "scratchCommitPrefix env st (resolved commit commitInfo) = Inr (pfx, commit')"
    using a auth ic fin
    by (cases "scratchCommitPrefix env st (resolved commit commitInfo)") (auto simp: d)
  obtain r st1 where g0: "getTreeForCommit env st (ci_ParentCommit commitInfo) = (r, st1)"
    by (cases "getTreeForCommit env st (ci_ParentCommit commitInfo)") auto
  obtain parentTree parent' where g1: "r = Inr (parentTree, parent')"
    using a auth ic fin sp g0 by (cases r) (auto simp: d Let_def)
  obtain commitInfo' sizeDelta where
    ft: "finishCommit_tree env (etcd_GetPrefix (scratch st) pfx) parentTree
           (commitInfo\<lparr>ci_ParentCommit := parent'\<rparr>) now = Inr (commitInfo', sizeDelta)"
    using a auth ic fin sp g0 g1
    by (cases "finishCommit_tree env (etcd_GetPrefix (scratch st) pfx) parentTree
           (commitInfo\<lparr>ci_ParentCommit := parent'\<rparr>) now") (auto simp: d Let_def)
  obtain r2 st2 where t0: "NewSTM st1 (finishCommit_txn commit' commitInfo' sizeDelta) = (r2, st2)"
    by (cases "NewSTM st1 (finishCommit_txn commit' commitInfo' sizeDelta)") auto
  have t1: "r2 = Inr ()" using a auth ic fin sp g0 g1 ft t0
    by (cases r2) (auto simp: d Let_def)
  have fin': "st' = st2\<lparr>scratch := etcd_DeletePrefix (scratch st2) pfx\<rparr>"
    using a auth ic fin sp g0 g1 ft t0 t1 by (simp add: d Let_def)
  show ?thesis using ic fin sp g0 g1 ft t0 t1 fin' by blast
qed

lemma finishCommit_txn_success:
  assumes "NewSTM st1 (finishCommit_txn commit commitInfo sizeDelta) = (Inr (), st2)"
  shows "\<exists>oc' repoInfo. col_Delete (openCommits st1) (c_ID commit) = Some oc' \<and>
           col_Get (repos st1) (c_Repo commit) = Some repoInfo \<and>
           st2 = st1\<lparr>commits := col_Put (commits st1) (c_Repo commit, c_ID commit) commitInfo,
                     openCommits := oc',
                     repos := col_Put (repos st1) (c_Repo commit)
                       (repoInfo\<lparr>ri_SizeBytes := (ri_SizeBytes repoInfo + sizeDelta) mod 2 ^ 64\<rparr>)\<rparr>"
  using assms
  by (auto simp: NewSTM_def finishCommit_txn_def Let_def
           split: option.splits sum.splits prod.splits if_splits)

lemma finishCommit_tree_success:
  assumes a: "finishCommit_tree env resp parentTree commitInfo now = Inr (commitInfo', sizeDelta)"
  shows "\<exists>tree finishedTree data.
           applyWrites env resp (ht_Open (HT env) parentTree) = Inr tree \<and>
           ht_Finish (HT env) tree = Inr finishedTree \<and>
           ht_Serialize (HT env) finishedTree = Inr data \<and>
           ci_Finished commitInfo' = Some now \<and>
           ci_SizeBytes commitInfo' = to_uint64 (ht_FSSize (HT env) finishedTree) \<and>
           ci_Tree commitInfo' =
             (if data = [] then ci_Tree commitInfo else map_option fst (PutObject env data)) \<and>
           (data = [] \<or> PutObject env data \<noteq> None) \<and>
           sizeDelta = sizeChange (HT env) finishedTree (Some parentTree)"
proof -
  note d = finishCommit_tree_def
  obtain tree where 1: "applyWrites env resp (ht_Open (HT env) parentTree) = Inr tree"
    using a by (cases "applyWrites env resp (ht_Open (HT env) parentTree)") (simp_all add: d)
  obtain finishedTree where 2: "ht_Finish (HT env) tree = Inr finishedTree"
    using a 1 by (cases "ht_Finish (HT env) tree") (simp_all add: d)
  obtain data where 3: "ht_Serialize (HT env) finishedTree = Inr data"
    using a 1 2 by (cases "ht_Serialize (HT env) finishedTree") (simp_all add: d)
  show ?thesis
  proof (cases "data = []")
    case True
    then have "commitInfo' = commitInfo\<lparr>ci_SizeBytes := to_uint64 (ht_FSSize (HT env) finishedTree),
                                          ci_Finished := Some now\<rparr> \<and>
               sizeDelta = sizeChange (HT env) finishedTree (Some parentTree)"
      using a 1 2 3 by (simp add: d)
    then show ?thesis using 1 2 3 True by simp
  next
    case False
    then obtain obj where 4: "PutObject env data = Some obj"
      using a 1 2 3 by (cases "PutObject env data") (simp_all add: d)
    then have "commitInfo' = commitInfo\<lparr>ci_Tree := Some (fst obj),
                       ci_SizeBytes := to_uint64 (ht_FSSize (HT env) finishedTree),
                       ci_Finished := Some now\<rparr> \<and>
               sizeDelta = sizeChange (HT env) finishedTree (Some parentTree)"
      using a 1 2 3 False by (simp add: d)
    then show ?thesis using 1 2 3 4 False by simp
  qed
qed

lemma scratchCommitPrefix_Inr:
  assumes "scratchCommitPrefix env st commit = Inr (pfx, commit')"
  shows "pfx = path_Join [scratchPrefix env, c_Repo commit, c_ID commit'] \<and>
         c_Repo commit' = c_Repo commit"
  using assms
  by (cases "inspectCommit env st (Some commit)") (auto simp: scratchCommitPrefix_def resolved_def)

lemma etcd_DeletePrefix_none:
  "\<forall>kv \<in> set (etcd_DeletePrefix kvs p). \<not> prefix (p @ q) (fst kv)"
  by (auto simp: etcd_DeletePrefix_def dest: append_prefixD)


lemma demo_inspect_master:
  "inspectCommit demoEnv demoPut (Some \<lparr>c_Repo = ''r'', c_ID = ''master''\<rparr>) =
     Inr \<lparr>ci_Commit = \<lparr>c_Repo = ''r'', c_ID = uuidA\<rparr>, ci_ParentCommit = None, ci_Started = 1,
          ci_Finished = None, ci_SizeBytes = 0, ci_Provenance = [], ci_Tree = None\<rparr>"
  by (simp add: inspect_defs demoEnv_def demoPut_def demoOpen_def demoRepo_def col_defs uuidA_def
      Let_def)

lemma demo_inspect_uuidA:
  "inspectCommit demoEnv demoPut (Some \<lparr>c_Repo = ''r'', c_ID = uuidA\<rparr>) =
     Inr \<lparr>ci_Commit = \<lparr>c_Repo = ''r'', c_ID = uuidA\<rparr>, ci_ParentCommit = None, ci_Started = 1,
          ci_Finished = None, ci_SizeBytes = 0, ci_Provenance = [], ci_Tree = None\<rparr>"
  by (simp add: inspect_defs demoEnv_def demoPut_def demoOpen_def demoRepo_def col_defs uuidA_def
      Let_def)

lemma demo_scratchCommitPrefix:
  "scratchCommitPrefix demoEnv demoPut \<lparr>c_Repo = ''r'', c_ID = uuidA\<rparr> =
     Inr (''pfs/scratch/r/0123456789ab4def0123456789abcdef'', \<lparr>c_Repo = ''r'', c_ID = uuidA\<rparr>)"
  by (simp add: scratchCommitPrefix_def demo_inspect_uuidA resolved_def)
     (simp add: scratchPrefix_def demoEnv_def uuidA_def path_defs)

lemma demo_getTree:
  "getTreeForCommit demoEnv demoPut None = (Inr ([], None), demoPut)"
  by (simp add: getTreeForCommit_def emptyTree_def demoEnv_def demoHT_def)

lemma demo_applyWrites:
  "applyWrites demoEnv
     [(''pfs/scratch/r/0123456789ab4def0123456789abcdef/x/u1'', Records demoRecords)]
     (ht_Open (HT demoEnv) []) = Inr [(''x'', [''o1'', ''o2'', ''o3''], 10)]"
  by (simp add: applyWrites_def applyWrite_def filePathFromEtcdPath_def TrimPrefix_def
      demoEnv_def demoHT_def demoRecords_def path_defs Let_def)

lemma demo_finishCommit_tree:
  "finishCommit_tree demoEnv
     [(''pfs/scratch/r/0123456789ab4def0123456789abcdef/x/u1'', Records demoRecords)] []
     \<lparr>ci_Commit = \<lparr>c_Repo = ''r'', c_ID = uuidA\<rparr>, ci_ParentCommit = None, ci_Started = 1,
      ci_Finished = None, ci_SizeBytes = 0, ci_Provenance = [], ci_Tree = None\<rparr> 5 =
     Inr (demoFinishedInfo, 10)"
  by (simp add: finishCommit_tree_def demo_applyWrites)
     (simp add: demoEnv_def demoHT_def demoFinishedInfo_def to_uint64_def sizeChange_def demoNode_def)

lemma demo_scratch_get:
  "etcd_GetPrefix (scratch demoPut) ''pfs/scratch/r/0123456789ab4def0123456789abcdef'' =
     [(''pfs/scratch/r/0123456789ab4def0123456789abcdef/x/u1'', Records demoRecords)]"
  by (simp add: etcd_GetPrefix_def demoPut_def)

lemma demo_finish_txn:
  "NewSTM demoPut (finishCommit_txn \<lparr>c_Repo = ''r'', c_ID = uuidA\<rparr> demoFinishedInfo 10) =
     (Inr (), demoFinished\<lparr>scratch := scratch demoPut\<rparr>)"
  by (simp add: NewSTM_def finishCommit_txn_def demoPut_def demoOpen_def demoRepo_def
      demoFinished_def col_defs uuidA_def Let_def)

lemma demo_auth: "checkIsAuthorized demoEnv r s = None"
  by (simp add: checkIsAuthorized_def demoEnv_def)

lemma demo_finishCommit:
  "finishCommit demoEnv demoPut \<lparr>c_Repo = ''r'', c_ID = ''master''\<rparr> 5 = (Inr (), demoFinished)"
  by (simp add: finishCommit_def demo_auth demo_inspect_master resolved_def
      demo_scratchCommitPrefix demo_getTree demo_scratch_get demo_finishCommit_tree[unfolded One_nat_def]
      demo_finish_txn)
     (simp add: etcd_DeletePrefix_def demoPut_def demoFinished_def)

text \<open>Claim C5. When \<open>finishCommit\<close> succeeds, the commit it was given is resolved to an
  open commit (\<open>ci_Finished\<close> is \<open>None\<close>); the writes found under the scratch prefix
  \<open><scratch>/<repo>/<commit id>\<close> are applied to the opened tree of the parent, the tree is
  finished and serialized; afterwards no scratch key below that prefix is left, the commit id is no
  longer a key of \<open>openCommits\<close>, and the record stored for the commit carries the finish time,
  the size of the finished tree, and the object reference of the serialized tree (the reference is
  only replaced when the serialization is not empty).\<close>

theorem finishCommit_success:
  assumes a: "finishCommit env st commit now = (Inr (), st')"
  shows "\<exists>commitInfo pfx commit' parentTree tree finishedTree data.
     inspectCommit env st (Some commit) = Inr commitInfo \<and>
     ci_Finished commitInfo = None \<and>
     scratchCommitPrefix env st (resolved commit commitInfo) = Inr (pfx, commit') \<and>
     pfx = path_Join [scratchPrefix env, c_Repo commit, c_ID commit'] \<and>
     (\<forall>kv \<in> set (scratch st'). \<not> prefix (pfx @ ''/'') (fst kv)) \<and>
     col_Get (openCommits st') (c_ID commit') = None \<and>
     applyWrites env (etcd_GetPrefix (scratch st) pfx) (ht_Open (HT env) parentTree) = Inr tree \<and>
     ht_Finish (HT env) tree = Inr finishedTree \<and>
     ht_Serialize (HT env) finishedTree = Inr data \<and>
     (\<exists>ci'. col_Get (commits st') (c_Repo commit, c_ID commit') = Some ci' \<and>
        ci_Finished ci' = Some now \<and>
        ci_SizeBytes ci' = to_uint64 (ht_FSSize (HT env) finishedTree) \<and>
        ci_Tree ci' =
          (if data = [] then ci_Tree commitInfo else map_option fst (PutObject env data)))"
proof -
  from finishCommit_success_cases[OF a]
  obtain commitInfo pfx commit' parentTree parent' st1 commitInfo' sizeDelta st2 where
    ic: "inspectCommit env st (Some commit) = Inr commitInfo" and
    fin: "ci_Finished commitInfo = None" and
    sp: "scratchCommitPrefix env st (resolved commit commitInfo) = Inr (pfx, commit')" and
    ft: "finishCommit_tree env (etcd_GetPrefix (scratch st) pfx) parentTree
           (commitInfo\<lparr>ci_ParentCommit := parent'\<rparr>) now = Inr (commitInfo', sizeDelta)" and
    tx: "NewSTM st1 (finishCommit_txn commit' commitInfo' sizeDelta) = (Inr (), st2)" and
    st': "st' = st2\<lparr>scratch := etcd_DeletePrefix (scratch st2) pfx\<rparr>"
    by blast
  from finishCommit_tree_success[OF ft]
  obtain tree finishedTree data where
    aw: "applyWrites env (etcd_GetPrefix (scratch st) pfx) (ht_Open (HT env) parentTree) = Inr tree" and
    fi: "ht_Finish (HT env) tree = Inr finishedTree" and
    se: "ht_Serialize (HT env) finishedTree = Inr data" and
    cf: "ci_Finished commitInfo' = Some now" and
    cs: "ci_SizeBytes commitInfo' = to_uint64 (ht_FSSize (HT env) finishedTree)" and
    ct: "ci_Tree commitInfo' =
          (if data = [] then ci_Tree (commitInfo\<lparr>ci_ParentCommit := parent'\<rparr>)
           else map_option fst (PutObject env data))"
    by blast
  from finishCommit_txn_success[OF tx]
  obtain oc' repoInfo where
    del: "col_Delete (openCommits st1) (c_ID commit') = Some oc'" and
    st2: "st2 = st1\<lparr>commits := col_Put (commits st1) (c_Repo commit', c_ID commit') commitInfo',
                     openCommits := oc',
                     repos := col_Put (repos st1) (c_Repo commit')
                       (repoInfo\<lparr>ri_SizeBytes := (ri_SizeBytes repoInfo + sizeDelta) mod 2 ^ 64\<rparr>)\<rparr>"
    by blast
  have pf: "pfx = path_Join [scratchPrefix env, c_Repo commit, c_ID commit']"
    and rp: "c_Repo commit' = c_Repo commit"
    using scratchCommitPrefix_Inr[OF sp] by (simp_all add: resolved_def)
  have sc: "\<forall>kv \<in> set (scratch st'). \<not> prefix (pfx @ ''/'') (fst kv)"
    unfolding st' by (simp add: etcd_DeletePrefix_none)
  have oc: "col_Get (openCommits st') (c_ID commit') = None"
    using col_Get_Delete[OF del] by (simp add: st' st2)
  have cm: "col_Get (commits st') (c_Repo commit, c_ID commit') = Some commitInfo'"
    by (simp add: st' st2 col_Get_Put rp)
  have ct': "ci_Tree commitInfo' =
          (if data = [] then ci_Tree commitInfo else map_option fst (PutObject env data))"
    using ct by simp
  show ?thesis
    using ic fin sp pf sc oc aw fi se cm cf cs ct' by blast
qed

theorem finishCommit_success_witness:
  "finishCommit demoEnv demoPut \<lparr>c_Repo = ''r'', c_ID = ''master''\<rparr> 5 = (Inr (), demoFinished) \<and>
   col_Get (openCommits demoFinished) uuidA = None \<and>
   (\<exists>ci'. col_Get (commits demoFinished) (''r'', uuidA) = Some ci' \<and>
          ci_Finished ci' = Some 5 \<and> ci_SizeBytes ci' = 10 \<and> ci_Tree ci' = Some ''tree-object'')"
proof -
  from finishCommit_success[OF demo_finishCommit]
  obtain commitInfo pfx commit' parentTree tree finishedTree data ci' where
    ic: "inspectCommit demoEnv demoPut (Some \<lparr>c_Repo = ''r'', c_ID = ''master''\<rparr>) = Inr commitInfo" and
    sp: "scratchCommitPrefix demoEnv demoPut
           (resolved \<lparr>c_Repo = ''r'', c_ID = ''master''\<rparr> commitInfo) = Inr (pfx, commit')" and
    oc: "col_Get (openCommits demoFinished) (c_ID commit') = None" and
    cm: "col_Get (commits demoFinished)
           (c_Repo \<lparr>c_Repo = ''r'', c_ID = ''master''\<rparr>, c_ID commit') = Some ci'" and
    cf: "ci_Finished ci' = Some 5"
    by blast
  have ci: "commitInfo = \<lparr>ci_Commit = \<lparr>c_Repo = ''r'', c_ID = uuidA\<rparr>, ci_ParentCommit = None,
      ci_Started = 1, ci_Finished = None, ci_SizeBytes = 0, ci_Provenance = [], ci_Tree = None\<rparr>"
    using ic by (simp add: demo_inspect_master)
  have c': "commit' = \<lparr>c_Repo = ''r'', c_ID = uuidA\<rparr>"
    using sp by (simp add: ci resolved_def demo_scratchCommitPrefix)
  have 1: "col_Get (openCommits demoFinished) uuidA = None"
    using oc by (simp add: c')
  have 2: "col_Get (commits demoFinished) (''r'', uuidA) = Some ci'"
    using cm by (simp add: c')
  have 3: "ci' = demoFinishedInfo"
    using 2 by (simp add: demoFinished_def col_Get_def)
  have 4: "ci_SizeBytes ci' = 10 \<and> ci_Tree ci' = Some ''tree-object''"
    by (simp add: 3 demoFinishedInfo_def)
  show ?thesis
    using demo_finishCommit 1 2 cf 4 by simp
qed

subsection \<open>The parent of a new commit\<close>

lemma col_Get_Create:
  "col_Create c k v = Some c' \<Longrightarrow> col_Get c' q = (if q = k then Some v else col_Get c q)"
  by (auto simp: col_Create_def col_Get_Put split: option.splits)

lemma makeCommit_txn_open:
  assumes ne: "c_ID (parentOrHead st parent branch) \<noteq> []"
    and ic: "inspectCommit env st (Some (parentOrHead st parent branch)) = Inr pci"
    and op: "ci_Finished pci = None"
  shows "\<exists>e. makeCommit_txn env parent branch provenance tree commit started finishedAt st
            = (Inl e, st)"
proof (cases "col_Get (repos st) (c_Repo parent)")
  case None
  then show ?thesis by (simp add: makeCommit_txn_def)
next
  case (Some repoInfo)
  show ?thesis
  proof (cases "provenance_loop (commits st) provenance []")
    case (Inl e)
    then show ?thesis using Some by (simp add: makeCommit_txn_def)
  next
    case (Inr pm)
    show ?thesis
      using Some Inr ne ic op
      by (simp add: makeCommit_txn_def parentOrHead_def Let_def)
  qed
qed


lemma NewSTM_Inr: "NewSTM st f = (Inr x, st') \<Longrightarrow> f st = (Inr x, st')"
  by (cases "f st"; cases "fst (f st)") (auto simp: NewSTM_def)

lemma NewSTM_Inl_same: "f st = (Inl e, st) \<Longrightarrow> NewSTM st f = (Inl e, st)"
  by (simp add: NewSTM_def)

lemma makeCommit_txn_success:
  assumes a: "makeCommit_txn env parent branch provenance tree commit started finishedAt st
                = (Inr u, st')"
  shows "\<exists>ci. col_Get (commits st') (c_Repo parent, c_ID commit) = Some ci \<and>
     ci_Commit ci = commit \<and>
     (if c_ID (parentOrHead st parent branch) = [] then ci_ParentCommit ci = None
      else (\<exists>pci tr st1.
              inspectCommit env st (Some (parentOrHead st parent branch)) = Inr pci \<and>
              ci_Finished pci \<noteq> None \<and>
              getTreeForCommit env st (Some (resolved (parentOrHead st parent branch) pci))
                = (Inr (tr, ci_ParentCommit ci), st1)))"
proof -
  note d = makeCommit_txn_def
  let ?p1 = "parentOrHead st parent branch"
  obtain repoInfo where r: "col_Get (repos st) (c_Repo parent) = Some repoInfo"
    using a by (cases "col_Get (repos st) (c_Repo parent)") (simp_all add: d)
  obtain pm where pl: "provenance_loop (commits st) provenance [] = Inr pm"
    using a r by (cases "provenance_loop (commits st) provenance []") (simp_all add: d)
  show ?thesis
  proof (cases "c_ID ?p1 = []")
    case True
    obtain res st1 where g0: "getTreeForCommit env st (Some ?p1) = (res, st1)"
      by (cases "getTreeForCommit env st (Some ?p1)") auto
    obtain tr p3 where g1: "res = Inr (tr, p3)"
      using a r pl True g0 by (cases res) (auto simp: d Let_def parentOrHead_def)
    show ?thesis
    proof (cases tree)
      case None
      then show ?thesis
        using a r pl True g0 g1
        by (auto simp: d Let_def parentOrHead_def col_Get_Create split: option.splits)
    next
      case (Some tt)
      then show ?thesis
        using a r pl True g0 g1
        by (cases tt) (auto simp: d Let_def parentOrHead_def col_Get_Create split: option.splits)
    qed
  next
    case False
    obtain pci where ic: "inspectCommit env st (Some ?p1) = Inr pci"
      using a r pl False
      by (cases "inspectCommit env st (Some ?p1)") (simp_all add: d Let_def parentOrHead_def)
    have fin: "ci_Finished pci \<noteq> None"
      using a r pl False ic
      by (cases "ci_Finished pci") (simp_all add: d Let_def parentOrHead_def)
    obtain res st1 where g0: "getTreeForCommit env st (Some (resolved ?p1 pci)) = (res, st1)"
      by (cases "getTreeForCommit env st (Some (resolved ?p1 pci))") auto
    obtain tr p3 where g1: "res = Inr (tr, p3)"
      using a r pl False ic fin g0 by (cases res) (auto simp: d Let_def parentOrHead_def)
    have "\<exists>ci. col_Get (commits st') (c_Repo parent, c_ID commit) = Some ci \<and>
            ci_Commit ci = commit \<and> ci_ParentCommit ci = p3"
    proof (cases tree)
      case None
      then show ?thesis
        using a r pl False ic fin g0 g1
        by (auto simp: d Let_def parentOrHead_def col_Get_Create split: option.splits)
    next
      case (Some tt)
      then show ?thesis
        using a r pl False ic fin g0 g1
        by (cases tt) (auto simp: d Let_def parentOrHead_def col_Get_Create split: option.splits)
    qed
    then obtain ci where c: "col_Get (commits st') (c_Repo parent, c_ID commit) = Some ci"
        "ci_Commit ci = commit" "ci_ParentCommit ci = p3"
      by blast
    have g: "getTreeForCommit env st (Some (resolved ?p1 pci)) = (Inr (tr, ci_ParentCommit ci), st1)"
      using g0 g1 c(3) by simp
    show ?thesis
      using False c(1,2) ic fin g by auto
  qed
qed


lemma makeCommit_Inr:
  assumes a: "makeCommit env st (Some p) branch provenance treeRef newID started finishedAt
                = (Inr c, st')"
  shows "c = \<lparr>c_Repo = c_Repo p, c_ID = newID\<rparr> \<and>
         (\<exists>tree. makeCommit_txn env p branch provenance tree c started finishedAt st
                    = (Inr (), st'))"
proof -
  note d = makeCommit_def
  let ?t = "(case treeRef of
               None \<Rightarrow> Inr None
             | Some ref \<Rightarrow>
                 (case GetObject env ref of
                    None \<Rightarrow> Inl ErrObjectStore
                  | Some buf \<Rightarrow>
                      (case ht_Deserialize (HT env) buf of
                         Inl e \<Rightarrow> Inl e
                       | Inr t \<Rightarrow> Inr (Some (ref, t)))))"
  let ?c = "\<lparr>c_Repo = c_Repo p, c_ID = newID\<rparr>"
  have auth: "checkIsAuthorized env (c_Repo p) Scope_WRITER = None"
    using a by (cases "checkIsAuthorized env (c_Repo p) Scope_WRITER") (simp_all add: d)
  obtain tree where t: "?t = Inr tree"
    using a auth by (cases ?t) (simp_all add: d)
  obtain res st2 where n0: "NewSTM st (makeCommit_txn env p branch provenance tree ?c
                                         started finishedAt) = (res, st2)"
    by (cases "NewSTM st (makeCommit_txn env p branch provenance tree ?c started finishedAt)")
       auto
  have n1: "res = Inr () \<and> c = ?c \<and> st' = st2"
    using a auth t n0 by (cases res) (simp_all add: d)
  have "makeCommit_txn env p branch provenance tree ?c started finishedAt st = (Inr (), st')"
    using n0 n1 by (simp add: NewSTM_Inr)
  then show ?thesis using n1 by blast
qed

lemma makeCommit_open:
  assumes ne: "c_ID (parentOrHead st parent branch) \<noteq> []"
    and ic: "inspectCommit env st (Some (parentOrHead st parent branch)) = Inr pci"
    and op: "ci_Finished pci = None"
  shows "\<exists>e. makeCommit env st (Some parent) branch provenance treeRef newID started finishedAt
            = (Inl e, st)"
proof (cases "checkIsAuthorized env (c_Repo parent) Scope_WRITER")
  case (Some e)
  then show ?thesis by (simp add: makeCommit_def)
next
  case None
  let ?t = "(case treeRef of
               None \<Rightarrow> Inr None
             | Some ref \<Rightarrow>
                 (case GetObject env ref of
                    None \<Rightarrow> Inl ErrObjectStore
                  | Some buf \<Rightarrow>
                      (case ht_Deserialize (HT env) buf of
                         Inl e \<Rightarrow> Inl e
                       | Inr t \<Rightarrow> Inr (Some (ref, t)))))"
  show ?thesis
  proof (cases ?t)
    case (Inl e)
    then show ?thesis using None by (simp add: makeCommit_def)
  next
    case (Inr tree)
    obtain e where
      "makeCommit_txn env parent branch provenance tree \<lparr>c_Repo = c_Repo parent, c_ID = newID\<rparr>
         started finishedAt st = (Inl e, st)"
      using makeCommit_txn_open[OF ne ic op] by blast
    then have "NewSTM st (makeCommit_txn env parent branch provenance tree
                 \<lparr>c_Repo = c_Repo parent, c_ID = newID\<rparr> started finishedAt) = (Inl e, st)"
      by (rule NewSTM_Inl_same)
    then show ?thesis using None Inr by (simp add: makeCommit_def)
  qed
qed

lemma inspectCommit_plain:
  assumes "checkIsAuthorized env (c_Repo c) Scope_READER = None"
    and "\<forall>ch \<in> set (c_ID c). ch \<noteq> CHR ''^'' \<and> ch \<noteq> CHR ''~''"
    and "col_Get (branches st) (c_Repo c, c_ID c) = None"
    and "inspectCommit env st (Some c) = Inr ci"
  shows "col_Get (commits st) (c_Repo c, c_ID c) = Some ci"
  using assms
  by (simp add: inspectCommit_def parseCommitID_plain Let_def split: option.splits)

lemma getTreeForCommit_same:
  assumes g: "getTreeForCommit env st (Some c) = (Inr (t, pc), st1)"
    and r: "\<forall>ci. inspectCommit env st (Some c) = Inr ci \<longrightarrow> resolved c ci = c"
  shows "pc = Some c"
  using g r
  by (auto simp: getTreeForCommit_def emptyTree_def Let_def
      split: option.splits sum.splits if_splits prod.splits)


text \<open>Claim C4. \<open>startCommit\<close> and \<open>buildCommit\<close> are \<open>makeCommit\<close>. The parent that
  \<open>makeCommit\<close> works with (\<open>parentOrHead\<close>) has the id of the head of \<open>branch\<close> when
  \<open>parent.ID\<close> is empty and \<open>branch\<close> is not (the empty id when there is no such branch),
  and is \<open>parent\<close> as given otherwise. A successful call stores the new commit: without a
  parent when that id is empty; otherwise the parent was fetched by \<open>inspectCommit\<close>, is
  finished, and \<open>ParentCommit\<close> is the commit that \<open>inspectCommit\<close> resolved it to, which
  is the parent itself when its id is the key of a commit record and neither an
  ancestry expression nor the name of a branch. When the parent is fetched and still open
  (\<open>Finished\<close> is nil) the call fails and leaves the store as it was.\<close>

theorem makeCommit_parent:
  "startCommit env st (Some parent) branch provenance newID started finishedAt =
     makeCommit env st (Some parent) branch provenance None newID started finishedAt \<and>
   buildCommit env st (Some parent) branch provenance treeRef newID started finishedAt =
     makeCommit env st (Some parent) branch provenance treeRef newID started finishedAt \<and>
   parentOrHead st parent branch =
     parent\<lparr>c_ID := (if branch \<noteq> [] \<and> c_ID parent = []
                       then (case col_Get (branches st) (c_Repo parent, branch) of
                               None \<Rightarrow> [] | Some head \<Rightarrow> c_ID head)
                       else c_ID parent)\<rparr> \<and>
   (makeCommit env st (Some parent) branch provenance treeRef newID started finishedAt
      = (Inr c, st') \<longrightarrow>
    c = \<lparr>c_Repo = c_Repo parent, c_ID = newID\<rparr> \<and>
    (\<exists>ci. col_Get (commits st') (c_Repo parent, newID) = Some ci \<and> ci_Commit ci = c \<and>
       (if c_ID (parentOrHead st parent branch) = [] then ci_ParentCommit ci = None
        else (\<exists>pci tr st1.
                inspectCommit env st (Some (parentOrHead st parent branch)) = Inr pci \<and>
                ci_Finished pci \<noteq> None \<and>
                getTreeForCommit env st (Some (resolved (parentOrHead st parent branch) pci))
                  = (Inr (tr, ci_ParentCommit ci), st1))))) \<and>
   (makeCommit env st (Some parent) branch provenance treeRef newID started finishedAt
      = (Inr c, st') \<and>
    c_ID (parentOrHead st parent branch) \<noteq> [] \<and>
    checkIsAuthorized env (c_Repo parent) Scope_READER = None \<and>
    (\<forall>ch \<in> set (c_ID (parentOrHead st parent branch)). ch \<noteq> CHR ''^'' \<and> ch \<noteq> CHR ''~'') \<and>
    col_Get (branches st) (c_Repo parent, c_ID (parentOrHead st parent branch)) = None \<and>
    (\<forall>ci. col_Get (commits st) (c_Repo parent, c_ID (parentOrHead st parent branch)) = Some ci
           \<longrightarrow> ci_Commit ci = parentOrHead st parent branch) \<longrightarrow>
    (\<exists>ci. col_Get (commits st') (c_Repo parent, newID) = Some ci \<and>
          ci_ParentCommit ci = Some (parentOrHead st parent branch))) \<and>
   (c_ID (parentOrHead st parent branch) \<noteq> [] \<and>
    inspectCommit env st (Some (parentOrHead st parent branch)) = Inr pci \<and>
    ci_Finished pci = None \<longrightarrow>
    (\<exists>e. makeCommit env st (Some parent) branch provenance treeRef newID started finishedAt
            = (Inl e, st)))"
proof -
  let ?p1 = "parentOrHead st parent branch"
  let ?mk = "makeCommit env st (Some parent) branch provenance treeRef newID started finishedAt"
  have rp: "c_Repo ?p1 = c_Repo parent"
    by (simp add: parentOrHead_def split: option.splits)
  have A: "c = \<lparr>c_Repo = c_Repo parent, c_ID = newID\<rparr> \<and>
    (\<exists>ci. col_Get (commits st') (c_Repo parent, newID) = Some ci \<and> ci_Commit ci = c \<and>
       (if c_ID ?p1 = [] then ci_ParentCommit ci = None
        else (\<exists>pci tr st1.
                inspectCommit env st (Some ?p1) = Inr pci \<and>
                ci_Finished pci \<noteq> None \<and>
                getTreeForCommit env st (Some (resolved ?p1 pci))
                  = (Inr (tr, ci_ParentCommit ci), st1))))"
    if m: "?mk = (Inr c, st')"
  proof -
    from makeCommit_Inr[OF m] obtain tree where
      c: "c = \<lparr>c_Repo = c_Repo parent, c_ID = newID\<rparr>" and
      t: "makeCommit_txn env parent branch provenance tree c started finishedAt st = (Inr (), st')"
      by blast
    have id: "c_ID c = newID" by (simp add: c)
    show ?thesis
      using makeCommit_txn_success[OF t] c unfolding id by simp
  qed
  have C: "\<exists>ci. col_Get (commits st') (c_Repo parent, newID) = Some ci \<and>
                ci_ParentCommit ci = Some ?p1"
    if m: "?mk = (Inr c, st')" and ne: "c_ID ?p1 \<noteq> []"
      and au: "checkIsAuthorized env (c_Repo parent) Scope_READER = None"
      and pl: "\<forall>ch \<in> set (c_ID ?p1). ch \<noteq> CHR ''^'' \<and> ch \<noteq> CHR ''~''"
      and nb: "col_Get (branches st) (c_Repo parent, c_ID ?p1) = None"
      and wf: "\<forall>ci. col_Get (commits st) (c_Repo parent, c_ID ?p1) = Some ci
                    \<longrightarrow> ci_Commit ci = ?p1"
  proof -
    from A[OF m] ne obtain ci pci tr st1 where
      g: "col_Get (commits st') (c_Repo parent, newID) = Some ci" and
      ic: "inspectCommit env st (Some ?p1) = Inr pci" and
      gt: "getTreeForCommit env st (Some (resolved ?p1 pci)) = (Inr (tr, ci_ParentCommit ci), st1)"
      by auto
    have same: "resolved ?p1 x = ?p1" if "inspectCommit env st (Some ?p1) = Inr x" for x
    proof -
      have "col_Get (commits st) (c_Repo ?p1, c_ID ?p1) = Some x"
        using au pl nb that by (intro inspectCommit_plain) (simp_all add: rp)
      then have "ci_Commit x = ?p1" using wf by (simp add: rp)
      then show ?thesis by (simp add: resolved_def)
    qed
    have gt': "getTreeForCommit env st (Some ?p1) = (Inr (tr, ci_ParentCommit ci), st1)"
      using gt same[OF ic] by simp
    have "ci_ParentCommit ci = Some ?p1"
      using gt' same by (intro getTreeForCommit_same[of env st ?p1 tr _ st1]) simp_all
    then show ?thesis using g by simp
  qed
  have B: "\<exists>e. ?mk = (Inl e, st)"
    if "c_ID ?p1 \<noteq> []" "inspectCommit env st (Some ?p1) = Inr pci" "ci_Finished pci = None"
    using that by (rule makeCommit_open)
  have P: "?p1 = parent\<lparr>c_ID := (if branch \<noteq> [] \<and> c_ID parent = []
                       then (case col_Get (branches st) (c_Repo parent, branch) of
                               None \<Rightarrow> [] | Some head \<Rightarrow> c_ID head)
                       else c_ID parent)\<rparr>"
    by (simp add: parentOrHead_def split: option.splits)
  have S: "startCommit env st (Some parent) branch provenance newID started finishedAt =
     makeCommit env st (Some parent) branch provenance None newID started finishedAt"
    by (simp add: startCommit_def)
  have Bu: "buildCommit env st (Some parent) branch provenance treeRef newID started finishedAt =
     ?mk"
    by (simp add: buildCommit_def)
  show ?thesis
    apply (intro conjI impI)
    subgoal by (rule S)
    subgoal by (rule Bu)
    subgoal by (rule P)
    subgoal using A by blast
    subgoal using A by blast
    subgoal using C by blast
    subgoal using B by blast
    done
qed


lemma demo_head_chain:
  "parentOrHead demoChain \<lparr>c_Repo = ''r'', c_ID = []\<rparr> ''master'' = \<lparr>c_Repo = ''r'', c_ID = uuidB\<rparr>"
  by (simp add: parentOrHead_def demoChain_def demoRepo_def col_Get_def)

lemma demo_head_open:
  "parentOrHead demoOpen \<lparr>c_Repo = ''r'', c_ID = []\<rparr> ''master'' = \<lparr>c_Repo = ''r'', c_ID = uuidA\<rparr>"
  by (simp add: parentOrHead_def demoOpen_def demoRepo_def col_Get_def)

lemma demo_head_repo:
  "parentOrHead demoRepo \<lparr>c_Repo = ''r'', c_ID = []\<rparr> ''master'' = \<lparr>c_Repo = ''r'', c_ID = []\<rparr>"
  by (simp add: parentOrHead_def demoRepo_def col_Get_def)

lemma demo_inspect_open:
  "inspectCommit demoEnv demoOpen (Some \<lparr>c_Repo = ''r'', c_ID = uuidA\<rparr>) =
     Inr \<lparr>ci_Commit = \<lparr>c_Repo = ''r'', c_ID = uuidA\<rparr>, ci_ParentCommit = None, ci_Started = 1,
          ci_Finished = None, ci_SizeBytes = 0, ci_Provenance = [], ci_Tree = None\<rparr>"
  by (simp add: inspect_defs demoEnv_def demoOpen_def demoRepo_def col_defs uuidA_def Let_def)

lemma demo_makeCommit_chain:
  "fst (makeCommit demoEnv demoChain (Some \<lparr>c_Repo = ''r'', c_ID = []\<rparr>) ''master'' [] None
          ''c1'' 5 6) = Inr \<lparr>c_Repo = ''r'', c_ID = ''c1''\<rparr>"
  by (simp add: makeCommit_def makeCommit_txn_def inspect_defs NewSTM_def getTreeForCommit_def
      emptyTree_def lru_Get_def demoEnv_def demoHT_def demoChain_def demoRepo_def demoInfoA_def
      demoInfoB_def col_defs uuidA_def uuidB_def Let_def)

theorem makeCommit_parent_witness:
  "(\<exists>ci. col_Get (commits (snd (makeCommit demoEnv demoChain
             (Some \<lparr>c_Repo = ''r'', c_ID = []\<rparr>) ''master'' [] None ''c1'' 5 6))) (''r'', ''c1'')
            = Some ci \<and>
          ci_ParentCommit ci = Some \<lparr>c_Repo = ''r'', c_ID = uuidB\<rparr>) \<and>
   (\<exists>ci. col_Get (commits demoOpen) (''r'', uuidA) = Some ci \<and> ci_ParentCommit ci = None) \<and>
   (\<exists>e. makeCommit demoEnv demoOpen (Some \<lparr>c_Repo = ''r'', c_ID = []\<rparr>) ''master'' [] None
           uuidB 3 4 = (Inl e, demoOpen))"
proof -
  let ?p = "\<lparr>c_Repo = ''r'', c_ID = []\<rparr>"
  let ?st' = "snd (makeCommit demoEnv demoChain (Some ?p) ''master'' [] None ''c1'' 5 6)"
  note t1 = makeCommit_parent[of demoEnv demoChain ?p "''master''" "[]" "''c1''" 5 6 None
      "\<lparr>c_Repo = ''r'', c_ID = ''c1''\<rparr>" ?st' demoInfoB, unfolded demo_head_chain]
  have m1: "makeCommit demoEnv demoChain (Some ?p) ''master'' [] None ''c1'' 5 6
              = (Inr \<lparr>c_Repo = ''r'', c_ID = ''c1''\<rparr>, ?st')"
    using demo_makeCommit_chain by (simp add: prod_eq_iff)
  have h1: "c_ID \<lparr>c_Repo = ''r'', c_ID = uuidB\<rparr> \<noteq> [] \<and>
    checkIsAuthorized demoEnv (c_Repo ?p) Scope_READER = None \<and>
    (\<forall>ch \<in> set (c_ID \<lparr>c_Repo = ''r'', c_ID = uuidB\<rparr>). ch \<noteq> CHR ''^'' \<and> ch \<noteq> CHR ''~'') \<and>
    col_Get (branches demoChain) (c_Repo ?p, c_ID \<lparr>c_Repo = ''r'', c_ID = uuidB\<rparr>) = None \<and>
    (\<forall>ci. col_Get (commits demoChain) (c_Repo ?p, c_ID \<lparr>c_Repo = ''r'', c_ID = uuidB\<rparr>) = Some ci
           \<longrightarrow> ci_Commit ci = \<lparr>c_Repo = ''r'', c_ID = uuidB\<rparr>)"
    by (simp add: checkIsAuthorized_def demoEnv_def demoChain_def demoRepo_def demoInfoB_def
        col_Get_def uuidB_def)
  have 1: "\<exists>ci. col_Get (commits ?st') (''r'', ''c1'') = Some ci \<and>
             ci_ParentCommit ci = Some \<lparr>c_Repo = ''r'', c_ID = uuidB\<rparr>"
    using mp[OF conjunct1[OF conjunct2[OF conjunct2[OF conjunct2[OF conjunct2[OF t1]]]]]
             conjI[OF m1 h1]]
    by simp
  note t2 = makeCommit_parent[of demoEnv demoRepo ?p "''master''" "[]" uuidA 1 2 None
      "\<lparr>c_Repo = ''r'', c_ID = uuidA\<rparr>" demoOpen demoInfoA, unfolded demo_head_repo]
  have m2: "makeCommit demoEnv demoRepo (Some ?p) ''master'' [] None uuidA 1 2
              = (Inr \<lparr>c_Repo = ''r'', c_ID = uuidA\<rparr>, demoOpen)"
    using demo_startCommit by (simp add: startCommit_def)
  have 2: "\<exists>ci. col_Get (commits demoOpen) (''r'', uuidA) = Some ci \<and> ci_ParentCommit ci = None"
    using mp[OF conjunct1[OF conjunct2[OF conjunct2[OF conjunct2[OF t2]]]] m2]
    by auto
  note t3 = makeCommit_parent[of demoEnv demoOpen ?p "''master''" "[]" uuidB 3 4 None
      "\<lparr>c_Repo = ''r'', c_ID = uuidB\<rparr>" demoOpen
      "\<lparr>ci_Commit = \<lparr>c_Repo = ''r'', c_ID = uuidA\<rparr>, ci_ParentCommit = None, ci_Started = 1,
        ci_Finished = None, ci_SizeBytes = 0, ci_Provenance = [], ci_Tree = None\<rparr>",
      unfolded demo_head_open]
  have h3: "c_ID \<lparr>c_Repo = ''r'', c_ID = uuidA\<rparr> \<noteq> [] \<and>
    inspectCommit demoEnv demoOpen (Some \<lparr>c_Repo = ''r'', c_ID = uuidA\<rparr>) =
      Inr \<lparr>ci_Commit = \<lparr>c_Repo = ''r'', c_ID = uuidA\<rparr>, ci_ParentCommit = None, ci_Started = 1,
        ci_Finished = None, ci_SizeBytes = 0, ci_Provenance = [], ci_Tree = None\<rparr> \<and>
    ci_Finished \<lparr>ci_Commit = \<lparr>c_Repo = ''r'', c_ID = uuidA\<rparr>, ci_ParentCommit = None,
        ci_Started = 1, ci_Finished = None, ci_SizeBytes = 0, ci_Provenance = [],
        ci_Tree = None\<rparr> = None"
    by (simp add: demo_inspect_open) (simp add: uuidA_def)
  have 3: "\<exists>e. makeCommit demoEnv demoOpen (Some ?p) ''master'' [] None uuidB 3 4
             = (Inl e, demoOpen)"
    by (rule mp[OF conjunct2[OF conjunct2[OF conjunct2[OF conjunct2[OF conjunct2[OF t3]]]]] h3])
  show ?thesis
    by (rule conjI[OF 1 conjI[OF 2 3]])
qed

end
